(* ===== verification/Go_Prelude.thy ===== *)
theory Go_Prelude
  imports Main "HOL-Library.Sublist"
begin

text \<open>
  The part of Go and of its standard library that the modelled packages use: error values and
  their wrapping, contexts, 64-bit integers, and the functions of \<^verbatim>\<open>strings\<close>, \<^verbatim>\<open>strconv\<close> and
  \<^verbatim>\<open>fmt\<close> that the sources call.  A Go string is a sequence of bytes, here a list of \<^typ>\<open>char\<close>.
  An effectful call is a function of the world that returns a result and the next world.
\<close>

named_theorems go_simps \<open>facts that evaluate the standard library functions\<close>

section \<open>Errors\<close>

text \<open>
  The sentinel errors the sources compare with (\<^verbatim>\<open>mongo.ErrNoDocuments\<close>,
  \<^verbatim>\<open>storage.ErrConflict\<close>, the bus errors of internal/bus/bus.go, the two context errors,
  \<^verbatim>\<open>fs.ErrNotExist\<close> and \<^verbatim>\<open>fs.ErrClosed\<close>), an
  error of the driver that \<^verbatim>\<open>mongo.IsDuplicateKeyError\<close> recognises, an error with nothing inside
  (\<open>Errorf\<close>), and an error wrapped by \<^verbatim>\<open>fmt.Errorf("...: %w", err)\<close> (\<open>Wrapf\<close>).
\<close>

datatype go_error =
    ErrNoDocuments
  | ErrClientDisconnected
  | ErrDuplicateKey string
  | ErrCommand string string \<comment> \<open>name and message of a \<^verbatim>\<open>mongo.CommandError\<close>\<close>
  | ErrConflict
  | CtxCanceled
  | CtxDeadlineExceeded
  | ErrNotExist
  | ErrClosed
  | ErrSlowConsumer
  | ErrSubscriptionClosed
  | ErrSessionLimitExceeded
  | ErrSubscriberLimitExceeded
  | Errorf string
  | Wrapf string go_error

text \<open>\<^verbatim>\<open>errors.Is\<close>: the error or one it wraps equals the target.\<close>

fun err_is :: "go_error \<Rightarrow> go_error \<Rightarrow> bool" where
  "err_is (Wrapf m e) t \<longleftrightarrow> Wrapf m e = t \<or> err_is e t"
| "err_is e t \<longleftrightarrow> e = t"

fun is_duplicate_key :: "go_error \<Rightarrow> bool" where
  "is_duplicate_key (ErrDuplicateKey m) = True"
| "is_duplicate_key (Wrapf m e) = is_duplicate_key e"
| "is_duplicate_key e = False"

text \<open>The text of an error, \<^verbatim>\<open>err.Error()\<close>.\<close>

fun error_text :: "go_error \<Rightarrow> string" where
  "error_text ErrNoDocuments = ''mongo: no documents in result''"
| "error_text ErrClientDisconnected = ''client is disconnected''"
| "error_text (ErrDuplicateKey m) = m"
| "error_text (ErrCommand n m) = ''('' @ n @ '') '' @ m"
| "error_text ErrConflict = ''conflict''"
| "error_text CtxCanceled = ''context canceled''"
| "error_text CtxDeadlineExceeded = ''context deadline exceeded''"
| "error_text ErrNotExist = ''file does not exist''"
| "error_text ErrClosed = ''file already closed''"
| "error_text ErrSlowConsumer = ''bus: slow consumer buffer full''"
| "error_text ErrSubscriptionClosed = ''bus: subscription closed''"
| "error_text ErrSessionLimitExceeded = ''bus: max sessions exceeded''"
| "error_text ErrSubscriberLimitExceeded = ''bus: max subscribers per session exceeded''"
| "error_text (Errorf m) = m"
| "error_text (Wrapf m e) = m @ '': '' @ error_text e"

lemma err_is_refl [simp]: "err_is e e"
  by (cases e) auto

section \<open>Contexts\<close>

text \<open>
  A context is the way it was built: a base context (a request, the scheduler loop), and the
  wrappers of package \<^verbatim>\<open>context\<close> the sources use.  \<open>CtxPhase\<close> and \<open>CtxTimeout\<close> are the two
  \<^verbatim>\<open>context.WithValue\<close> keys of internal/consumer/task_helpers.go.
\<close>

datatype ctx =
    CtxBase nat
  | CtxWithoutCancel ctx
  | CtxWithCancel ctx
  | CtxWithTimeout int ctx
  | CtxPhase string ctx
  | CtxTimeout int ctx

type_synonym ('w, 'a) act = "'w \<Rightarrow> 'a \<times> 'w"

section \<open>64-bit integers and time\<close>

text \<open>
  Go's \<^verbatim>\<open>int\<close> and \<^verbatim>\<open>int64\<close> are 64-bit two's complement on the platform the service is built for.
  A time is the number of nanoseconds since Go's zero time (1 January of year 1), so that
  \<^verbatim>\<open>t.IsZero()\<close> is \<open>t = 0\<close>; \<open>unix_nano\<close> is \<^verbatim>\<open>t.UnixNano()\<close>, which wraps.
\<close>

definition wrap64 :: "int \<Rightarrow> int" where
  "wrap64 i = (i + 2 ^ 63) mod 2 ^ 64 - 2 ^ 63"

definition max_int :: int where
  "max_int = 2 ^ 63 - 1"

definition min_int :: int where
  "min_int = - (2 ^ 63)"

definition in_int64 :: "int \<Rightarrow> bool" where
  "in_int64 i \<longleftrightarrow> min_int \<le> i \<and> i \<le> max_int"

definition int_inc :: "int \<Rightarrow> int" where
  "int_inc i = wrap64 (i + 1)"

lemma wrap64_id: "in_int64 i \<Longrightarrow> wrap64 i = i"
  by (simp add: wrap64_def in_int64_def min_int_def max_int_def)

lemma wrap64_range: "in_int64 (wrap64 i)"
proof -
  have "0 \<le> (i + 2 ^ 63) mod 2 ^ 64 \<and> (i + 2 ^ 63) mod 2 ^ 64 < (2 ^ 64 :: int)"
    by simp
  then show ?thesis
    by (simp add: wrap64_def in_int64_def min_int_def max_int_def)
qed

lemma int_inc_no_wrap: "min_int \<le> i \<Longrightarrow> i < max_int \<Longrightarrow> int_inc i = i + 1"
  by (simp add: int_inc_def wrap64_id in_int64_def)

type_synonym go_time = int

definition unix_epoch :: int where
  "unix_epoch = 62135596800 * 10 ^ 9"

definition unix_nano :: "go_time \<Rightarrow> int" where
  "unix_nano t = wrap64 (t - unix_epoch)"

section \<open>Package strings\<close>

text \<open>
  \<^verbatim>\<open>strings.TrimSpace\<close> removes the leading and trailing white space runes of Unicode; the table
  lists their UTF-8 encodings.
\<close>

definition space_runes :: "string list" where
  "space_runes =
    [[CHR 0x09], [CHR 0x0A], [CHR 0x0B], [CHR 0x0C], [CHR 0x0D], [CHR 0x20],
     [CHR 0xC2, CHR 0x85], [CHR 0xC2, CHR 0xA0], [CHR 0xE1, CHR 0x9A, CHR 0x80],
     [CHR 0xE2, CHR 0x80, CHR 0x80], [CHR 0xE2, CHR 0x80, CHR 0x81],
     [CHR 0xE2, CHR 0x80, CHR 0x82], [CHR 0xE2, CHR 0x80, CHR 0x83],
     [CHR 0xE2, CHR 0x80, CHR 0x84], [CHR 0xE2, CHR 0x80, CHR 0x85],
     [CHR 0xE2, CHR 0x80, CHR 0x86], [CHR 0xE2, CHR 0x80, CHR 0x87],
     [CHR 0xE2, CHR 0x80, CHR 0x88], [CHR 0xE2, CHR 0x80, CHR 0x89],
     [CHR 0xE2, CHR 0x80, CHR 0x8A], [CHR 0xE2, CHR 0x80, CHR 0xA8],
     [CHR 0xE2, CHR 0x80, CHR 0xA9], [CHR 0xE2, CHR 0x80, CHR 0xAF],
     [CHR 0xE2, CHR 0x81, CHR 0x9F], [CHR 0xE3, CHR 0x80, CHR 0x80]]"

function trim_runes :: "string list \<Rightarrow> string \<Rightarrow> string" where
  "trim_runes rs s =
     (case find (\<lambda>r. r \<noteq> [] \<and> prefix r s) rs of
        None \<Rightarrow> s
      | Some r \<Rightarrow> trim_runes rs (drop (length r) s))"
  by pat_completeness auto
termination
proof (relation "measure (\<lambda>(rs, s). length s)")
  fix rs :: "string list" and s r :: string
  assume "find (\<lambda>r. r \<noteq> [] \<and> prefix r s) rs = Some r"
  then have "r \<noteq> [] \<and> prefix r s"
    by (auto simp: find_Some_iff)
  then have "0 < length r" and "length r \<le> length s"
    by (auto dest: prefix_length_le)
  then have "length s - length r < length s" by linarith
  then show "((rs, drop (length r) s), (rs, s)) \<in> measure (\<lambda>(rs, s). length s)"
    by simp
qed simp

declare trim_runes.simps [simp del]

definition TrimSpace :: "string \<Rightarrow> string" where
  "TrimSpace s = rev (trim_runes (map rev space_runes) (rev (trim_runes space_runes s)))"

text \<open>A string with no rune of the table at its front is left alone.\<close>

definition no_rune_front :: "string list \<Rightarrow> string \<Rightarrow> bool" where
  "no_rune_front rs s \<longleftrightarrow> (\<forall>r \<in> set rs. r \<noteq> [] \<longrightarrow> \<not> prefix r s)"

lemma trim_runes_fixed: "no_rune_front rs s \<Longrightarrow> trim_runes rs s = s"
proof -
  assume "no_rune_front rs s"
  then have "find (\<lambda>r. r \<noteq> [] \<and> prefix r s) rs = None"
    by (auto simp: no_rune_front_def find_None_iff)
  then show ?thesis by (subst trim_runes.simps) simp
qed

lemma trim_runes_front: "no_rune_front rs (trim_runes rs s)"
proof (induction rs s rule: trim_runes.induct)
  case (1 rs s)
  show ?case
  proof (cases "find (\<lambda>r. r \<noteq> [] \<and> prefix r s) rs")
    case None
    then have "trim_runes rs s = s" by (subst trim_runes.simps) simp
    with None show ?thesis by (auto simp: no_rune_front_def find_None_iff)
  next
    case (Some r)
    with 1 show ?thesis by (subst trim_runes.simps) simp
  qed
qed

lemma trim_runes_suffix: "suffix (trim_runes rs s) s"
proof (induction rs s rule: trim_runes.induct)
  case (1 rs s)
  show ?case
  proof (cases "find (\<lambda>r. r \<noteq> [] \<and> prefix r s) rs")
    case None
    then show ?thesis by (subst trim_runes.simps) simp
  next
    case (Some r)
    with 1 have "suffix (trim_runes rs (drop (length r) s)) (drop (length r) s)" by simp
    then have "suffix (trim_runes rs (drop (length r) s)) s"
      using suffix_drop suffix_order.trans by blast
    with Some show ?thesis by (subst trim_runes.simps) simp
  qed
qed

lemma no_rune_front_prefix: "no_rune_front rs s \<Longrightarrow> prefix p s \<Longrightarrow> no_rune_front rs p"
  unfolding no_rune_front_def using prefix_order.trans by blast

text \<open>Trimming twice is trimming once: what is left has no white space at either end.\<close>

lemma TrimSpace_idem [simp]: "TrimSpace (TrimSpace s) = TrimSpace s"
proof -
  let ?l = "trim_runes space_runes s" and ?r = "map rev space_runes"
  have "prefix (TrimSpace s) ?l"
    using trim_runes_suffix [of ?r "rev ?l"]
    by (simp add: TrimSpace_def suffix_to_prefix)
  then have "no_rune_front space_runes (TrimSpace s)"
    using trim_runes_front no_rune_front_prefix by blast
  then have "trim_runes space_runes (TrimSpace s) = TrimSpace s"
    by (rule trim_runes_fixed)
  then have "TrimSpace (TrimSpace s) = rev (trim_runes ?r (rev (TrimSpace s)))"
    by (simp only: TrimSpace_def)
  also have "\<dots> = rev (trim_runes ?r (trim_runes ?r (rev ?l)))"
    by (simp add: TrimSpace_def)
  also have "\<dots> = TrimSpace s"
    by (simp add: trim_runes_fixed [OF trim_runes_front] TrimSpace_def)
  finally show ?thesis .
qed

lemma TrimSpace_Nil [simp]: "TrimSpace [] = []"
  by (simp add: TrimSpace_def trim_runes_fixed no_rune_front_def space_runes_def)

text \<open>A string with a character that occurs in no white space rune is not blank.\<close>

lemma trim_runes_keeps: "c \<in> set s \<Longrightarrow> \<forall>r \<in> set rs. c \<notin> set r \<Longrightarrow> c \<in> set (trim_runes rs s)"
proof (induction rs s rule: trim_runes.induct)
  case (1 rs s)
  show ?case
  proof (cases "find (\<lambda>r. r \<noteq> [] \<and> prefix r s) rs")
    case None
    with 1(2) show ?thesis by (subst trim_runes.simps) simp
  next
    case (Some r)
    then obtain t where s: "s = r @ t" and r: "r \<in> set rs"
      by (metis (mono_tags, lifting) find_Some_iff nth_mem prefix_def)
    with 1(2,3) have "c \<in> set (drop (length r) s)" by auto
    with 1(1) [OF Some] 1(3) Some show ?thesis by (subst trim_runes.simps) simp
  qed
qed

lemma not_blank: "c \<in> set s \<Longrightarrow> \<forall>r \<in> set space_runes. c \<notin> set r \<Longrightarrow> TrimSpace s \<noteq> []"
  using trim_runes_keeps [of c "rev (trim_runes space_runes s)" "map rev space_runes"] trim_runes_keeps [of c s space_runes]
  by (auto simp: TrimSpace_def)

text \<open>
  \<^verbatim>\<open>strings.ToLower\<close>.  Besides the letters A to Z two runes have an ASCII lower case letter, U+0130
  (i) and U+212A (k).  The sources compare the result with ASCII words only, so the other letters
  beyond ASCII, which never become ASCII, stay as they are.
\<close>

definition lower_char :: "char \<Rightarrow> char" where
  "lower_char c =
     (if 65 \<le> (of_char c :: nat) \<and> (of_char c :: nat) \<le> 90 then char_of ((of_char c :: nat) + 32) else c)"

fun ToLower :: "string \<Rightarrow> string" where
  "ToLower [] = []"
| "ToLower (c # cs) =
     (if take 2 (c # cs) = [CHR 0xC4, CHR 0xB0] then CHR ''i'' # ToLower (drop 1 cs)
      else if take 3 (c # cs) = [CHR 0xE2, CHR 0x84, CHR 0xAA] then CHR ''k'' # ToLower (drop 2 cs)
      else lower_char c # ToLower cs)"

text \<open>
  \<^verbatim>\<open>strings.EqualFold\<close> with an ASCII lower case word: simple folding also maps U+017F to s.
\<close>

fun fold_case :: "string \<Rightarrow> string" where
  "fold_case [] = []"
| "fold_case (c # cs) =
     (if take 2 (c # cs) = [CHR 0xC5, CHR 0xBF] then CHR ''s'' # fold_case (drop 1 cs)
      else if take 3 (c # cs) = [CHR 0xE2, CHR 0x84, CHR 0xAA] then CHR ''k'' # fold_case (drop 2 cs)
      else lower_char c # fold_case cs)"

definition EqualFold :: "string \<Rightarrow> string \<Rightarrow> bool" where
  "EqualFold s t \<longleftrightarrow> fold_case s = fold_case t"

definition Contains :: "string \<Rightarrow> string \<Rightarrow> bool" where
  "Contains s sub \<longleftrightarrow> list_ex (prefix sub) (suffixes s)"

fun Join :: "string list \<Rightarrow> string \<Rightarrow> string" where
  "Join [] sep = []"
| "Join [x] sep = x"
| "Join (x # y # ys) sep = x @ sep @ Join (y # ys) sep"

section \<open>Package path/filepath\<close>

text \<open>
  \<^verbatim>\<open>filepath.Clean\<close> and \<^verbatim>\<open>filepath.Join\<close> of two elements on the platform the service is built for: the
  elements between the slashes are kept in reverse while the path is read.
\<close>

definition slash :: char where "slash = CHR ''/''"

fun split_path :: "string \<Rightarrow> string list" where
  "split_path [] = [[]]"
| "split_path (c # cs) =
     (if c = slash then [] # split_path cs
      else case split_path cs of [] \<Rightarrow> [[c]] | x # xs \<Rightarrow> (c # x) # xs)"

definition clean_step :: "bool \<Rightarrow> string list \<Rightarrow> string \<Rightarrow> string list" where
  "clean_step rooted out e =
     (if e = [] \<or> e = ''.'' then out
      else if e = ''..'' then
        (case out of
           [] \<Rightarrow> (if rooted then [] else [e])
         | x # xs \<Rightarrow> (if x = ''..'' then e # out else xs))
      else e # out)"

definition Clean :: "string \<Rightarrow> string" where
  "Clean p =
     (let rooted = (p \<noteq> [] \<and> hd p = slash);
          out = foldl (clean_step rooted) [] (split_path p);
          body = Join (rev out) [slash]
      in if rooted then slash # body else if body = [] then ''.'' else body)"

definition JoinPath :: "string \<Rightarrow> string \<Rightarrow> string" where
  "JoinPath a b =
     (if a \<noteq> [] then Clean (a @ [slash] @ b) else if b \<noteq> [] then Clean b else [])"

section \<open>Package strconv\<close>

definition is_digit :: "char \<Rightarrow> bool" where
  "is_digit c \<longleftrightarrow> 48 \<le> (of_char c :: nat) \<and> (of_char c :: nat) \<le> 57"

definition digit_char :: "nat \<Rightarrow> char" where
  "digit_char d = char_of (48 + d)"

definition digit_val :: "char \<Rightarrow> nat" where
  "digit_val c = of_char c - 48"

fun digits_val :: "nat \<Rightarrow> string \<Rightarrow> nat option" where
  "digits_val acc [] = Some acc"
| "digits_val acc (c # cs) =
     (if is_digit c then digits_val (10 * acc + digit_val c) cs else None)"

text \<open>\<^verbatim>\<open>strconv.Atoi\<close>: an optional sign, at least one digit, a value that fits in 64 bits.\<close>

definition Atoi :: "string \<Rightarrow> int option" where
  "Atoi s =
     (let neg = (s \<noteq> [] \<and> hd s = CHR ''-'');
          body = (if s \<noteq> [] \<and> (hd s = CHR ''-'' \<or> hd s = CHR ''+'') then tl s else s)
      in if body = [] then None
         else case digits_val 0 body of
             None \<Rightarrow> None
           | Some n \<Rightarrow> (let v = (if neg then - int n else int n)
                        in if in_int64 v then Some v else None))"

fun nat_str :: "nat \<Rightarrow> string" where
  "nat_str n = (if n < 10 then [digit_char n] else nat_str (n div 10) @ [digit_char (n mod 10)])"

declare nat_str.simps [simp del]

text \<open>\<^verbatim>\<open>strconv.FormatInt(i, 10)\<close> and the verb \<^verbatim>\<open>%d\<close>.\<close>

definition FormatInt :: "int \<Rightarrow> string" where
  "FormatInt i = (if i < 0 then CHR ''-'' # nat_str (nat (- i)) else nat_str (nat i))"

definition ParseBool :: "string \<Rightarrow> bool option" where
  "ParseBool s =
     (if s \<in> {''1'', ''t'', ''T'', ''true'', ''TRUE'', ''True''} then Some True
      else if s \<in> {''0'', ''f'', ''F'', ''false'', ''FALSE'', ''False''} then Some False
      else None)"

lemma of_digit_char: "d < 10 \<Longrightarrow> of_char (digit_char d) = 48 + d"
  by (simp add: digit_char_def)

lemma digit_char_props: "d < 10 \<Longrightarrow> is_digit (digit_char d) \<and> digit_val (digit_char d) = d"
  by (simp add: is_digit_def digit_val_def of_digit_char)

lemma digits_val_append:
  "digits_val acc (xs @ ys) =
     (case digits_val acc xs of None \<Rightarrow> None | Some a \<Rightarrow> digits_val a ys)"
  by (induction xs arbitrary: acc) auto

lemma digits_val_nat_str: "digits_val 0 (nat_str n) = Some n"
proof (induction n rule: nat_str.induct)
  case (1 n)
  show ?case
  proof (cases "n < 10")
    case True
    then show ?thesis by (simp add: nat_str.simps digit_char_props)
  next
    case False
    with 1 have "digits_val 0 (nat_str (n div 10)) = Some (n div 10)" by simp
    with False show ?thesis
      by (subst nat_str.simps) (simp add: digits_val_append digit_char_props)
  qed
qed

lemma nat_str_nonempty [simp]: "nat_str n \<noteq> []"
  by (subst nat_str.simps) simp

lemma nat_str_hd_digit: "is_digit (hd (nat_str n))"
proof (induction n rule: nat_str.induct)
  case (1 n)
  show ?case
  proof (cases "n < 10")
    case True
    then have "nat_str n = [digit_char n]" by (subst nat_str.simps) simp
    with True show ?thesis by (simp add: digit_char_props)
  next
    case False
    then have "hd (nat_str n) = hd (nat_str (n div 10))"
      by (subst nat_str.simps) (simp add: hd_append)
    with False 1 show ?thesis by simp
  qed
qed

lemma nat_str_inj: "nat_str m = nat_str n \<Longrightarrow> m = n"
  by (metis digits_val_nat_str option.inject)

text \<open>Parsing what was printed gives the number back, so printing is injective.\<close>

lemma Atoi_FormatInt:
  assumes "in_int64 i"
  shows "Atoi (FormatInt i) = Some i"
proof (cases "i < 0")
  case True
  with assms show ?thesis
    by (simp add: Atoi_def FormatInt_def digits_val_nat_str Let_def)
next
  case False
  have "hd (nat_str (nat i)) \<noteq> CHR ''-'' \<and> hd (nat_str (nat i)) \<noteq> CHR ''+''"
    using nat_str_hd_digit [of "nat i"] by (auto simp: is_digit_def)
  with False assms show ?thesis
    by (simp add: Atoi_def FormatInt_def digits_val_nat_str Let_def)
qed

lemma FormatInt_inj: "in_int64 i \<Longrightarrow> in_int64 j \<Longrightarrow> FormatInt i = FormatInt j \<Longrightarrow> i = j"
  by (metis Atoi_FormatInt option.inject)

lemma Atoi_Nil [simp]: "Atoi [] = None"
  by (simp add: Atoi_def Let_def)

lemma Atoi_range: "Atoi s = Some v \<Longrightarrow> in_int64 v"
  by (auto simp: Atoi_def Let_def split: if_splits option.splits)

section \<open>Lists\<close>

lemma sum_list_update_less:
  "i < length xs \<Longrightarrow> f y < f (xs ! i) \<Longrightarrow> sum_list (map f (xs[i := y])) < sum_list (map (f :: 'a \<Rightarrow> nat) xs)"
proof (induction xs arbitrary: i)
  case (Cons x xs)
  then show ?case by (cases i) auto
qed simp

text \<open>Slicing \<^verbatim>\<open>xs[:n]\<close> behind the guard \<^verbatim>\<open>len(xs) > n\<close> of the list handlers.\<close>

definition cap_list :: "int \<Rightarrow> 'a list \<Rightarrow> 'a list" where
  "cap_list n xs = (if n < int (length xs) then take (nat n) xs else xs)"

lemma cap_list_length: "0 \<le> n \<Longrightarrow> length (cap_list n xs) = min (nat n) (length xs)"
  by (auto simp: cap_list_def min_def)

lemma cap_list_prefix: "prefix (cap_list n xs) xs"
  by (simp add: cap_list_def take_is_prefix)

end
