(* ===== verification/Models.thy ===== *)
theory Models
  imports Go_Prelude
begin

text \<open>
  The data model of internal/storage/models.go.  The status types are Go strings; each becomes a
  datatype with the named constants, the empty string (a field that was never set), and any other
  string a document may hold.  Struct fields keep their names behind a prefix for the struct.
  Time values are \<^typ>\<open>int\<close> (see \<open>Go_Prelude\<close>), a pointer to a time or to a result is an option.
\<close>

section \<open>Statuses\<close>

datatype batch_status =
    BatchStatusPending
  | BatchStatusInProgress
  | BatchStatusPaused
  | BatchStatusDone
  | BatchStatusFailed
  | BatchStatusEmpty
  | BatchStatusOther string

datatype item_status =
    ItemStatusPending
  | ItemStatusInProgress
  | ItemStatusDone
  | ItemStatusFailed
  | ItemStatusEmpty
  | ItemStatusOther string

datatype task_run_status =
    TaskRunStatusRunning
  | TaskRunStatusSucceeded
  | TaskRunStatusFailed
  | TaskRunStatusStopped
  | TaskRunStatusTimedOut
  | TaskRunStatusOther string

datatype agent_status =
    AgentStatusIdle
  | AgentStatusBusy
  | AgentStatusEmpty
  | AgentStatusOther string

text \<open>The strings behind the constants.\<close>

fun batch_status_str :: "batch_status \<Rightarrow> string" where
  "batch_status_str BatchStatusPending = ''pending''"
| "batch_status_str BatchStatusInProgress = ''in_progress''"
| "batch_status_str BatchStatusPaused = ''paused''"
| "batch_status_str BatchStatusDone = ''done''"
| "batch_status_str BatchStatusFailed = ''failed''"
| "batch_status_str BatchStatusEmpty = ''''"
| "batch_status_str (BatchStatusOther s) = s"

fun item_status_str :: "item_status \<Rightarrow> string" where
  "item_status_str ItemStatusPending = ''pending''"
| "item_status_str ItemStatusInProgress = ''in_progress''"
| "item_status_str ItemStatusDone = ''done''"
| "item_status_str ItemStatusFailed = ''failed''"
| "item_status_str ItemStatusEmpty = ''''"
| "item_status_str (ItemStatusOther s) = s"

fun task_run_status_str :: "task_run_status \<Rightarrow> string" where
  "task_run_status_str TaskRunStatusRunning = ''running''"
| "task_run_status_str TaskRunStatusSucceeded = ''succeeded''"
| "task_run_status_str TaskRunStatusFailed = ''failed''"
| "task_run_status_str TaskRunStatusStopped = ''stopped''"
| "task_run_status_str TaskRunStatusTimedOut = ''timed_out''"
| "task_run_status_str (TaskRunStatusOther s) = s"

fun agent_status_str :: "agent_status \<Rightarrow> string" where
  "agent_status_str AgentStatusIdle = ''idle''"
| "agent_status_str AgentStatusBusy = ''busy''"
| "agent_status_str AgentStatusEmpty = ''''"
| "agent_status_str (AgentStatusOther s) = s"

text \<open>The status a stored string stands for.\<close>

definition task_run_status_of :: "string \<Rightarrow> task_run_status" where
  "task_run_status_of s =
     (if s = ''running'' then TaskRunStatusRunning
      else if s = ''succeeded'' then TaskRunStatusSucceeded
      else if s = ''failed'' then TaskRunStatusFailed
      else if s = ''stopped'' then TaskRunStatusStopped
      else if s = ''timed_out'' then TaskRunStatusTimedOut
      else TaskRunStatusOther s)"

lemma task_run_status_str_of [simp]: "task_run_status_str (task_run_status_of s) = s"
  by (simp add: task_run_status_of_def)

section \<open>Documents\<close>

record repository =
  repo_ID :: string
  repo_Name :: string
  repo_Path :: string
  repo_CreatedAt :: go_time
  repo_UpdatedAt :: go_time

record batch_item =
  item_Input :: string
  item_Status :: item_status
  item_Attempts :: int

record batch =
  batch_ID :: string
  batch_RepositoryID :: string
  batch_CreatedAt :: go_time
  batch_UpdatedAt :: go_time
  batch_Items :: "batch_item list"
  batch_Status :: batch_status
  batch_Summary :: string
  batch_SessionName :: string

record run_result =
  res_CommitHash :: string
  res_FinalMessage :: string

record task_run =
  run_ID :: string
  run_BatchID :: string
  run_RepositoryID :: string
  run_TaskRef :: string
  run_SessionID :: string
  run_StartedAt :: go_time
  run_FinishedAt :: "go_time option"
  run_Status :: task_run_status
  run_Result :: "run_result option"

text \<open>\<^verbatim>\<open>TaskRunSummary\<close> embeds the run and adds the number of its events.\<close>

type_synonym task_run_summary = "task_run \<times> int"

record agent =
  agent_ID :: string
  agent_Name :: string
  agent_Runtime :: string
  agent_Status :: agent_status
  agent_CreatedAt :: go_time
  agent_UpdatedAt :: go_time

text \<open>
  A raw event is a JSON object (\<^verbatim>\<open>map[string]any\<close>): its keys and values as an association list,
  looked up with \<^const>\<open>map_of\<close>.  The constructors are the dynamic types of an \<^verbatim>\<open>any\<close>: a nested object
  is a \<^verbatim>\<open>map[string]any\<close> (\<open>JObject\<close>) as \<^verbatim>\<open>encoding/json\<close> builds it, and of the named type \<^verbatim>\<open>RawEvent\<close>
  (\<open>JRawEvent\<close>) as the Mongo driver builds it, which decodes a nested document into the type of the
  enclosing map.
\<close>

datatype json =
    JNull
  | JBool bool
  | JNumber string
  | JString string
  | JArray "json list"
  | JObject "(string \<times> json) list"
  | JRawEvent "(string \<times> json) list"

type_synonym raw_event = "(string \<times> json) list"

record session_event =
  ev_BatchID :: string
  ev_RunID :: string
  ev_SessionID :: string
  ev_Event :: raw_event
  ev_IngestedAt :: go_time

record batch_progress =
  pr_Total :: int
  pr_Pending :: int
  pr_Running :: int
  pr_Succeeded :: int
  pr_Failed :: int
  pr_Stopped :: int

text \<open>The unit the scheduler hands to the worker (\<^verbatim>\<open>WorkItem\<close> of internal/consumer/worker.go).\<close>

record work_item =
  wi_BatchID :: string
  wi_TaskRef :: string
  wi_AgentID :: string
  wi_Runtime :: string

section \<open>What the components keep true of a batch\<close>

text \<open>
  What the scheduler and the handlers decide by: a batch without the timestamps, which the store
  sets, and without the two optional labels, which an update that leaves them empty does not
  clear; an agent without its timestamps.
\<close>

definition batch_core :: "batch \<Rightarrow> batch" where
  "batch_core b =
     b\<lparr>batch_CreatedAt := 0, batch_UpdatedAt := 0, batch_Summary := [], batch_SessionName := []\<rparr>"

definition agent_core :: "agent \<Rightarrow> agent" where
  "agent_core a = a\<lparr>agent_CreatedAt := 0, agent_UpdatedAt := 0\<rparr>"

text \<open>An item the stores keep as it is: a status that was set, and no negative attempts.\<close>

definition item_set :: "batch_item \<Rightarrow> bool" where
  "item_set it \<longleftrightarrow> item_Status it \<noteq> ItemStatusEmpty \<and> 0 \<le> item_Attempts it"

definition items_set :: "batch_item list \<Rightarrow> bool" where
  "items_set its \<longleftrightarrow> list_all item_set its"

text \<open>The positions of the items that are being executed; at most one in a sequential batch.\<close>

definition in_progress_count :: "batch_item list \<Rightarrow> nat" where
  "in_progress_count its = length (filter (\<lambda>it. item_Status it = ItemStatusInProgress) its)"

text \<open>
  The retry discipline for a cap on the attempts: attempts never pass the cap, a pending item has
  attempts left, and only a failed item has used them up.
\<close>

definition item_ok :: "int \<Rightarrow> batch_item \<Rightarrow> bool" where
  "item_ok mr it \<longleftrightarrow>
     0 \<le> item_Attempts it \<and> item_Attempts it \<le> mr \<and>
     item_Status it \<in> {ItemStatusPending, ItemStatusInProgress, ItemStatusDone, ItemStatusFailed} \<and>
     (item_Status it \<in> {ItemStatusPending, ItemStatusInProgress} \<longrightarrow> item_Attempts it < mr)"

definition batch_ok :: "int \<Rightarrow> batch \<Rightarrow> bool" where
  "batch_ok mr b \<longleftrightarrow>
     list_all (item_ok mr) (batch_Items b) \<and>
     in_progress_count (batch_Items b) \<le> 1 \<and>
     (batch_Status b = BatchStatusDone \<longrightarrow>
        list_all (\<lambda>it. item_Status it = ItemStatusDone) (batch_Items b))"

lemma batch_core_simps [simp]:
  "batch_ID (batch_core b) = batch_ID b"
  "batch_RepositoryID (batch_core b) = batch_RepositoryID b"
  "batch_Items (batch_core b) = batch_Items b"
  "batch_Status (batch_core b) = batch_Status b"
  by (simp_all add: batch_core_def)

lemma batch_core_time [simp]:
  "batch_core (b\<lparr>batch_UpdatedAt := t\<rparr>) = batch_core b"
  "batch_core (b\<lparr>batch_CreatedAt := t\<rparr>) = batch_core b"
  "batch_core (b\<lparr>batch_Summary := x\<rparr>) = batch_core b"
  "batch_core (b\<lparr>batch_SessionName := x\<rparr>) = batch_core b"
  "batch_core (batch_core b) = batch_core b"
  by (simp_all add: batch_core_def)

lemma batch_core_update:
  "batch_core (b\<lparr>batch_Items := its\<rparr>) = (batch_core b)\<lparr>batch_Items := its\<rparr>"
  "batch_core (b\<lparr>batch_Status := s\<rparr>) = (batch_core b)\<lparr>batch_Status := s\<rparr>"
  by (simp_all add: batch_core_def)

lemma batch_core_eqD:
  assumes "batch_core b = batch_core b'"
  shows "batch_ID b = batch_ID b'" and "batch_Items b = batch_Items b'"
    and "batch_Status b = batch_Status b'" and "batch_RepositoryID b = batch_RepositoryID b'"
  by (metis assms batch_core_simps)+

lemma agent_core_simps [simp]:
  "agent_ID (agent_core a) = agent_ID a"
  "agent_Name (agent_core a) = agent_Name a"
  "agent_Runtime (agent_core a) = agent_Runtime a"
  "agent_Status (agent_core a) = agent_Status a"
  "agent_core (agent_core a) = agent_core a"
  "agent_core (a\<lparr>agent_UpdatedAt := t\<rparr>) = agent_core a"
  by (simp_all add: agent_core_def)

lemma agent_core_update:
  "agent_core (a\<lparr>agent_Status := s\<rparr>) = (agent_core a)\<lparr>agent_Status := s\<rparr>"
  by (simp add: agent_core_def)

lemma agent_core_eqD:
  assumes "agent_core a = agent_core a'"
  shows "agent_ID a = agent_ID a'" and "agent_Status a = agent_Status a'"
    and "agent_Runtime a = agent_Runtime a'"
  by (metis assms agent_core_simps)+

lemma batch_ok_core [simp]: "batch_ok mr (batch_core b) = batch_ok mr b"
  by (simp add: batch_ok_def)

lemma item_ok_set: "item_ok mr it \<Longrightarrow> item_set it"
  by (auto simp: item_ok_def item_set_def)

lemma items_set_if_ok: "list_all (item_ok mr) its \<Longrightarrow> items_set its"
  by (auto simp: items_set_def list_all_iff intro: item_ok_set)

lemma in_progress_count_Cons [simp]:
  "in_progress_count (it # its) =
     (if item_Status it = ItemStatusInProgress then 1 else 0) + in_progress_count its"
  by (simp add: in_progress_count_def)

lemma in_progress_count_Nil [simp]: "in_progress_count [] = 0"
  by (simp add: in_progress_count_def)

text \<open>Overwriting one item changes the count by what the old and the new item contribute.\<close>

lemma in_progress_count_update:
  assumes "i < length its"
  shows "in_progress_count (its[i := it]) + (if item_Status (its ! i) = ItemStatusInProgress then 1 else 0)
     = in_progress_count its + (if item_Status it = ItemStatusInProgress then 1 else 0)"
  using assms
proof (induction its arbitrary: i)
  case Nil
  then show ?case by simp
next
  case (Cons x xs)
  then show ?case by (cases i) (auto split: if_splits)
qed

lemma list_all_list_update:
  "list_all P xs \<Longrightarrow> P x \<Longrightarrow> list_all P (xs[i := x])"
  by (induction xs arbitrary: i) (auto split: nat.splits)

section \<open>Sample documents\<close>

text \<open>A batch with two items, an agent and a repository, for the concrete instances of the theorems.\<close>

definition demo_items :: "batch_item list" where
  "demo_items =
     [\<lparr>item_Input = ''yr-1'', item_Status = ItemStatusPending, item_Attempts = 0\<rparr>,
      \<lparr>item_Input = ''yr-2'', item_Status = ItemStatusPending, item_Attempts = 0\<rparr>]"

definition demo_batch :: batch where
  "demo_batch =
     \<lparr>batch_ID = ''batch-1'', batch_RepositoryID = ''repo-1'', batch_CreatedAt = 0, batch_UpdatedAt = 0,
      batch_Items = demo_items, batch_Status = BatchStatusPending, batch_Summary = [], batch_SessionName = []\<rparr>"

definition demo_agent :: agent where
  "demo_agent =
     \<lparr>agent_ID = ''agent-1'', agent_Name = ''a'', agent_Runtime = ''codex'', agent_Status = AgentStatusIdle,
      agent_CreatedAt = 0, agent_UpdatedAt = 0\<rparr>"

definition demo_repository :: repository where
  "demo_repository =
     \<lparr>repo_ID = ''repo-1'', repo_Name = ''r'', repo_Path = ''/r'', repo_CreatedAt = 0, repo_UpdatedAt = 0\<rparr>"

end
