(* ===== verification/Store_Interface.thy ===== *)
theory Store_Interface
  imports Models
begin

text \<open>
  The persistence contract of internal/storage/interfaces.go as a record of operations on a world
  \<open>'w\<close>.  A method that takes a pointer may change what it points to (the stores set timestamps and
  normalise items), so it returns the document beside the error.  The locales state what the
  scheduler and the HTTP handlers rely on; \<open>Mongo_Refinement\<close> shows that the Mongo client provides it.
\<close>

type_synonym ('w, 'a) writer = "ctx \<Rightarrow> 'a \<Rightarrow> ('w, go_error option \<times> 'a) act"

type_synonym ('w, 'a) reader = "('w, go_error + 'a) act"

record 'w storage =
  CreateRepository :: "('w, repository) writer"
  UpdateRepository :: "('w, repository) writer"
  GetRepository :: "ctx \<Rightarrow> string \<Rightarrow> ('w, repository) reader"
  ListRepositories :: "ctx \<Rightarrow> ('w, repository list) reader"
  DeleteRepository :: "ctx \<Rightarrow> string \<Rightarrow> ('w, go_error option) act"
  RepositoryHasActiveBatches :: "ctx \<Rightarrow> string \<Rightarrow> ('w, bool) reader"
  CreateAgent :: "('w, agent) writer"
  UpdateAgent :: "('w, agent) writer"
  GetAgent :: "ctx \<Rightarrow> string \<Rightarrow> ('w, agent) reader"
  ListAgents :: "ctx \<Rightarrow> ('w, agent list) reader"
  DeleteAgent :: "ctx \<Rightarrow> string \<Rightarrow> ('w, go_error option) act"
  CreateBatch :: "('w, batch) writer"
  UpdateBatch :: "('w, batch) writer"
  GetBatch :: "ctx \<Rightarrow> string \<Rightarrow> ('w, batch) reader"
  ListBatches :: "ctx \<Rightarrow> int \<Rightarrow> ('w, batch list) reader"
  ListBatchesByRepository :: "ctx \<Rightarrow> string \<Rightarrow> batch_status \<Rightarrow> int \<Rightarrow> ('w, batch list) reader"
  CreateTaskRun :: "('w, task_run) writer"
  UpdateTaskRun :: "('w, task_run) writer"
  GetTaskRun :: "ctx \<Rightarrow> string \<Rightarrow> ('w, task_run) reader"
  ListTaskRunsByRepository :: "ctx \<Rightarrow> string \<Rightarrow> ('w, task_run_summary list) reader"
  ListTaskRuns :: "ctx \<Rightarrow> string \<Rightarrow> ('w, task_run_summary list) reader"
  InsertSessionEvent :: "ctx \<Rightarrow> session_event \<Rightarrow> ('w, go_error option) act"
  ListSessionEvents :: "ctx \<Rightarrow> string \<Rightarrow> ('w, session_event list) reader"
  GetBatchProgress :: "ctx \<Rightarrow> string \<Rightarrow> ('w, batch_progress) reader"

section \<open>What a batch store promises\<close>

text \<open>
  \<open>batch_at\<close> is the content of the document stored under an identifier.  An update that
  succeeds replaces exactly that document; one that fails leaves it or has replaced it (a write
  may be applied before its reply is lost), and never touches another batch.  An update hands the
  document back as it was, but for the items that had no status or negative attempts.
\<close>

locale batch_store =
  fixes st :: "'w storage"
    and batch_at :: "'w \<Rightarrow> string \<Rightarrow> batch option"
  assumes update_batch_ok:
      "UpdateBatch st c b w = ((None, b'), w') \<Longrightarrow>
         batch_at w' = (batch_at w)(batch_ID b \<mapsto> batch_core b')"
    and update_batch_err:
      "UpdateBatch st c b w = ((Some e, b'), w') \<Longrightarrow>
         batch_at w' = batch_at w \<or> batch_at w' = (batch_at w)(batch_ID b \<mapsto> batch_core b')"
    and update_batch_doc:
      "UpdateBatch st c b w = ((r, b'), w') \<Longrightarrow> items_set (batch_Items b) \<Longrightarrow>
         batch_core b' = batch_core b"
    and get_batch_ok:
      "GetBatch st c i w = (Inr b, w') \<Longrightarrow> batch_at w i = Some (batch_core b) \<and> batch_ID b = i"
    and get_batch_frame: "GetBatch st c i w = (g, w') \<Longrightarrow> batch_at w' = batch_at w"
    and list_batches_frame: "ListBatches st c n w = (l, w') \<Longrightarrow> batch_at w' = batch_at w"

text \<open>
  The scheduler also reads and writes agents, in the same world: neither kind of call touches the
  other kind of document.
\<close>

locale sched_store = batch_store +
  fixes agent_at :: "'a \<Rightarrow> string \<Rightarrow> agent option"
  assumes update_agent_ok:
      "UpdateAgent st c a w = ((None, a'), w') \<Longrightarrow>
         agent_at w' = (agent_at w)(agent_ID a \<mapsto> agent_core a')"
    and update_agent_err:
      "UpdateAgent st c a w = ((Some e, a'), w') \<Longrightarrow>
         agent_at w' = agent_at w \<or> agent_at w' = (agent_at w)(agent_ID a \<mapsto> agent_core a')"
    and update_agent_doc:
      "UpdateAgent st c a w = ((r, a'), w') \<Longrightarrow> agent_core a' = agent_core a"
    and update_agent_batches: "UpdateAgent st c a w = ((r, a'), w') \<Longrightarrow> batch_at w' = batch_at w"
    and list_agents_frame:
      "ListAgents st c w = (l, w') \<Longrightarrow> agent_at w' = agent_at w \<and> batch_at w' = batch_at w"
    and update_batch_agents: "UpdateBatch st c b w = ((r, b'), w') \<Longrightarrow> agent_at w' = agent_at w"
    and list_batches_agents: "ListBatches st c n w = (m, w') \<Longrightarrow> agent_at w' = agent_at w"

context batch_store begin

text \<open>Every batch that an update does not name keeps its document, whatever the outcome.\<close>

lemma update_batch_frame:
  assumes "UpdateBatch st c b w = ((r, b'), w')" and "i \<noteq> batch_ID b"
  shows "batch_at w' i = batch_at w i"
proof (cases r)
  case None
  with assms show ?thesis by (auto dest: update_batch_ok)
next
  case (Some e)
  with assms update_batch_err [of c b w e b' w'] show ?thesis by auto
qed

lemma update_batch_stores:
  assumes "UpdateBatch st c b w = ((None, b'), w')" and "items_set (batch_Items b)"
  shows "batch_at w' = (batch_at w)(batch_ID b \<mapsto> batch_core b)"
  using assms update_batch_ok update_batch_doc by metis

text \<open>A batch read back after an update is the batch that was written.\<close>

lemma get_after_update:
  assumes "UpdateBatch st c b w = ((None, b'), w')" and "items_set (batch_Items b)"
    and "GetBatch st c' (batch_ID b) w' = (Inr b2, w2)"
  shows "batch_core b2 = batch_core b"
proof -
  have "batch_at w' (batch_ID b) = Some (batch_core b)"
    using update_batch_stores [OF assms(1,2)] by simp
  moreover have "batch_at w' (batch_ID b) = Some (batch_core b2)"
    using get_batch_ok [OF assms(3)] by simp
  ultimately show ?thesis by simp
qed

end

end
