(* ===== verification/Scheduler.thy ===== *)
theory Scheduler
  imports Store_Interface
begin

text \<open>
  The scheduler of internal/scheduler/scheduler.go.  Its atomics are the record \<open>scheduler\<close>; the
  rest of the world, with the documents, is \<open>'w\<close>.  \<open>Tick\<close> is composed as the code composes it:
  list, pick the first eligible batch, claim it and an idle agent, run the worker, write the
  outcome.  The worker is an argument: whatever happens between the claim and the completion,
  requests served meanwhile included, is what it does to the world.
\<close>

section \<open>State\<close>

record scheduler =
  sc_draining :: bool
  sc_activeWG :: int
  sc_activeRuns :: int
  sc_maxRetries :: int
  sc_interval :: int

record scheduler_options =
  opt_Interval :: int
  opt_Draining :: bool
  opt_MaxRetries :: int

record 'w sched_world =
  sw_sched :: scheduler
  sw_rest :: 'w

type_synonym 'w work_fn = "ctx \<Rightarrow> work_item \<Rightarrow> ('w sched_world, go_error option) act"

text \<open>The store and the worker may be nil; \<open>dep_ctx_err\<close> is \<^verbatim>\<open>ctx.Err()\<close> as the world stands.\<close>

record 'w sched_deps =
  dep_store :: "'w storage option"
  dep_worker :: "'w work_fn option"
  dep_ctx_err :: "ctx \<Rightarrow> 'w \<Rightarrow> go_error option"

definition defaultMaxRetries :: int where
  "defaultMaxRetries = 5"

definition defaultInterval :: int where
  "defaultInterval = 10 * 10 ^ 9"

definition scheduler_New :: "scheduler_options \<Rightarrow> scheduler" where
  "scheduler_New opts =
     \<lparr>sc_draining = opt_Draining opts, sc_activeWG = 0, sc_activeRuns = 0,
      sc_maxRetries = (if opt_MaxRetries opts \<le> 0 then defaultMaxRetries else opt_MaxRetries opts),
      sc_interval = (if opt_Interval opts \<le> 0 then defaultInterval else opt_Interval opts)\<rparr>"

definition SetDraining :: "bool \<Rightarrow> scheduler \<Rightarrow> scheduler" where
  "SetDraining d s = s\<lparr>sc_draining := d\<rparr>"

definition Draining :: "scheduler option \<Rightarrow> bool" where
  "Draining s = (case s of None \<Rightarrow> False | Some s' \<Rightarrow> sc_draining s')"

definition ActiveCount :: "scheduler option \<Rightarrow> int" where
  "ActiveCount s = (case s of None \<Rightarrow> 0 | Some s' \<Rightarrow> sc_activeRuns s')"

definition scheduler_Stop :: "scheduler \<Rightarrow> go_error option \<times> scheduler" where
  "scheduler_Stop s = (None, SetDraining True s)"

text \<open>
  \<^verbatim>\<open>WaitForIdle\<close> returns when the wait group is at zero or the context is done; when both hold
  the select may take either branch.
\<close>

inductive WaitForIdle :: "scheduler \<Rightarrow> go_error option \<Rightarrow> go_error option \<Rightarrow> bool" where
  wait_idle: "sc_activeWG s = 0 \<Longrightarrow> WaitForIdle s ce None"
| wait_ctx: "WaitForIdle s (Some e) (Some e)"

inductive_simps WaitForIdle_simps: "WaitForIdle s ce r"

section \<open>Selection\<close>

fun firstIdleAgent :: "agent list \<Rightarrow> agent option" where
  "firstIdleAgent [] = None"
| "firstIdleAgent (a # as) = (if agent_Status a = AgentStatusIdle then Some a else firstIdleAgent as)"

text \<open>The loop of \<^verbatim>\<open>nextPendingIndex\<close>, from position \<open>i\<close> on.\<close>

fun next_pending_from :: "nat \<Rightarrow> int \<times> bool \<Rightarrow> batch_item list \<Rightarrow> int \<times> bool" where
  "next_pending_from i acc [] = acc"
| "next_pending_from i (p, ip) (it # its) =
     next_pending_from (Suc i)
       (case item_Status it of
          ItemStatusInProgress \<Rightarrow> (p, True)
        | ItemStatusPending \<Rightarrow> (if p = - 1 then int i else p, ip)
        | _ \<Rightarrow> (p, ip)) its"

definition nextPendingIndex :: "batch_item list \<Rightarrow> int \<times> bool" where
  "nextPendingIndex its = next_pending_from 0 (- 1, False) its"

definition allItemsDone :: "batch_item list \<Rightarrow> bool" where
  "allItemsDone its \<longleftrightarrow> list_all (\<lambda>it. item_Status it = ItemStatusDone) its"

text \<open>The guards at the head of the loop: the item to run, or none when the batch is skipped.\<close>

definition eligible :: "batch \<Rightarrow> nat option" where
  "eligible b =
     (if batch_Status b \<in> {BatchStatusPaused, BatchStatusFailed, BatchStatusDone} then None
      else let (p, ip) = nextPendingIndex (batch_Items b)
           in if ip then None else if p = - 1 then None else Some (nat p))"

fun first_eligible :: "batch list \<Rightarrow> (batch \<times> nat) option" where
  "first_eligible [] = None"
| "first_eligible (b # bs) = (case eligible b of Some i \<Rightarrow> Some (b, i) | None \<Rightarrow> first_eligible bs)"

section \<open>Claim, run, finish\<close>

definition set_item_status :: "nat \<Rightarrow> item_status \<Rightarrow> batch \<Rightarrow> batch" where
  "set_item_status i s b =
     b\<lparr>batch_Items := (batch_Items b)[i := (batch_Items b ! i)\<lparr>item_Status := s\<rparr>]\<rparr>"

definition claim_item :: "nat \<Rightarrow> batch \<Rightarrow> batch" where
  "claim_item i b = set_item_status i ItemStatusInProgress (b\<lparr>batch_Status := BatchStatusInProgress\<rparr>)"

definition release_item :: "nat \<Rightarrow> batch \<Rightarrow> batch" where
  "release_item i b = (set_item_status i ItemStatusPending b)\<lparr>batch_Status := BatchStatusPending\<rparr>"

text \<open>The outcome of one attempt, given the worker's error.\<close>

definition complete_item :: "int \<Rightarrow> go_error option \<Rightarrow> nat \<Rightarrow> batch \<Rightarrow> batch" where
  "complete_item mr werr i b =
     (let n = int_inc (item_Attempts (batch_Items b ! i));
          b1 = b\<lparr>batch_Items := (batch_Items b)[i := (batch_Items b ! i)\<lparr>item_Attempts := n\<rparr>]\<rparr>
      in case werr of
           None \<Rightarrow>
             (let b2 = set_item_status i ItemStatusDone b1
              in if allItemsDone (batch_Items b2) then b2\<lparr>batch_Status := BatchStatusDone\<rparr>
                 else b2\<lparr>batch_Status := BatchStatusPending\<rparr>)
         | Some e \<Rightarrow>
             (if mr \<le> n then (set_item_status i ItemStatusFailed b1)\<lparr>batch_Status := BatchStatusFailed\<rparr>
              else (set_item_status i ItemStatusPending b1)\<lparr>batch_Status := BatchStatusPending\<rparr>))"

definition claim_stage ::
    "'w storage \<Rightarrow> ctx \<Rightarrow> agent \<Rightarrow> batch \<Rightarrow> nat \<Rightarrow> ('w, go_error + batch \<times> agent) act" where
  "claim_stage st c ag b i s =
     (case UpdateBatch st c (claim_item i b) s of
        ((Some e, b1), s1) \<Rightarrow> (Inl (Wrapf (''update batch '' @ batch_ID b1) e), s1)
      | ((None, b1), s1) \<Rightarrow>
          (case UpdateAgent st c (ag\<lparr>agent_Status := AgentStatusBusy\<rparr>) s1 of
             ((Some e, a1), s2) \<Rightarrow>
               (let (_, s3) = UpdateBatch st c (release_item i b1) s2
                in (Inl (Wrapf (''update agent '' @ agent_ID ag) e), s3))
           | ((None, a1), s2) \<Rightarrow> (Inr (b1, a1), s2)))"

definition work_of :: "batch \<Rightarrow> agent \<Rightarrow> nat \<Rightarrow> work_item" where
  "work_of b a i =
     \<lparr>wi_BatchID = batch_ID b, wi_TaskRef = item_Input (batch_Items b ! i),
      wi_AgentID = agent_ID a, wi_Runtime = agent_Runtime a\<rparr>"

definition finish_stage ::
    "'w storage \<Rightarrow> (ctx \<Rightarrow> 'w \<Rightarrow> go_error option) \<Rightarrow> int \<Rightarrow> ctx \<Rightarrow> agent \<Rightarrow> batch \<Rightarrow> nat \<Rightarrow>
       go_error option \<Rightarrow> ('w, go_error option) act" where
  "finish_stage st ctx_err mr c a b i werr s =
     (let b1 = complete_item mr werr i b;
          cc = (if ctx_err c s \<noteq> None then CtxWithoutCancel c else c);
          ((ube, b2), s1) = UpdateBatch st cc b1 s;
          a1 = a\<lparr>agent_Status := AgentStatusIdle\<rparr>;
          ((uae, a2), s2) = UpdateAgent st cc a1 s1
      in (case ube of
            Some e \<Rightarrow> Some (Wrapf (''update batch '' @ batch_ID b2 @ '' after completion'') e)
          | None \<Rightarrow>
              (case uae of
                 Some e \<Rightarrow> Some (Wrapf (''set agent '' @ agent_ID a2 @ '' idle'') e)
               | None \<Rightarrow> werr), s2))"

definition enter_run :: "'w sched_world \<Rightarrow> 'w sched_world" where
  "enter_run w =
     w\<lparr>sw_sched := (sw_sched w)\<lparr>sc_activeWG := sc_activeWG (sw_sched w) + 1,
                               sc_activeRuns := sc_activeRuns (sw_sched w) + 1\<rparr>\<rparr>"

definition leave_run :: "'w sched_world \<Rightarrow> 'w sched_world" where
  "leave_run w =
     w\<lparr>sw_sched := (sw_sched w)\<lparr>sc_activeWG := sc_activeWG (sw_sched w) - 1,
                               sc_activeRuns := sc_activeRuns (sw_sched w) - 1\<rparr>\<rparr>"

definition dispatch ::
    "'w storage \<Rightarrow> 'w work_fn \<Rightarrow> (ctx \<Rightarrow> 'w \<Rightarrow> go_error option) \<Rightarrow> ctx \<Rightarrow> agent \<Rightarrow> batch \<Rightarrow> nat \<Rightarrow>
       ('w sched_world, go_error option) act" where
  "dispatch st wk ctx_err c ag b i w =
     (case claim_stage st c ag b i (sw_rest w) of
        (Inl e, s) \<Rightarrow> (Some e, w\<lparr>sw_rest := s\<rparr>)
      | (Inr (b1, a1), s) \<Rightarrow>
          (let (werr, w2) = wk c (work_of b1 a1 i) (enter_run (w\<lparr>sw_rest := s\<rparr>));
               (res, s') = finish_stage st ctx_err (sc_maxRetries (sw_sched w)) c a1 b1 i werr (sw_rest w2)
           in (res, leave_run (w2\<lparr>sw_rest := s'\<rparr>))))"

definition Tick :: "'w sched_deps \<Rightarrow> ctx \<Rightarrow> ('w sched_world, go_error option) act" where
  "Tick d c w =
     (if sc_draining (sw_sched w) then (None, w)
      else case (dep_store d, dep_worker d) of
          (Some st, Some wk) \<Rightarrow>
            (case ListBatches st c 0 (sw_rest w) of
               (Inl e, s1) \<Rightarrow> (Some (Wrapf ''list batches'' e), w\<lparr>sw_rest := s1\<rparr>)
             | (Inr bs, s1) \<Rightarrow>
                 (case ListAgents st c s1 of
                    (Inl e, s2) \<Rightarrow> (Some (Wrapf ''list agents'' e), w\<lparr>sw_rest := s2\<rparr>)
                  | (Inr ags, s2) \<Rightarrow>
                      (case firstIdleAgent ags of
                         None \<Rightarrow> (None, w\<lparr>sw_rest := s2\<rparr>)
                       | Some ag \<Rightarrow>
                           (case first_eligible bs of
                              None \<Rightarrow> (None, w\<lparr>sw_rest := s2\<rparr>)
                            | Some (b, i) \<Rightarrow>
                                dispatch st wk (dep_ctx_err d) c ag b i (w\<lparr>sw_rest := s2\<rparr>)))))
        | _ \<Rightarrow> (Some (Errorf ''scheduler not initialized''), w))"

section \<open>Selection: what is picked\<close>

lemma next_pending_in_progress:
  "snd (next_pending_from i acc its) \<longleftrightarrow> snd acc \<or> 0 < in_progress_count its"
  by (induction i acc its rule: next_pending_from.induct) (auto split: item_status.splits)

lemma in_progress_count_pos:
  "0 < in_progress_count its \<longleftrightarrow> (\<exists>it \<in> set its. item_Status it = ItemStatusInProgress)"
  by (induction its) auto

lemma next_pending_keeps: "fst acc \<noteq> - 1 \<Longrightarrow> fst (next_pending_from i acc its) = fst acc"
  by (induction i acc its rule: next_pending_from.induct) (auto split: item_status.splits)

text \<open>The index found is that of the first pending item, and \<open>- 1\<close> means there is none.\<close>

lemma next_pending_first:
  "fst acc = - 1 \<Longrightarrow> fst (next_pending_from i acc its) =
     (case List.find (\<lambda>j. item_Status (its ! j) = ItemStatusPending) [0..<length its] of
        None \<Rightarrow> - 1 | Some j \<Rightarrow> int (i + j))"
proof (induction its arbitrary: i acc)
  case Nil
  then show ?case by (cases acc) simp
next
  case (Cons it its)
  have upt: "[0..<length (it # its)] = 0 # map Suc [0..<length its]"
    by (simp add: upt_conv_Cons map_Suc_upt del: upt_Suc)
  have shift: "List.find (\<lambda>j. item_Status ((it # its) ! j) = ItemStatusPending) (map Suc js) =
      map_option Suc (List.find (\<lambda>j. item_Status (its ! j) = ItemStatusPending) js)" for js
    by (induction js) auto
  obtain p ip where acc: "acc = (p, ip)" and p: "p = - 1"
    using Cons.prems by (cases acc) auto
  show ?case
  proof (cases "item_Status it = ItemStatusPending")
    case True
    then show ?thesis using acc p upt by (simp add: next_pending_keeps)
  next
    case False
    then have "fst (next_pending_from i acc (it # its)) = fst (next_pending_from (Suc i) (- 1, snd acc \<or> item_Status it = ItemStatusInProgress) its)"
      using acc p by (cases "item_Status it") auto
    with False upt shift [of "[0..<length its]"] Cons.IH show ?thesis
      by (auto split: option.splits)
  qed
qed

lemma nextPendingIndex_iff:
  "nextPendingIndex its =
     (case List.find (\<lambda>j. item_Status (its ! j) = ItemStatusPending) [0..<length its] of
        None \<Rightarrow> - 1 | Some j \<Rightarrow> int j, 0 < in_progress_count its)"
  using next_pending_in_progress [of 0 "(- 1, False)" its] next_pending_first [of "(- 1, False)" 0 its]
  by (simp add: nextPendingIndex_def prod_eq_iff split: option.splits)

text \<open>A batch is run exactly when it is in a running state, idle, and has an item waiting.\<close>

lemma eligible_iff:
  "eligible b = Some i \<longleftrightarrow>
     batch_Status b \<notin> {BatchStatusPaused, BatchStatusFailed, BatchStatusDone} \<and>
     in_progress_count (batch_Items b) = 0 \<and>
     i < length (batch_Items b) \<and> item_Status (batch_Items b ! i) = ItemStatusPending \<and>
     (\<forall>j < i. item_Status (batch_Items b ! j) \<noteq> ItemStatusPending)"
proof -
  let ?P = "\<lambda>j. item_Status (batch_Items b ! j) = ItemStatusPending"
    and ?n = "length (batch_Items b)"
  have "List.find ?P [0..<?n] = Some i \<longleftrightarrow> i < ?n \<and> ?P i \<and> (\<forall>j < i. \<not> ?P j)"
    by (auto simp: find_Some_iff)
  then show ?thesis
    by (auto simp: eligible_def nextPendingIndex_iff Let_def split: option.splits if_splits)
qed

lemma eligible_none_iff:
  "eligible b = None \<longleftrightarrow>
     batch_Status b \<in> {BatchStatusPaused, BatchStatusFailed, BatchStatusDone} \<or>
     0 < in_progress_count (batch_Items b) \<or>
     (\<forall>it \<in> set (batch_Items b). item_Status it \<noteq> ItemStatusPending)"
  by (auto simp: eligible_def nextPendingIndex_iff Let_def find_None_iff find_Some_iff in_set_conv_nth
      split: option.splits if_splits) (metis nth_mem)

lemma first_eligible_skips:
  "\<forall>x \<in> set xs. eligible x = None \<Longrightarrow> first_eligible (xs @ bs) = first_eligible bs"
  by (induction xs) auto

lemma first_eligible_prefix:
  "first_eligible bs = Some (b, i) \<Longrightarrow>
     \<exists>xs ys. bs = xs @ b # ys \<and> (\<forall>x \<in> set xs. eligible x = None) \<and> eligible b = Some i"
proof (induction bs)
  case Nil
  then show ?case by simp
next
  case (Cons x bs)
  show ?case
  proof (cases "eligible x")
    case None
    with Cons obtain xs ys where "bs = xs @ b # ys" "\<forall>x \<in> set xs. eligible x = None" "eligible b = Some i"
      by auto
    with None show ?thesis by (intro exI [of _ "x # xs"] exI [of _ ys]) simp
  next
    case (Some j)
    with Cons.prems show ?thesis by (intro exI [of _ "[]"] exI [of _ bs]) simp
  qed
qed

lemma first_eligible_iff:
  "first_eligible bs = Some (b, i) \<longleftrightarrow>
     (\<exists>xs ys. bs = xs @ b # ys \<and> (\<forall>x \<in> set xs. eligible x = None) \<and> eligible b = Some i)"
  using first_eligible_prefix first_eligible_skips by fastforce

lemma first_eligible_none_iff: "first_eligible bs = None \<longleftrightarrow> (\<forall>b \<in> set bs. eligible b = None)"
  by (induction bs) (auto split: option.splits)

lemma firstIdleAgent_idle:
  "firstIdleAgent as = Some a \<Longrightarrow> a \<in> set as \<and> agent_Status a = AgentStatusIdle"
  by (induction as) (auto split: if_splits)

lemma firstIdleAgent_prefix:
  "firstIdleAgent as = Some a \<Longrightarrow> \<exists>us vs. as = us @ a # vs \<and> agent_Status a = AgentStatusIdle \<and>
     (\<forall>u \<in> set us. agent_Status u \<noteq> AgentStatusIdle)"
proof (induction as)
  case Nil
  then show ?case by simp
next
  case (Cons x as)
  show ?case
  proof (cases "agent_Status x = AgentStatusIdle")
    case True
    with Cons.prems show ?thesis by (intro exI [of _ "[]"] exI [of _ as]) simp
  next
    case False
    with Cons obtain us vs where "as = us @ a # vs" "agent_Status a = AgentStatusIdle"
      "\<forall>u \<in> set us. agent_Status u \<noteq> AgentStatusIdle" by auto
    with False show ?thesis by (intro exI [of _ "x # us"] exI [of _ vs]) simp
  qed
qed

lemma firstIdleAgent_none_iff:
  "firstIdleAgent as = None \<longleftrightarrow> (\<forall>a \<in> set as. agent_Status a \<noteq> AgentStatusIdle)"
  by (induction as) auto

section \<open>What the stages do to a batch\<close>

lemma batch_stage_simps [simp]:
  "batch_ID (set_item_status i s b) = batch_ID b"
  "batch_Status (set_item_status i s b) = batch_Status b"
  "length (batch_Items (set_item_status i s b)) = length (batch_Items b)"
  "batch_ID (claim_item i b) = batch_ID b"
  "batch_Status (claim_item i b) = BatchStatusInProgress"
  "length (batch_Items (claim_item i b)) = length (batch_Items b)"
  "batch_ID (release_item i b) = batch_ID b"
  "batch_Status (release_item i b) = BatchStatusPending"
  "batch_ID (complete_item mr werr i b) = batch_ID b"
  "length (batch_Items (complete_item mr werr i b)) = length (batch_Items b)"
  by (simp_all add: set_item_status_def claim_item_def release_item_def complete_item_def Let_def
      split: option.split)

lemma claim_item_items:
  "batch_Items (claim_item i b) =
     (batch_Items b)[i := (batch_Items b ! i)\<lparr>item_Status := ItemStatusInProgress\<rparr>]"
  by (simp add: claim_item_def set_item_status_def)

lemma release_item_items:
  "batch_Items (release_item i b) =
     (batch_Items b)[i := (batch_Items b ! i)\<lparr>item_Status := ItemStatusPending\<rparr>]"
  by (simp add: release_item_def set_item_status_def)

text \<open>The one item an attempt changes, and the status the batch gets.\<close>

definition finished_item :: "int \<Rightarrow> go_error option \<Rightarrow> batch_item \<Rightarrow> batch_item" where
  "finished_item mr werr it =
     it\<lparr>item_Attempts := int_inc (item_Attempts it),
        item_Status := (if werr = None then ItemStatusDone
                        else if mr \<le> int_inc (item_Attempts it) then ItemStatusFailed
                        else ItemStatusPending)\<rparr>"

lemma complete_item_items:
  assumes "i < length (batch_Items b)"
  shows "batch_Items (complete_item mr werr i b) = (batch_Items b)[i := finished_item mr werr (batch_Items b ! i)]"
  using assms
  by (simp add: complete_item_def set_item_status_def finished_item_def Let_def split: option.split)

lemma complete_item_status:
  assumes "i < length (batch_Items b)"
  shows "batch_Status (complete_item mr werr i b) =
     (if werr = None then
        (if allItemsDone (batch_Items (complete_item mr werr i b)) then BatchStatusDone else BatchStatusPending)
      else if mr \<le> int_inc (item_Attempts (batch_Items b ! i)) then BatchStatusFailed
      else BatchStatusPending)"
  using assms
  by (simp add: complete_item_def set_item_status_def Let_def split: option.split)

lemma finished_item_simps [simp]:
  "item_Status (finished_item mr werr it) \<noteq> ItemStatusInProgress"
  "item_Attempts (finished_item mr werr it) = int_inc (item_Attempts it)"
  "item_Input (finished_item mr werr it) = item_Input it"
  by (simp_all add: finished_item_def)

lemma item_ok_inc:
  assumes "item_ok mr it" and "item_Status it \<in> {ItemStatusPending, ItemStatusInProgress}" and "in_int64 mr"
  shows "int_inc (item_Attempts it) = item_Attempts it + 1"
  using assms
  by (intro int_inc_no_wrap) (auto simp: item_ok_def in_int64_def min_int_def)

lemma finished_item_ok:
  assumes "item_ok mr it" and "item_Status it = ItemStatusInProgress" and "in_int64 mr"
  shows "item_ok mr (finished_item mr werr it)"
  using assms item_ok_inc [of mr it]
  by (auto simp: item_ok_def finished_item_def)

section \<open>The stages keep a batch well formed\<close>

lemma claim_item_ok:
  assumes "batch_ok mr b" and "eligible b = Some i"
  shows "batch_ok mr (claim_item i b)" and "in_progress_count (batch_Items (claim_item i b)) = 1"
    and "item_Status (batch_Items (claim_item i b) ! i) = ItemStatusInProgress"
proof -
  let ?it = "batch_Items b ! i"
  from assms(2) have i: "i < length (batch_Items b)" "item_Status ?it = ItemStatusPending"
    "in_progress_count (batch_Items b) = 0" by (auto simp: eligible_iff)
  from assms(1) i(1) have "item_ok mr ?it" by (auto simp: batch_ok_def list_all_length)
  with i(2) have it: "item_ok mr (?it\<lparr>item_Status := ItemStatusInProgress\<rparr>)" by (simp add: item_ok_def)
  show count: "in_progress_count (batch_Items (claim_item i b)) = 1"
    using in_progress_count_update [OF i(1), of "?it\<lparr>item_Status := ItemStatusInProgress\<rparr>"] i(2,3)
    by (simp add: claim_item_items)
  with assms(1) it show "batch_ok mr (claim_item i b)"
    by (simp add: batch_ok_def claim_item_items list_all_list_update)
  from i(1) show "item_Status (batch_Items (claim_item i b) ! i) = ItemStatusInProgress"
    by (simp add: claim_item_items)
qed

lemma complete_item_ok:
  assumes ok: "batch_ok mr b" and i: "i < length (batch_Items b)"
    and run: "item_Status (batch_Items b ! i) = ItemStatusInProgress" and mr: "in_int64 mr"
  shows "batch_ok mr (complete_item mr werr i b)"
    and "in_progress_count (batch_Items (complete_item mr werr i b)) = 0"
proof -
  let ?it = "batch_Items b ! i"
  from ok i have "item_ok mr ?it" by (auto simp: batch_ok_def list_all_length)
  then have fin: "item_ok mr (finished_item mr werr ?it)" using run mr by (rule finished_item_ok)
  show count: "in_progress_count (batch_Items (complete_item mr werr i b)) = 0"
    using in_progress_count_update [OF i, of "finished_item mr werr ?it"] run ok
    by (simp add: complete_item_items [OF i] batch_ok_def)
  have "batch_Status (complete_item mr werr i b) = BatchStatusDone \<Longrightarrow>
          allItemsDone (batch_Items (complete_item mr werr i b))"
    by (simp add: complete_item_status [OF i] split: if_splits)
  with count ok fin show "batch_ok mr (complete_item mr werr i b)"
    by (simp add: batch_ok_def allItemsDone_def complete_item_items [OF i] list_all_list_update)
qed

text \<open>Undoing a claim restores the items; only the status of the batch may differ from before.\<close>

lemma release_claim:
  assumes "i < length (batch_Items b)" and "item_Status (batch_Items b ! i) = ItemStatusPending"
  shows "release_item i (claim_item i b) = b\<lparr>batch_Status := BatchStatusPending\<rparr>"
proof -
  have "(batch_Items b ! i)\<lparr>item_Status := ItemStatusPending\<rparr> = batch_Items b ! i"
    using assms(2) by simp
  then show ?thesis
    using assms(1) by (simp add: release_item_def claim_item_def set_item_status_def)
qed

lemma items_set_update:
  "items_set its \<Longrightarrow> item_set it \<Longrightarrow> items_set (its[i := it])"
  by (simp add: items_set_def list_all_list_update)

lemma items_set_nth: "items_set its \<Longrightarrow> i < length its \<Longrightarrow> item_set (its ! i)"
  by (simp add: items_set_def list_all_length)

lemma items_set_status:
  assumes "items_set (batch_Items b)" and "s \<noteq> ItemStatusEmpty"
  shows "items_set (batch_Items (set_item_status i s b))"
proof (cases "i < length (batch_Items b)")
  case True
  with assms items_set_nth [of "batch_Items b" i] show ?thesis
    by (auto simp: set_item_status_def item_set_def intro!: items_set_update)
next
  case False
  with assms show ?thesis by (simp add: set_item_status_def list_update_beyond)
qed

lemma items_set_claim: "items_set (batch_Items b) \<Longrightarrow> items_set (batch_Items (claim_item i b))"
  by (simp add: claim_item_def items_set_status)

lemma items_set_release: "items_set (batch_Items b) \<Longrightarrow> items_set (batch_Items (release_item i b))"
  by (simp add: release_item_def items_set_status)

lemma items_set_complete:
  assumes "items_set (batch_Items b)" and "i < length (batch_Items b)"
    and "item_Attempts (batch_Items b ! i) < max_int"
  shows "items_set (batch_Items (complete_item mr werr i b))"
proof -
  have "item_set (batch_Items b ! i)" using assms by (simp add: items_set_nth)
  then have "int_inc (item_Attempts (batch_Items b ! i)) = item_Attempts (batch_Items b ! i) + 1"
    using assms(3) by (intro int_inc_no_wrap) (auto simp: item_set_def min_int_def)
  with \<open>item_set (batch_Items b ! i)\<close> have "item_set (finished_item mr werr (batch_Items b ! i))"
    by (auto simp: item_set_def finished_item_def)
  with assms show ?thesis by (simp add: complete_item_items items_set_update)
qed

text \<open>Two batches with the same content are carried through a stage to the same content.\<close>

lemma core_stage_cong:
  assumes "batch_core b = batch_core b'"
  shows "batch_core (claim_item i b) = batch_core (claim_item i b')"
    and "batch_core (release_item i b) = batch_core (release_item i b')"
    and "batch_core (complete_item mr werr i b) = batch_core (complete_item mr werr i b')"
  using assms batch_core_eqD(2) [OF assms]
  by (simp_all add: claim_item_def release_item_def complete_item_def set_item_status_def Let_def
      batch_core_update split: option.split)

section \<open>The retry discipline\<close>

text \<open>
  A batch that is run again and again while it is eligible, one worker outcome per attempt.  The
  attempts left to its pending items bound how long that can go on.
\<close>

fun run_attempts :: "int \<Rightarrow> go_error option list \<Rightarrow> batch \<Rightarrow> batch" where
  "run_attempts mr [] b = b"
| "run_attempts mr (r # rs) b =
     (case eligible b of
        None \<Rightarrow> b
      | Some i \<Rightarrow> run_attempts mr rs (complete_item mr r i (claim_item i b)))"

definition attempts_left :: "int \<Rightarrow> batch_item \<Rightarrow> nat" where
  "attempts_left mr it = (if item_Status it = ItemStatusPending then nat (mr - item_Attempts it) else 0)"

definition total_left :: "int \<Rightarrow> batch \<Rightarrow> nat" where
  "total_left mr b = sum_list (map (attempts_left mr) (batch_Items b))"

text \<open>A batch between two attempts: nothing running, something waiting, nothing failed.\<close>

definition waiting :: "int \<Rightarrow> batch \<Rightarrow> bool" where
  "waiting mr b \<longleftrightarrow>
     batch_ok mr b \<and> batch_Status b \<in> {BatchStatusPending, BatchStatusInProgress} \<and>
     list_all (\<lambda>it. item_Status it \<in> {ItemStatusPending, ItemStatusDone}) (batch_Items b) \<and>
     list_ex (\<lambda>it. item_Status it = ItemStatusPending) (batch_Items b)"

lemma in_progress_count_0: "in_progress_count its = 0 \<longleftrightarrow> list_all (\<lambda>it. item_Status it \<noteq> ItemStatusInProgress) its"
  by (induction its) auto

lemma waiting_eligible: "waiting mr b \<Longrightarrow> \<exists>i. eligible b = Some i"
proof -
  assume w: "waiting mr b"
  then have "in_progress_count (batch_Items b) = 0"
    unfolding waiting_def in_progress_count_0 by (auto simp: list_all_iff)
  with w have "eligible b \<noteq> None" by (auto simp: eligible_none_iff waiting_def list_ex_iff)
  then show ?thesis by blast
qed

lemma settled_run_attempts:
  "batch_Status b \<in> {BatchStatusFailed, BatchStatusDone} \<Longrightarrow> run_attempts mr rs b = b"
  by (cases rs) (auto simp: eligible_def)

text \<open>The items after one attempt, by what the worker returned.\<close>

lemma attempt_items:
  assumes "eligible b = Some i"
  shows "batch_Items (complete_item mr r i (claim_item i b)) =
    (batch_Items b)[i := (finished_item mr r (batch_Items b ! i))]"
proof -
  from assms have i: "i < length (batch_Items b)" by (simp add: eligible_iff)
  then show ?thesis
    by (simp add: complete_item_items claim_item_items finished_item_def)
qed

lemma attempt_status:
  assumes "eligible b = Some i"
  shows "batch_Status (complete_item mr r i (claim_item i b)) =
    (if r = None then
       (if allItemsDone ((batch_Items b)[i := finished_item mr r (batch_Items b ! i)])
        then BatchStatusDone else BatchStatusPending)
     else if mr \<le> int_inc (item_Attempts (batch_Items b ! i)) then BatchStatusFailed
     else BatchStatusPending)"
proof -
  from assms have "i < length (batch_Items b)" by (simp add: eligible_iff)
  then show ?thesis
    using complete_item_status [of i "claim_item i b" mr r] attempt_items [OF assms, of mr r]
    by (cases r) (simp_all add: claim_item_items)
qed

text \<open>One attempt settles a waiting batch or leaves it waiting, with fewer attempts left.\<close>

lemma attempt_waiting:
  assumes w: "waiting mr b" and el: "eligible b = Some i" and mr: "in_int64 mr"
    and b'_def: "b' = complete_item mr r i (claim_item i b)"
  shows "batch_Status b' \<in> {BatchStatusDone, BatchStatusFailed} \<or> waiting mr b'"
    and "total_left mr b' < total_left mr b"
    and "batch_ok mr b'"
    and "batch_Status b' = BatchStatusFailed \<Longrightarrow> r \<noteq> None"
proof -
  let ?it = "batch_Items b ! i" and ?f = "finished_item mr r (batch_Items b ! i)"
  from el have i: "i < length (batch_Items b)" and p: "item_Status ?it = ItemStatusPending"
    by (auto simp: eligible_iff)
  have ok: "batch_ok mr b" using w by (simp add: waiting_def)
  then have iok: "item_ok mr ?it" using i by (auto simp: batch_ok_def list_all_length)
  have inc: "int_inc (item_Attempts ?it) = item_Attempts ?it + 1"
    using item_ok_inc [OF iok _ mr] p by simp
  have its: "batch_Items b' = (batch_Items b)[i := ?f]" unfolding b'_def by (rule attempt_items [OF el])
  note st = attempt_status [OF el, of mr r, folded b'_def]
  note cl = claim_item_ok [OF ok el]
  show ok': "batch_ok mr b'"
    unfolding b'_def using complete_item_ok(1) [OF cl(1) _ cl(3) mr] i by simp
  have "attempts_left mr ?f < attempts_left mr ?it"
    using iok p inc by (auto simp: attempts_left_def finished_item_def item_ok_def)
  then show "total_left mr b' < total_left mr b"
    unfolding total_left_def its by (rule sum_list_update_less [OF i])
  show "batch_Status b' = BatchStatusFailed \<Longrightarrow> r \<noteq> None" using st by (auto split: if_splits)
  have old: "list_all (\<lambda>it. item_Status it \<in> {ItemStatusPending, ItemStatusDone}) (batch_Items b)"
    using w by (simp add: waiting_def)
  show "batch_Status b' \<in> {BatchStatusDone, BatchStatusFailed} \<or> waiting mr b'"
  proof (cases "batch_Status b' = BatchStatusPending")
    case True
    then have "item_Status ?f \<in> {ItemStatusPending, ItemStatusDone}"
      using st by (auto simp: finished_item_def split: if_splits)
    then have all: "list_all (\<lambda>it. item_Status it \<in> {ItemStatusPending, ItemStatusDone}) (batch_Items b')"
      unfolding its using old by (intro list_all_list_update)
    have "\<not> allItemsDone (batch_Items b')"
      using True st its i by (auto simp: finished_item_def allItemsDone_def list_all_length inc split: if_splits)
    with all have "list_ex (\<lambda>it. item_Status it = ItemStatusPending) (batch_Items b')"
      by (auto simp: allItemsDone_def list_all_iff list_ex_iff)
    with True all ok' show ?thesis by (simp add: waiting_def)
  next
    case False
    with st show ?thesis by (auto split: if_splits)
  qed
qed

text \<open>C4: A waiting batch is settled within as many attempts as its pending items have left, whatever
  the worker returns: it ends done, with every item done, or failed.  If no attempt fails it ends
  done.\<close>

theorem batch_settles:
  assumes "waiting mr b" and "in_int64 mr" and "total_left mr b \<le> length rs"
  shows "batch_Status (run_attempts mr rs b) \<in> {BatchStatusDone, BatchStatusFailed} \<and>
    (batch_Status (run_attempts mr rs b) = BatchStatusDone \<longrightarrow>
       allItemsDone (batch_Items (run_attempts mr rs b))) \<and>
    (set rs \<subseteq> {None} \<longrightarrow> batch_Status (run_attempts mr rs b) = BatchStatusDone)"
  using assms(1,3)
proof (induction rs arbitrary: b)
  case Nil
  then obtain i where el: "eligible b = Some i" using waiting_eligible by blast
  have "total_left mr (complete_item mr None i (claim_item i b)) < total_left mr b"
    by (rule attempt_waiting(2) [OF Nil(1) el assms(2) refl])
  with Nil(2) show ?case by simp
next
  case (Cons r rs)
  from Cons.prems obtain i where el: "eligible b = Some i" using waiting_eligible by blast
  let ?b = "complete_item mr r i (claim_item i b)"
  note at = attempt_waiting [OF Cons.prems(1) el assms(2) refl, of r]
  from at(1) show ?case
  proof
    assume s: "batch_Status ?b \<in> {BatchStatusDone, BatchStatusFailed}"
    with settled_run_attempts [of ?b mr rs] have "run_attempts mr (r # rs) b = ?b" using el by auto
    with s at(3,4) show ?thesis by (auto simp: batch_ok_def allItemsDone_def)
  next
    assume "waiting mr ?b"
    moreover have "total_left mr ?b \<le> length rs" using at(2) Cons.prems(2) by simp
    ultimately show ?thesis using Cons.IH [of ?b] el by auto
  qed
qed

theorem batch_settles_witness:
  "batch_Status (run_attempts 2 [Some ErrConflict, None, None, None] demo_batch) = BatchStatusDone \<and>
   allItemsDone (batch_Items (run_attempts 2 [Some ErrConflict, None, None, None] demo_batch))"
proof -
  have "waiting 2 demo_batch" and "in_int64 2" and "total_left 2 demo_batch \<le> length [Some ErrConflict, None, None, None]"
    by code_simp+
  from batch_settles [OF this] show ?thesis by code_simp
qed

text \<open>While the item fails and has attempts left, the scheduler keeps coming back to it.\<close>

lemma failing_attempt:
  assumes w: "waiting mr b" and mr: "in_int64 mr" and el: "eligible b = Some i"
    and r: "r \<noteq> None" and left: "item_Attempts (batch_Items b ! i) + 1 < mr"
    and b': "b' = complete_item mr r i (claim_item i b)"
  shows "waiting mr b'" and "eligible b' = Some i"
    and "batch_Items b' ! i = (batch_Items b ! i)\<lparr>item_Attempts := item_Attempts (batch_Items b ! i) + 1\<rparr>"
proof -
  from el have i: "i < length (batch_Items b)" and p: "item_Status (batch_Items b ! i) = ItemStatusPending"
    by (auto simp: eligible_iff)
  have "item_ok mr (batch_Items b ! i)" using w i by (auto simp: waiting_def batch_ok_def list_all_length)
  then have inc: "int_inc (item_Attempts (batch_Items b ! i)) = item_Attempts (batch_Items b ! i) + 1"
    using p mr by (intro item_ok_inc) auto
  have fin: "finished_item mr r (batch_Items b ! i) =
      (batch_Items b ! i)\<lparr>item_Attempts := item_Attempts (batch_Items b ! i) + 1\<rparr>"
    using p r left inc by (simp add: finished_item_def)
  have its: "batch_Items b' = (batch_Items b)[i := (batch_Items b ! i)\<lparr>item_Attempts := item_Attempts (batch_Items b ! i) + 1\<rparr>]"
    unfolding b' attempt_items [OF el] fin ..
  have st: "batch_Status b' = BatchStatusPending"
    unfolding b' using attempt_status [OF el, of mr r] r left inc by simp
  show "batch_Items b' ! i = (batch_Items b ! i)\<lparr>item_Attempts := item_Attempts (batch_Items b ! i) + 1\<rparr>"
    using its i by simp
  show w': "waiting mr b'" using attempt_waiting(1) [OF w el mr b'] st by auto
  have "in_progress_count (batch_Items b') = 0"
    using w' by (auto simp: waiting_def in_progress_count_0 list_all_iff)
  then show "eligible b' = Some i"
    using el its st i p by (auto simp: eligible_iff nth_list_update)
qed

text \<open>C23: The retry cap.  An item that fails every time is tried again until its attempts reach the
  cap: after \<open>n\<close> failures it has \<open>n\<close> attempts more and is still pending if they stay below the cap;
  the failure that reaches the cap makes the item and its batch failed.\<close>

theorem retry_cap:
  assumes "waiting mr b" and "in_int64 mr" and "eligible b = Some i"
    and "None \<notin> set rs" and "rs \<noteq> []" and "item_Attempts (batch_Items b ! i) + int (length rs) \<le> mr"
  shows "batch_Items (run_attempts mr rs b) ! i =
      (batch_Items b ! i)\<lparr>item_Attempts := item_Attempts (batch_Items b ! i) + int (length rs),
         item_Status := (if item_Attempts (batch_Items b ! i) + int (length rs) = mr then ItemStatusFailed
                         else ItemStatusPending)\<rparr> \<and>
    batch_Status (run_attempts mr rs b) =
      (if item_Attempts (batch_Items b ! i) + int (length rs) = mr then BatchStatusFailed
       else BatchStatusPending)"
  using assms(1,3-6)
proof (induction rs arbitrary: b)
  case Nil
  then show ?case by simp
next
  case (Cons r rs)
  let ?it = "batch_Items b ! i" and ?b = "complete_item mr r i (claim_item i b)"
  from Cons.prems(2) have i: "i < length (batch_Items b)" and p: "item_Status ?it = ItemStatusPending"
    by (auto simp: eligible_iff)
  have r: "r \<noteq> None" using Cons.prems(3) by (cases r) auto
  have "item_ok mr ?it" using Cons.prems(1) i by (auto simp: waiting_def batch_ok_def list_all_length)
  then have inc: "int_inc (item_Attempts ?it) = item_Attempts ?it + 1"
    using p assms(2) by (intro item_ok_inc) auto
  show ?case
  proof (cases "rs = []")
    case True
    then show ?thesis
      using Cons.prems(2,5) attempt_items [OF Cons.prems(2), of mr r] attempt_status [OF Cons.prems(2), of mr r] r inc i
      by (simp add: finished_item_def)
  next
    case False
    then have "item_Attempts ?it + 1 < mr" using Cons.prems(5) by (cases rs) auto
    note f = failing_attempt [OF Cons.prems(1) assms(2) Cons.prems(2) r this refl]
    have "item_Attempts (batch_Items ?b ! i) + int (length rs) \<le> mr"
      using Cons.prems(5) f(3) by simp
    from Cons.IH [OF f(1,2) _ False this] Cons.prems(2,3) f(3) p show ?thesis
      by (simp add: ac_simps)
  qed
qed

theorem retry_cap_witness:
  "item_Status (batch_Items (run_attempts 2 [Some ErrConflict, Some ErrConflict] demo_batch) ! 0) = ItemStatusFailed \<and>
   batch_Status (run_attempts 2 [Some ErrConflict, Some ErrConflict] demo_batch) = BatchStatusFailed"
proof -
  have a: "waiting 2 demo_batch" "in_int64 2" "eligible demo_batch = Some 0"
    "None \<notin> set [Some ErrConflict, Some ErrConflict]" "[Some ErrConflict, Some ErrConflict] \<noteq> []"
    "item_Attempts (batch_Items demo_batch ! 0) + int (length [Some ErrConflict, Some ErrConflict]) \<le> 2"
    by code_simp+
  have "item_Attempts (batch_Items demo_batch ! 0) = 0" by code_simp
  with retry_cap [OF a] show ?thesis by simp
qed

end
