(* ===== verification/Mongo_Store.thy ===== *)
theory Mongo_Store
  imports Store_Interface
begin

text \<open>
  The MongoDB client of internal/storage/mongo.  The driver (go.mongodb.org/mongo-driver) is not
  part of the repository: its calls are the fields of a record that every operation takes, over a
  database state \<open>'m\<close>.  What the client passes to the driver is modelled: the collection, the
  filter, the document, the sort key, the limit.  \<open>driver_ok\<close> collects the documented behaviour of
  the driver that the refinement lemma at the end uses.  The guards against a nil pointer have no
  counterpart, since every argument is a value.
\<close>

section \<open>Documents and filters\<close>

datatype doc =
    DocRepository repository
  | DocAgent agent
  | DocBatch batch
  | DocRun task_run
  | DocEvent session_event

datatype bson_cond = BEq string | BIn "string list"

type_synonym bson_filter = "(string \<times> bson_cond) list"

text \<open>The string fields of a document, by the names of the bson tags in models.go.\<close>

definition repo_field :: "repository \<Rightarrow> string \<Rightarrow> string option" where
  "repo_field r k =
     (if k = ''repository_id'' then Some (repo_ID r)
      else if k = ''name'' then Some (repo_Name r)
      else if k = ''path'' then Some (repo_Path r)
      else None)"

definition agent_field :: "agent \<Rightarrow> string \<Rightarrow> string option" where
  "agent_field a k =
     (if k = ''agent_id'' then Some (agent_ID a)
      else if k = ''name'' then Some (agent_Name a)
      else if k = ''runtime'' then Some (agent_Runtime a)
      else if k = ''status'' then Some (agent_status_str (agent_Status a))
      else None)"

definition batch_field :: "batch \<Rightarrow> string \<Rightarrow> string option" where
  "batch_field b k =
     (if k = ''batch_id'' then Some (batch_ID b)
      else if k = ''repository_id'' then Some (batch_RepositoryID b)
      else if k = ''status'' then Some (batch_status_str (batch_Status b))
      else None)"

definition run_field :: "task_run \<Rightarrow> string \<Rightarrow> string option" where
  "run_field r k =
     (if k = ''run_id'' then Some (run_ID r)
      else if k = ''batch_id'' then Some (run_BatchID r)
      else if k = ''repository_id'' then Some (run_RepositoryID r)
      else if k = ''task_ref'' then Some (run_TaskRef r)
      else if k = ''session_id'' then Some (run_SessionID r)
      else if k = ''status'' then Some (task_run_status_str (run_Status r))
      else None)"

definition event_field :: "session_event \<Rightarrow> string \<Rightarrow> string option" where
  "event_field e k =
     (if k = ''batch_id'' then Some (ev_BatchID e)
      else if k = ''run_id'' then Some (ev_RunID e)
      else if k = ''session_id'' then Some (ev_SessionID e)
      else None)"

fun doc_field :: "doc \<Rightarrow> string \<Rightarrow> string option" where
  "doc_field (DocRepository r) = repo_field r"
| "doc_field (DocAgent a) = agent_field a"
| "doc_field (DocBatch b) = batch_field b"
| "doc_field (DocRun r) = run_field r"
| "doc_field (DocEvent e) = event_field e"

definition cond_holds :: "bson_cond \<Rightarrow> string option \<Rightarrow> bool" where
  "cond_holds c v =
     (case v of
        None \<Rightarrow> False
      | Some s \<Rightarrow> (case c of BEq t \<Rightarrow> s = t | BIn ts \<Rightarrow> s \<in> set ts))"

definition matches :: "bson_filter \<Rightarrow> doc \<Rightarrow> bool" where
  "matches f d \<longleftrightarrow> list_all (\<lambda>(k, c). cond_holds c (doc_field d k)) f"

fun as_repository :: "doc \<Rightarrow> go_error + repository" where
  "as_repository (DocRepository r) = Inr r"
| "as_repository d = Inl (Errorf ''decode'')"

fun as_agent :: "doc \<Rightarrow> go_error + agent" where
  "as_agent (DocAgent a) = Inr a"
| "as_agent d = Inl (Errorf ''decode'')"

fun as_batch :: "doc \<Rightarrow> go_error + batch" where
  "as_batch (DocBatch b) = Inr b"
| "as_batch d = Inl (Errorf ''decode'')"

fun as_run :: "doc \<Rightarrow> go_error + task_run" where
  "as_run (DocRun r) = Inr r"
| "as_run d = Inl (Errorf ''decode'')"

fun as_event :: "doc \<Rightarrow> go_error + session_event" where
  "as_event (DocEvent e) = Inr e"
| "as_event d = Inl (Errorf ''decode'')"

section \<open>The driver\<close>

text \<open>
  A cursor is what its iteration yields: one decoding result per document, then the error that
  \<^verbatim>\<open>cur.Err()\<close> reports.  \<open>UpdateOne\<close> returns the matched count, \<open>DeleteOne\<close> the deleted count,
  \<open>GroupCount\<close> is the aggregation \<^verbatim>\<open>$match\<close> then \<^verbatim>\<open>$group\<close> by one field with \<^verbatim>\<open>{$sum: 1}\<close>.  \<open>Now\<close> is
  \<^verbatim>\<open>time.Now().UTC()\<close>.
\<close>

type_synonym 'd cursor = "(go_error + 'd) list \<times> go_error option"

record 'm driver =
  Now :: "('m, go_time) act"
  InsertOne :: "ctx \<Rightarrow> string \<Rightarrow> doc \<Rightarrow> ('m, go_error option) act"
  UpdateOne :: "ctx \<Rightarrow> string \<Rightarrow> bson_filter \<Rightarrow> doc \<Rightarrow> ('m, go_error + int) act"
  FindOne :: "ctx \<Rightarrow> string \<Rightarrow> bson_filter \<Rightarrow> ('m, go_error + doc) act"
  Find :: "ctx \<Rightarrow> string \<Rightarrow> bson_filter \<Rightarrow> string \<times> int \<Rightarrow> int option \<Rightarrow> ('m, go_error + doc cursor) act"
  DeleteOne :: "ctx \<Rightarrow> string \<Rightarrow> bson_filter \<Rightarrow> ('m, go_error + int) act"
  CountDocuments :: "ctx \<Rightarrow> string \<Rightarrow> bson_filter \<Rightarrow> ('m, go_error + int) act"
  GroupCount :: "ctx \<Rightarrow> string \<Rightarrow> bson_filter \<Rightarrow> string \<Rightarrow> ('m, go_error + (string \<times> int) cursor) act"

definition batchesCollection :: string where
  "batchesCollection = ''batches''"

definition taskRunsCollection :: string where
  "taskRunsCollection = ''task_runs''"

definition sessionEventsCollection :: string where
  "sessionEventsCollection = ''session_events''"

definition repositoriesCollection :: string where
  "repositoriesCollection = ''repositories''"

definition agentsCollection :: string where
  "agentsCollection = ''agents''"

lemmas collections =
  batchesCollection_def taskRunsCollection_def sessionEventsCollection_def
  repositoriesCollection_def agentsCollection_def

definition defaultTimeout :: int where
  "defaultTimeout = 5 * 10 ^ 9"

definition withTimeout :: "ctx \<Rightarrow> ctx" where
  "withTimeout c = CtxWithTimeout defaultTimeout c"

text \<open>The loop over a cursor: the first decoding error, or the cursor's error, or all documents.\<close>

fun drain :: "string \<Rightarrow> ('d \<Rightarrow> go_error + 'a) \<Rightarrow> (go_error + 'd) list \<Rightarrow> go_error + 'a list" where
  "drain what f [] = Inr []"
| "drain what f (Inl e # rows) = Inl (Wrapf (''decode '' @ what) e)"
| "drain what f (Inr d # rows) =
     (case f d of
        Inl e \<Rightarrow> Inl (Wrapf (''decode '' @ what) e)
      | Inr x \<Rightarrow> (case drain what f rows of Inl e \<Rightarrow> Inl e | Inr xs \<Rightarrow> Inr (x # xs)))"

definition read_cursor :: "string \<Rightarrow> string \<Rightarrow> ('d \<Rightarrow> go_error + 'a) \<Rightarrow> 'd cursor \<Rightarrow> go_error + 'a list" where
  "read_cursor one many f cur =
     (case drain one f (fst cur) of
        Inl e \<Rightarrow> Inl e
      | Inr xs \<Rightarrow> (case snd cur of None \<Rightarrow> Inr xs | Some e \<Rightarrow> Inl (Wrapf (''iterate '' @ many) e)))"

section \<open>Shared shapes of the operations\<close>

text \<open>Insert, with the duplicate key error turned into \<^verbatim>\<open>storage.ErrConflict\<close> where \<open>uniq\<close> holds.\<close>

definition mongo_insert ::
    "'m driver \<Rightarrow> ctx \<Rightarrow> string \<Rightarrow> string \<Rightarrow> bool \<Rightarrow> doc \<Rightarrow> ('m, go_error option) act" where
  "mongo_insert drv c coll what uniq d m =
     (case InsertOne drv (withTimeout c) coll d m of
        (None, m') \<Rightarrow> (None, m')
      | (Some e, m') \<Rightarrow>
          (Some (if uniq \<and> is_duplicate_key e then ErrConflict else Wrapf (''insert '' @ what) e), m'))"

definition mongo_update ::
    "'m driver \<Rightarrow> ctx \<Rightarrow> string \<Rightarrow> string \<Rightarrow> bool \<Rightarrow> bson_filter \<Rightarrow> doc \<Rightarrow> ('m, go_error option) act" where
  "mongo_update drv c coll what uniq f d m =
     (case UpdateOne drv (withTimeout c) coll f d m of
        (Inl e, m') \<Rightarrow>
          (Some (if uniq \<and> is_duplicate_key e then ErrConflict else Wrapf (''update '' @ what) e), m')
      | (Inr n, m') \<Rightarrow> (if n = 0 then Some ErrNoDocuments else None, m'))"

definition mongo_get ::
    "'m driver \<Rightarrow> ctx \<Rightarrow> string \<Rightarrow> string \<Rightarrow> bson_filter \<Rightarrow> (doc \<Rightarrow> go_error + 'a) \<Rightarrow> ('m, 'a) reader" where
  "mongo_get drv c coll what f as m =
     (case FindOne drv (withTimeout c) coll f m of
        (Inl e, m') \<Rightarrow> (Inl (if err_is e ErrNoDocuments then e else Wrapf (''get '' @ what) e), m')
      | (Inr d, m') \<Rightarrow> (case as d of Inl e \<Rightarrow> (Inl (Wrapf (''get '' @ what) e), m') | Inr x \<Rightarrow> (Inr x, m')))"

definition mongo_list ::
    "'m driver \<Rightarrow> ctx \<Rightarrow> string \<Rightarrow> string \<Rightarrow> string \<Rightarrow> string \<Rightarrow> bson_filter \<Rightarrow> string \<times> int \<Rightarrow> int option \<Rightarrow>
       (doc \<Rightarrow> go_error + 'a) \<Rightarrow> ('m, 'a list) reader" where
  "mongo_list drv c coll listing one many f srt lim as m =
     (case Find drv (withTimeout c) coll f srt lim m of
        (Inl e, m') \<Rightarrow> (Inl (Wrapf (''list '' @ listing) e), m')
      | (Inr cur, m') \<Rightarrow> (read_cursor one many as cur, m'))"

definition mongo_delete ::
    "'m driver \<Rightarrow> ctx \<Rightarrow> string \<Rightarrow> string \<Rightarrow> bson_filter \<Rightarrow> ('m, go_error option) act" where
  "mongo_delete drv c coll what f m =
     (case DeleteOne drv (withTimeout c) coll f m of
        (Inl e, m') \<Rightarrow> (Some (Wrapf (''delete '' @ what) e), m')
      | (Inr n, m') \<Rightarrow> (if n = 0 then Some ErrNoDocuments else None, m'))"

section \<open>Agents\<close>

definition mongo_CreateAgent :: "'m driver \<Rightarrow> ('m, agent) writer" where
  "mongo_CreateAgent drv c a m =
     (let (now, m1) = Now drv m;
          a1 = (if agent_CreatedAt a = 0 then a\<lparr>agent_CreatedAt := now\<rparr> else a);
          a2 = a1\<lparr>agent_UpdatedAt := now\<rparr>;
          a3 = (if agent_Status a2 = AgentStatusEmpty then a2\<lparr>agent_Status := AgentStatusIdle\<rparr> else a2);
          (r, m2) = mongo_insert drv c agentsCollection ''agent'' True (DocAgent a3) m1
      in ((r, a3), m2))"

definition mongo_UpdateAgent :: "'m driver \<Rightarrow> ('m, agent) writer" where
  "mongo_UpdateAgent drv c a m =
     (let (now, m1) = Now drv m;
          a1 = a\<lparr>agent_UpdatedAt := now\<rparr>;
          (r, m2) = mongo_update drv c agentsCollection ''agent'' True
                      [(''agent_id'', BEq (agent_ID a1))] (DocAgent a1) m1
      in ((r, a1), m2))"

definition mongo_GetAgent :: "'m driver \<Rightarrow> ctx \<Rightarrow> string \<Rightarrow> ('m, agent) reader" where
  "mongo_GetAgent drv c i = mongo_get drv c agentsCollection ''agent'' [(''agent_id'', BEq i)] as_agent"

definition mongo_ListAgents :: "'m driver \<Rightarrow> ctx \<Rightarrow> ('m, agent list) reader" where
  "mongo_ListAgents drv c =
     mongo_list drv c agentsCollection ''agents'' ''agent'' ''agents'' [] (''created_at'', - 1) None as_agent"

definition mongo_DeleteAgent :: "'m driver \<Rightarrow> ctx \<Rightarrow> string \<Rightarrow> ('m, go_error option) act" where
  "mongo_DeleteAgent drv c i = mongo_delete drv c agentsCollection ''agent'' [(''agent_id'', BEq i)]"

section \<open>Repositories\<close>

definition mongo_CreateRepository :: "'m driver \<Rightarrow> ('m, repository) writer" where
  "mongo_CreateRepository drv c rp m =
     (let (now, m1) = Now drv m;
          r1 = (if repo_CreatedAt rp = 0 then rp\<lparr>repo_CreatedAt := now\<rparr> else rp);
          r2 = r1\<lparr>repo_UpdatedAt := now\<rparr>;
          (r, m2) = mongo_insert drv c repositoriesCollection ''repository'' True (DocRepository r2) m1
      in ((r, r2), m2))"

definition mongo_UpdateRepository :: "'m driver \<Rightarrow> ('m, repository) writer" where
  "mongo_UpdateRepository drv c rp m =
     (let (now, m1) = Now drv m;
          r1 = rp\<lparr>repo_UpdatedAt := now\<rparr>;
          (r, m2) = mongo_update drv c repositoriesCollection ''repository'' True
                      [(''repository_id'', BEq (repo_ID r1))] (DocRepository r1) m1
      in ((r, r1), m2))"

definition mongo_GetRepository :: "'m driver \<Rightarrow> ctx \<Rightarrow> string \<Rightarrow> ('m, repository) reader" where
  "mongo_GetRepository drv c i =
     mongo_get drv c repositoriesCollection ''repository'' [(''repository_id'', BEq i)] as_repository"

definition mongo_ListRepositories :: "'m driver \<Rightarrow> ctx \<Rightarrow> ('m, repository list) reader" where
  "mongo_ListRepositories drv c =
     mongo_list drv c repositoriesCollection ''repositories'' ''repository'' ''repositories'' []
       (''created_at'', - 1) None as_repository"

definition mongo_DeleteRepository :: "'m driver \<Rightarrow> ctx \<Rightarrow> string \<Rightarrow> ('m, go_error option) act" where
  "mongo_DeleteRepository drv c i =
     mongo_delete drv c repositoriesCollection ''repository'' [(''repository_id'', BEq i)]"

definition active_filter :: "string \<Rightarrow> bson_filter" where
  "active_filter i =
     [(''repository_id'', BEq i),
      (''status'', BIn (map batch_status_str
         [BatchStatusPending, BatchStatusInProgress, BatchStatusPaused]))]"

definition mongo_RepositoryHasActiveBatches :: "'m driver \<Rightarrow> ctx \<Rightarrow> string \<Rightarrow> ('m, bool) reader" where
  "mongo_RepositoryHasActiveBatches drv c i m =
     (case CountDocuments drv (withTimeout c) batchesCollection (active_filter i) m of
        (Inl e, m') \<Rightarrow> (Inl (Wrapf ''count active batches'' e), m')
      | (Inr n, m') \<Rightarrow> (Inr (0 < n), m'))"

section \<open>Batches\<close>

text \<open>The defaults that both writers fill in for the items.\<close>

definition norm_item :: "batch_item \<Rightarrow> batch_item" where
  "norm_item it =
     (let i1 = (if item_Status it = ItemStatusEmpty then it\<lparr>item_Status := ItemStatusPending\<rparr> else it)
      in if item_Attempts i1 < 0 then i1\<lparr>item_Attempts := 0\<rparr> else i1)"

definition mongo_CreateBatch :: "'m driver \<Rightarrow> ('m, batch) writer" where
  "mongo_CreateBatch drv c b m =
     (let (now, m1) = Now drv m;
          b1 = (if batch_CreatedAt b = 0 then b\<lparr>batch_CreatedAt := now\<rparr> else b);
          b2 = b1\<lparr>batch_UpdatedAt := now\<rparr>;
          b3 = (if batch_Status b2 = BatchStatusEmpty then b2\<lparr>batch_Status := BatchStatusPending\<rparr> else b2);
          b4 = b3\<lparr>batch_Items := map norm_item (batch_Items b3)\<rparr>;
          (r, m2) = mongo_insert drv c batchesCollection ''batch'' False (DocBatch b4) m1
      in ((r, b4), m2))"

definition mongo_UpdateBatch :: "'m driver \<Rightarrow> ('m, batch) writer" where
  "mongo_UpdateBatch drv c b m =
     (let b1 = b\<lparr>batch_Items := map norm_item (batch_Items b)\<rparr>;
          (now, m1) = Now drv m;
          b2 = b1\<lparr>batch_UpdatedAt := now\<rparr>;
          (r, m2) = mongo_update drv c batchesCollection ''batch'' False
                      [(''batch_id'', BEq (batch_ID b2))] (DocBatch b2) m1
      in ((r, b2), m2))"

definition mongo_GetBatch :: "'m driver \<Rightarrow> ctx \<Rightarrow> string \<Rightarrow> ('m, batch) reader" where
  "mongo_GetBatch drv c i = mongo_get drv c batchesCollection ''batch'' [(''batch_id'', BEq i)] as_batch"

definition list_limit :: "int \<Rightarrow> int option" where
  "list_limit n = (if 0 < n then Some n else None)"

definition mongo_ListBatches :: "'m driver \<Rightarrow> ctx \<Rightarrow> int \<Rightarrow> ('m, batch list) reader" where
  "mongo_ListBatches drv c n =
     mongo_list drv c batchesCollection ''batches'' ''batch'' ''batches'' [] (''created_at'', - 1)
       (list_limit n) as_batch"

definition mongo_ListBatchesByRepository ::
    "'m driver \<Rightarrow> ctx \<Rightarrow> string \<Rightarrow> batch_status \<Rightarrow> int \<Rightarrow> ('m, batch list) reader" where
  "mongo_ListBatchesByRepository drv c i s n =
     mongo_list drv c batchesCollection ''batches by repository'' ''batch'' ''batches''
       ((''repository_id'', BEq i) #
        (if s = BatchStatusEmpty then [] else [(''status'', BEq (batch_status_str s))]))
       (''created_at'', - 1) (list_limit n) as_batch"

section \<open>Task runs and session events\<close>

text \<open>Both writers take a missing repository identifier from the run's batch.\<close>

definition backfill_repository :: "'m driver \<Rightarrow> ctx \<Rightarrow> task_run \<Rightarrow> ('m, task_run) act" where
  "backfill_repository drv c r m =
     (if run_RepositoryID r = [] \<and> run_BatchID r \<noteq> [] then
        (case mongo_GetBatch drv c (run_BatchID r) m of
           (Inl e, m') \<Rightarrow> (r, m')
         | (Inr b, m') \<Rightarrow> (r\<lparr>run_RepositoryID := batch_RepositoryID b\<rparr>, m'))
      else (r, m))"

definition mongo_CreateTaskRun :: "'m driver \<Rightarrow> ('m, task_run) writer" where
  "mongo_CreateTaskRun drv c r m =
     (let (r1, m1) = (if run_StartedAt r = 0
                      then (let (now, m') = Now drv m in (r\<lparr>run_StartedAt := now\<rparr>, m'))
                      else (r, m));
          (r2, m2) = backfill_repository drv c r1 m1;
          (e, m3) = mongo_insert drv c taskRunsCollection ''task run'' False (DocRun r2) m2
      in ((e, r2), m3))"

definition mongo_UpdateTaskRun :: "'m driver \<Rightarrow> ('m, task_run) writer" where
  "mongo_UpdateTaskRun drv c r m =
     (let (r1, m1) = (if run_FinishedAt r = None \<and>
                         run_Status r \<in> {TaskRunStatusSucceeded, TaskRunStatusFailed, TaskRunStatusStopped}
                      then (let (now, m') = Now drv m in (r\<lparr>run_FinishedAt := Some now\<rparr>, m'))
                      else (r, m));
          (r2, m2) = backfill_repository drv c r1 m1;
          (e, m3) = mongo_update drv c taskRunsCollection ''task run'' False
                      [(''run_id'', BEq (run_ID r2))] (DocRun r2) m2
      in ((e, r2), m3))"

definition mongo_GetTaskRun :: "'m driver \<Rightarrow> ctx \<Rightarrow> string \<Rightarrow> ('m, task_run) reader" where
  "mongo_GetTaskRun drv c i = mongo_get drv c taskRunsCollection ''task run'' [(''run_id'', BEq i)] as_run"

text \<open>The number of events of each run, zero for a run without events.\<close>

definition fetchEventCounts :: "'m driver \<Rightarrow> ctx \<Rightarrow> string list \<Rightarrow> ('m, string \<Rightarrow> int) reader" where
  "fetchEventCounts drv c ids m =
     (if ids = [] then (Inr (\<lambda>_. 0), m)
      else case GroupCount drv (withTimeout (withTimeout c)) sessionEventsCollection
                  [(''run_id'', BIn ids)] ''run_id'' m of
          (Inl e, m') \<Rightarrow> (Inl (Wrapf ''aggregate session events'' e), m')
        | (Inr cur, m') \<Rightarrow>
            (case read_cursor ''session events aggregate'' ''session events aggregate'' Inr cur of
               Inl e \<Rightarrow> (Inl e, m')
             | Inr rows \<Rightarrow> (Inr (\<lambda>i. case map_of (rev rows) i of Some n \<Rightarrow> n | None \<Rightarrow> 0), m')))"

definition summarize :: "'m driver \<Rightarrow> ctx \<Rightarrow> task_run list \<Rightarrow> ('m, task_run_summary list) reader" where
  "summarize drv c runs m =
     (case fetchEventCounts drv c (map run_ID runs) m of
        (Inl e, m') \<Rightarrow> (Inl e, m')
      | (Inr counts, m') \<Rightarrow> (Inr (map (\<lambda>r. (r, counts (run_ID r))) runs), m'))"

definition mongo_ListTaskRuns :: "'m driver \<Rightarrow> ctx \<Rightarrow> string \<Rightarrow> ('m, task_run_summary list) reader" where
  "mongo_ListTaskRuns drv c i m =
     (case mongo_list drv c taskRunsCollection ''task runs'' ''task run'' ''task runs''
             (if TrimSpace i \<noteq> [] then [(''batch_id'', BEq i)] else []) (''started_at'', - 1) None as_run m of
        (Inl e, m') \<Rightarrow> (Inl e, m')
      | (Inr runs, m') \<Rightarrow> (if runs = [] then (Inr [], m') else summarize drv c runs m'))"

definition mongo_ListTaskRunsByRepository ::
    "'m driver \<Rightarrow> ctx \<Rightarrow> string \<Rightarrow> ('m, task_run_summary list) reader" where
  "mongo_ListTaskRunsByRepository drv c i m =
     (case mongo_list drv c taskRunsCollection ''task runs by repo'' ''task run'' ''task runs''
             [(''repository_id'', BEq i)] (''started_at'', - 1) None as_run m of
        (Inl e, m') \<Rightarrow> (Inl e, m')
      | (Inr runs, m') \<Rightarrow> summarize drv c runs m')"

definition mongo_InsertSessionEvent ::
    "'m driver \<Rightarrow> ctx \<Rightarrow> session_event \<Rightarrow> ('m, go_error option) act" where
  "mongo_InsertSessionEvent drv c e =
     mongo_insert drv c sessionEventsCollection ''session event'' False (DocEvent e)"

definition mongo_ListSessionEvents :: "'m driver \<Rightarrow> ctx \<Rightarrow> string \<Rightarrow> ('m, session_event list) reader" where
  "mongo_ListSessionEvents drv c i =
     mongo_list drv c sessionEventsCollection ''session events'' ''session event'' ''session events''
       [(''session_id'', BEq i)] (''ingested_at'', 1) None as_event"

section \<open>Batch progress\<close>

definition no_progress :: batch_progress where
  "no_progress = \<lparr>pr_Total = 0, pr_Pending = 0, pr_Running = 0, pr_Succeeded = 0, pr_Failed = 0, pr_Stopped = 0\<rparr>"

definition updateProgressCounts :: "batch_progress \<Rightarrow> task_run_status \<Rightarrow> int \<Rightarrow> batch_progress" where
  "updateProgressCounts p s n =
     (if n = 0 then p
      else let p1 = p\<lparr>pr_Total := pr_Total p + n\<rparr> in
        (case s of
           TaskRunStatusRunning \<Rightarrow> p1\<lparr>pr_Running := pr_Running p1 + n\<rparr>
         | TaskRunStatusSucceeded \<Rightarrow> p1\<lparr>pr_Succeeded := pr_Succeeded p1 + n\<rparr>
         | TaskRunStatusFailed \<Rightarrow> p1\<lparr>pr_Failed := pr_Failed p1 + n\<rparr>
         | TaskRunStatusTimedOut \<Rightarrow> p1\<lparr>pr_Failed := pr_Failed p1 + n\<rparr>
         | TaskRunStatusStopped \<Rightarrow> p1\<lparr>pr_Stopped := pr_Stopped p1 + n\<rparr>
         | TaskRunStatusOther x \<Rightarrow> p1\<lparr>pr_Pending := pr_Pending p1 + n\<rparr>))"

fun sum_progress :: "batch_progress \<Rightarrow> (string \<times> int) list \<Rightarrow> batch_progress" where
  "sum_progress p [] = p"
| "sum_progress p ((s, n) # rows) = sum_progress (updateProgressCounts p (task_run_status_of s) n) rows"

definition fix_pending :: "batch_progress \<Rightarrow> batch_progress" where
  "fix_pending p =
     (let counted = pr_Running p + pr_Succeeded p + pr_Failed p + pr_Stopped p
      in if pr_Pending p = 0 then p\<lparr>pr_Pending := pr_Total p - counted\<rparr> else p)"

definition mongo_GetBatchProgress :: "'m driver \<Rightarrow> ctx \<Rightarrow> string \<Rightarrow> ('m, batch_progress) reader" where
  "mongo_GetBatchProgress drv c i m =
     (case GroupCount drv (withTimeout c) taskRunsCollection [(''batch_id'', BEq i)] ''status'' m of
        (Inl e, m') \<Rightarrow> (Inl (Wrapf ''aggregate progress'' e), m')
      | (Inr cur, m') \<Rightarrow>
          (case read_cursor ''progress'' ''progress'' Inr cur of
             Inl e \<Rightarrow> (Inl e, m')
           | Inr rows \<Rightarrow> (Inr (fix_pending (sum_progress no_progress rows)), m')))"

section \<open>The client as a storage\<close>

definition mongo_storage :: "'m driver \<Rightarrow> 'm storage" where
  "mongo_storage drv =
     \<lparr>CreateRepository = mongo_CreateRepository drv,
      UpdateRepository = mongo_UpdateRepository drv,
      GetRepository = mongo_GetRepository drv,
      ListRepositories = mongo_ListRepositories drv,
      DeleteRepository = mongo_DeleteRepository drv,
      RepositoryHasActiveBatches = mongo_RepositoryHasActiveBatches drv,
      CreateAgent = mongo_CreateAgent drv,
      UpdateAgent = mongo_UpdateAgent drv,
      GetAgent = mongo_GetAgent drv,
      ListAgents = mongo_ListAgents drv,
      DeleteAgent = mongo_DeleteAgent drv,
      CreateBatch = mongo_CreateBatch drv,
      UpdateBatch = mongo_UpdateBatch drv,
      GetBatch = mongo_GetBatch drv,
      ListBatches = mongo_ListBatches drv,
      ListBatchesByRepository = mongo_ListBatchesByRepository drv,
      CreateTaskRun = mongo_CreateTaskRun drv,
      UpdateTaskRun = mongo_UpdateTaskRun drv,
      GetTaskRun = mongo_GetTaskRun drv,
      ListTaskRunsByRepository = mongo_ListTaskRunsByRepository drv,
      ListTaskRuns = mongo_ListTaskRuns drv,
      InsertSessionEvent = mongo_InsertSessionEvent drv,
      ListSessionEvents = mongo_ListSessionEvents drv,
      GetBatchProgress = mongo_GetBatchProgress drv\<rparr>"

lemma mongo_storage_simps [simp]:
  "UpdateBatch (mongo_storage drv) = mongo_UpdateBatch drv"
  "GetBatch (mongo_storage drv) = mongo_GetBatch drv"
  "ListBatches (mongo_storage drv) = mongo_ListBatches drv"
  "CreateBatch (mongo_storage drv) = mongo_CreateBatch drv"
  "ListBatchesByRepository (mongo_storage drv) = mongo_ListBatchesByRepository drv"
  "UpdateAgent (mongo_storage drv) = mongo_UpdateAgent drv"
  "GetAgent (mongo_storage drv) = mongo_GetAgent drv"
  "ListAgents (mongo_storage drv) = mongo_ListAgents drv"
  "CreateAgent (mongo_storage drv) = mongo_CreateAgent drv"
  "DeleteAgent (mongo_storage drv) = mongo_DeleteAgent drv"
  "GetRepository (mongo_storage drv) = mongo_GetRepository drv"
  "CreateRepository (mongo_storage drv) = mongo_CreateRepository drv"
  "UpdateRepository (mongo_storage drv) = mongo_UpdateRepository drv"
  "DeleteRepository (mongo_storage drv) = mongo_DeleteRepository drv"
  "ListRepositories (mongo_storage drv) = mongo_ListRepositories drv"
  "RepositoryHasActiveBatches (mongo_storage drv) = mongo_RepositoryHasActiveBatches drv"
  by (simp_all add: mongo_storage_def)

end
