(* ===== verification/Mongo_Refinement.thy ===== *)
theory Mongo_Refinement
  imports Mongo_Store
begin

text \<open>
  The Mongo client implements the contract of \<open>Store_Interface\<close>, for every driver that behaves as
  its documentation says (\<open>driver_ok\<close>).  A driver that satisfies it, over lists of documents, is
  \<open>list_driver\<close>: it shows that the hypothesis can hold and gives the interpretation of the
  contract's locales on the client.
\<close>

section \<open>What a document looks like once it is stored\<close>

text \<open>A BSON date has millisecond precision; the zero time is a whole number of them.\<close>

definition bson_time :: "go_time \<Rightarrow> go_time" where
  "bson_time t = t - t mod 10 ^ 6"

definition bson_batch :: "batch \<Rightarrow> batch" where
  "bson_batch b =
     b\<lparr>batch_CreatedAt := bson_time (batch_CreatedAt b), batch_UpdatedAt := bson_time (batch_UpdatedAt b)\<rparr>"

definition bson_agent :: "agent \<Rightarrow> agent" where
  "bson_agent a =
     a\<lparr>agent_CreatedAt := bson_time (agent_CreatedAt a), agent_UpdatedAt := bson_time (agent_UpdatedAt a)\<rparr>"

definition bson_repository :: "repository \<Rightarrow> repository" where
  "bson_repository r =
     r\<lparr>repo_CreatedAt := bson_time (repo_CreatedAt r), repo_UpdatedAt := bson_time (repo_UpdatedAt r)\<rparr>"

definition bson_run :: "task_run \<Rightarrow> task_run" where
  "bson_run r =
     r\<lparr>run_StartedAt := bson_time (run_StartedAt r),
       run_FinishedAt := map_option bson_time (run_FinishedAt r)\<rparr>"

text \<open>
  A nested document comes back in the type of the map around it, here \<^verbatim>\<open>copilot.RawEvent\<close>: the rule of
  package \<^verbatim>\<open>bson\<close> that an embedded document unmarshals to the parent type.
\<close>

primrec bson_value :: "json \<Rightarrow> json" where
  "bson_value JNull = JNull"
| "bson_value (JBool b) = JBool b"
| "bson_value (JNumber n) = JNumber n"
| "bson_value (JString s) = JString s"
| "bson_value (JArray js) = JArray (map bson_value js)"
| "bson_value (JObject m) = JRawEvent (map (map_prod id bson_value) m)"
| "bson_value (JRawEvent m) = JRawEvent (map (map_prod id bson_value) m)"

definition bson_event :: "session_event \<Rightarrow> session_event" where
  "bson_event e =
     e\<lparr>ev_IngestedAt := bson_time (ev_IngestedAt e), ev_Event := map (map_prod id bson_value) (ev_Event e)\<rparr>"

fun bson_doc :: "doc \<Rightarrow> doc" where
  "bson_doc (DocRepository r) = DocRepository (bson_repository r)"
| "bson_doc (DocAgent a) = DocAgent (bson_agent a)"
| "bson_doc (DocBatch b) = DocBatch (bson_batch b)"
| "bson_doc (DocRun r) = DocRun (bson_run r)"
| "bson_doc (DocEvent e) = DocEvent (bson_event e)"

text \<open>
  \<^verbatim>\<open>{"$set": doc}\<close> writes every field of the struct but the empty ones tagged \<^verbatim>\<open>omitempty\<close>, which
  keep what the stored document has.
\<close>

fun set_doc :: "doc \<Rightarrow> doc \<Rightarrow> doc" where
  "set_doc (DocBatch o') (DocBatch n) =
     DocBatch (bson_batch
       (n\<lparr>batch_Summary := (if batch_Summary n = [] then batch_Summary o' else batch_Summary n),
          batch_SessionName := (if batch_SessionName n = [] then batch_SessionName o' else batch_SessionName n)\<rparr>))"
| "set_doc (DocRun o') (DocRun n) =
     DocRun (bson_run
       (n\<lparr>run_FinishedAt := (if run_FinishedAt n = None then run_FinishedAt o' else run_FinishedAt n),
          run_Result := (if run_Result n = None then run_Result o' else run_Result n)\<rparr>))"
| "set_doc old n = bson_doc n"

fun replace_first :: "('a \<Rightarrow> bool) \<Rightarrow> ('a \<Rightarrow> 'a) \<Rightarrow> 'a list \<Rightarrow> 'a list" where
  "replace_first P f [] = []"
| "replace_first P f (x # xs) = (if P x then f x # xs else x # replace_first P f xs)"

fun delete_first :: "('a \<Rightarrow> bool) \<Rightarrow> 'a list \<Rightarrow> 'a list" where
  "delete_first P [] = []"
| "delete_first P (x # xs) = (if P x then xs else x # delete_first P xs)"

section \<open>The documented behaviour of the driver\<close>

text \<open>
  \<open>docs m k\<close> lists the documents of collection \<open>k\<close> in natural order.  A write that fails has
  changed nothing or what it was asked to change.
\<close>

definition insert_ok :: "'m driver \<Rightarrow> ('m \<Rightarrow> string \<Rightarrow> doc list) \<Rightarrow> bool" where
  "insert_ok drv docs \<longleftrightarrow>
     (\<forall>c k d m r m'. InsertOne drv c k d m = (r, m') \<longrightarrow>
        (let done = (docs m)(k := docs m k @ [bson_doc d])
         in (case r of None \<Rightarrow> docs m' = done | Some e \<Rightarrow> docs m' = docs m \<or> docs m' = done)))"

definition update_ok :: "'m driver \<Rightarrow> ('m \<Rightarrow> string \<Rightarrow> doc list) \<Rightarrow> bool" where
  "update_ok drv docs \<longleftrightarrow>
     (\<forall>c k f d m r m'. UpdateOne drv c k f d m = (r, m') \<longrightarrow>
        (let done = (docs m)(k := replace_first (matches f) (\<lambda>old. set_doc old d) (docs m k))
         in (case r of
               Inr n \<Rightarrow> docs m' = done \<and> (n = 0 \<longleftrightarrow> \<not> list_ex (matches f) (docs m k))
             | Inl e \<Rightarrow> docs m' = docs m \<or> docs m' = done)))"

definition find_ok :: "'m driver \<Rightarrow> ('m \<Rightarrow> string \<Rightarrow> doc list) \<Rightarrow> bool" where
  "find_ok drv docs \<longleftrightarrow>
     (\<forall>c k f m r m'. FindOne drv c k f m = (r, m') \<longrightarrow>
        docs m' = docs m \<and> (\<forall>d. r = Inr d \<longrightarrow> List.find (matches f) (docs m k) = Some d)) \<and>
     (\<forall>c k f s l m r m'. Find drv c k f s l m = (r, m') \<longrightarrow>
        docs m' = docs m \<and>
        (\<forall>cur. r = Inr cur \<longrightarrow>
           (\<forall>d. Inr d \<in> set (fst cur) \<longrightarrow> d \<in> set (docs m k) \<and> matches f d) \<and>
           (\<forall>n. l = Some n \<longrightarrow> 0 < n \<longrightarrow> int (length (fst cur)) \<le> n)))"

definition delete_ok :: "'m driver \<Rightarrow> ('m \<Rightarrow> string \<Rightarrow> doc list) \<Rightarrow> bool" where
  "delete_ok drv docs \<longleftrightarrow>
     (\<forall>c k f m r m'. DeleteOne drv c k f m = (r, m') \<longrightarrow>
        (let done = (docs m)(k := delete_first (matches f) (docs m k))
         in (case r of
               Inr n \<Rightarrow> docs m' = done \<and> (n = 0 \<longleftrightarrow> \<not> list_ex (matches f) (docs m k))
             | Inl e \<Rightarrow> docs m' = docs m \<or> docs m' = done)))"

definition count_ok :: "'m driver \<Rightarrow> ('m \<Rightarrow> string \<Rightarrow> doc list) \<Rightarrow> bool" where
  "count_ok drv docs \<longleftrightarrow>
     (\<forall>c k f m r m'. CountDocuments drv c k f m = (r, m') \<longrightarrow>
        docs m' = docs m \<and> (\<forall>n. r = Inr n \<longrightarrow> n = int (length (filter (matches f) (docs m k)))))"

text \<open>
  Grouping yields one row per value of the field among the matching documents, with the number
  of documents that have it (a claim about documents that all have the field).
\<close>

definition group_rows :: "bson_filter \<Rightarrow> string \<Rightarrow> doc list \<Rightarrow> (string \<times> int) list \<Rightarrow> bool" where
  "group_rows f g ds rows \<longleftrightarrow>
     distinct (map fst rows) \<and>
     set (map fst rows) = {v. \<exists>d \<in> set ds. matches f d \<and> doc_field d g = Some v} \<and>
     (\<forall>(v, n) \<in> set rows. n = int (length (filter (\<lambda>d. matches f d \<and> doc_field d g = Some v) ds)))"

definition group_ok :: "'m driver \<Rightarrow> ('m \<Rightarrow> string \<Rightarrow> doc list) \<Rightarrow> bool" where
  "group_ok drv docs \<longleftrightarrow>
     (\<forall>c k f g m r m'. GroupCount drv c k f g m = (r, m') \<longrightarrow>
        docs m' = docs m \<and>
        (\<forall>rows. r = Inr (map Inr rows, None) \<longrightarrow>
           (\<forall>d \<in> set (docs m k). matches f d \<longrightarrow> doc_field d g \<noteq> None) \<longrightarrow>
           group_rows f g (docs m k) rows))"

definition now_ok :: "'m driver \<Rightarrow> ('m \<Rightarrow> string \<Rightarrow> doc list) \<Rightarrow> bool" where
  "now_ok drv docs \<longleftrightarrow> (\<forall>m t m'. Now drv m = (t, m') \<longrightarrow> docs m' = docs m)"

definition driver_ok :: "'m driver \<Rightarrow> ('m \<Rightarrow> string \<Rightarrow> doc list) \<Rightarrow> bool" where
  "driver_ok drv docs \<longleftrightarrow>
     now_ok drv docs \<and> insert_ok drv docs \<and> update_ok drv docs \<and> find_ok drv docs \<and>
     delete_ok drv docs \<and> count_ok drv docs \<and> group_ok drv docs"

section \<open>The views of the stored batches and agents\<close>

definition batch_view :: "('m \<Rightarrow> string \<Rightarrow> doc list) \<Rightarrow> 'm \<Rightarrow> string \<Rightarrow> batch option" where
  "batch_view docs m i =
     (case List.find (matches [(''batch_id'', BEq i)]) (docs m batchesCollection) of
        Some (DocBatch b) \<Rightarrow> Some (batch_core b)
      | _ \<Rightarrow> None)"

definition agent_view :: "('m \<Rightarrow> string \<Rightarrow> doc list) \<Rightarrow> 'm \<Rightarrow> string \<Rightarrow> agent option" where
  "agent_view docs m i =
     (case List.find (matches [(''agent_id'', BEq i)]) (docs m agentsCollection) of
        Some (DocAgent a) \<Rightarrow> Some (agent_core a)
      | _ \<Rightarrow> None)"

text \<open>
  Batch identifiers are unique in the collection (the index on \<^verbatim>\<open>batch_id\<close> that the client creates is
  unique), and it holds batches only.
\<close>

definition unique_batches :: "('m \<Rightarrow> string \<Rightarrow> doc list) \<Rightarrow> 'm \<Rightarrow> bool" where
  "unique_batches docs m \<longleftrightarrow>
     (\<forall>d \<in> set (docs m batchesCollection). \<exists>b. d = DocBatch b) \<and>
     (\<forall>b b'. DocBatch b \<in> set (docs m batchesCollection) \<longrightarrow> DocBatch b' \<in> set (docs m batchesCollection) \<longrightarrow>
        batch_ID b = batch_ID b' \<longrightarrow> b = b')"

lemma matches_batch_id [simp]: "matches [(''batch_id'', BEq i)] (DocBatch b) \<longleftrightarrow> batch_ID b = i"
  by (simp add: matches_def cond_holds_def batch_field_def)

lemma matches_agent_id [simp]: "matches [(''agent_id'', BEq i)] (DocAgent a) \<longleftrightarrow> agent_ID a = i"
  by (simp add: matches_def cond_holds_def agent_field_def)

lemma matches_eq_unique:
  "matches [(k, BEq i)] d \<Longrightarrow> matches [(k, BEq j)] d \<Longrightarrow> i = j"
  by (auto simp: matches_def cond_holds_def split: option.splits)

lemma bson_core [simp]:
  "batch_core (bson_batch b) = batch_core b"
  "agent_core (bson_agent a) = agent_core a"
  by (simp_all add: bson_batch_def bson_agent_def batch_core_def agent_core_def)

lemma bson_ids [simp]:
  "batch_ID (bson_batch b) = batch_ID b" "agent_ID (bson_agent a) = agent_ID a"
  by (simp_all add: bson_batch_def bson_agent_def)

lemma set_doc_batch:
  "\<exists>b'. set_doc old (DocBatch b) = DocBatch b' \<and> batch_core b' = batch_core b \<and> batch_ID b' = batch_ID b"
  by (cases old) auto

lemma set_doc_agent:
  "\<exists>a'. set_doc old (DocAgent a) = DocAgent a' \<and> agent_core a' = agent_core a \<and> agent_ID a' = agent_ID a"
  by (cases old) auto

text \<open>Looking up after a replacement: the new document under its key, the old ones elsewhere.\<close>

lemma find_replace_first_hit:
  "list_ex P xs \<Longrightarrow> (\<And>x. P (f x)) \<Longrightarrow>
     \<exists>x. List.find P (replace_first P f xs) = Some (f x)"
  by (induction xs) auto

lemma find_replace_first_other:
  "(\<And>x. P x \<Longrightarrow> \<not> Q x) \<Longrightarrow> (\<And>x. \<not> Q (f x)) \<Longrightarrow>
     List.find Q (replace_first P f xs) = List.find Q xs"
  by (induction xs) auto

lemma replace_first_none: "\<not> list_ex P xs \<Longrightarrow> replace_first P f xs = xs"
  by (induction xs) auto

lemma find_none_iff_ex: "List.find P xs = None \<longleftrightarrow> \<not> list_ex P xs"
  by (induction xs) auto

lemma find_replaced_key:
  assumes ex: "list_ex (matches [(k, BEq j)]) xs" and hit: "\<And>x. matches [(k, BEq j)] (f x)"
  shows "\<exists>x. List.find (matches [(k, BEq i)]) (replace_first (matches [(k, BEq j)]) f xs) =
           (if i = j then Some (f x) else List.find (matches [(k, BEq i)]) xs)"
proof (cases "i = j")
  case True
  with find_replace_first_hit [OF ex, where f = f] hit show ?thesis by auto
next
  case False
  have "List.find (matches [(k, BEq i)]) (replace_first (matches [(k, BEq j)]) f xs) =
          List.find (matches [(k, BEq i)]) xs"
    using False hit matches_eq_unique by (intro find_replace_first_other) metis+
  with False show ?thesis by simp
qed

lemma batch_view_replaced:
  assumes "docs m' = (docs m)(batchesCollection :=
             replace_first (matches [(''batch_id'', BEq (batch_ID b))]) (\<lambda>old. set_doc old (DocBatch b))
               (docs m batchesCollection))"
    and ex: "list_ex (matches [(''batch_id'', BEq (batch_ID b))]) (docs m batchesCollection)"
  shows "batch_view docs m' = (batch_view docs m)(batch_ID b \<mapsto> batch_core b)"
proof
  fix i
  have hit: "matches [(''batch_id'', BEq (batch_ID b))] (set_doc x (DocBatch b))" for x
    using set_doc_batch [of x b] by auto
  obtain x where "List.find (matches [(''batch_id'', BEq i)]) (docs m' batchesCollection) =
      (if i = batch_ID b then Some (set_doc x (DocBatch b))
       else List.find (matches [(''batch_id'', BEq i)]) (docs m batchesCollection))"
    using find_replaced_key [OF ex, where f = "\<lambda>old. set_doc old (DocBatch b)", OF hit] assms(1)
    by fastforce
  then show "batch_view docs m' i = ((batch_view docs m)(batch_ID b \<mapsto> batch_core b)) i"
    using set_doc_batch [of x b] by (auto simp: batch_view_def)
qed

lemma agent_view_replaced:
  assumes "docs m' = (docs m)(agentsCollection :=
             replace_first (matches [(''agent_id'', BEq (agent_ID a))]) (\<lambda>old. set_doc old (DocAgent a))
               (docs m agentsCollection))"
    and ex: "list_ex (matches [(''agent_id'', BEq (agent_ID a))]) (docs m agentsCollection)"
  shows "agent_view docs m' = (agent_view docs m)(agent_ID a \<mapsto> agent_core a)"
proof
  fix i
  have hit: "matches [(''agent_id'', BEq (agent_ID a))] (set_doc x (DocAgent a))" for x
    using set_doc_agent [of x a] by auto
  obtain x where "List.find (matches [(''agent_id'', BEq i)]) (docs m' agentsCollection) =
      (if i = agent_ID a then Some (set_doc x (DocAgent a))
       else List.find (matches [(''agent_id'', BEq i)]) (docs m agentsCollection))"
    using find_replaced_key [OF ex, where f = "\<lambda>old. set_doc old (DocAgent a)", OF hit] assms(1)
    by fastforce
  then show "agent_view docs m' i = ((agent_view docs m)(agent_ID a \<mapsto> agent_core a)) i"
    using set_doc_agent [of x a] by (auto simp: agent_view_def)
qed

lemma view_frames:
  "docs m' = docs m \<Longrightarrow> batch_view docs m' = batch_view docs m"
  "docs m' = docs m \<Longrightarrow> agent_view docs m' = agent_view docs m"
  "docs m' = (docs m)(agentsCollection := xs) \<Longrightarrow> batch_view docs m' = batch_view docs m"
  "docs m' = (docs m)(batchesCollection := xs) \<Longrightarrow> agent_view docs m' = agent_view docs m"
  by (simp_all add: batch_view_def agent_view_def collections fun_eq_iff)

section \<open>The operations on the views\<close>

text \<open>A write through the shared shape: it replaced the first match, or it failed.\<close>

lemma mongo_update_docs:
  assumes "driver_ok drv docs" and "mongo_update drv c k what uniq f d m = (r, m')"
  shows "docs m' = docs m \<and> (r = None \<longrightarrow> False) \<or>
         docs m' = (docs m)(k := replace_first (matches f) (\<lambda>old. set_doc old d) (docs m k)) \<and>
         (r = None \<longrightarrow> list_ex (matches f) (docs m k))"
proof -
  have upd: "update_ok drv docs" using assms(1) by (simp add: driver_ok_def)
  obtain q m1 where q: "UpdateOne drv (withTimeout c) k f d m = (q, m1)" by fastforce
  with upd have "let done = (docs m)(k := replace_first (matches f) (\<lambda>old. set_doc old d) (docs m k))
     in (case q of
           Inr n \<Rightarrow> docs m1 = done \<and> (n = 0 \<longleftrightarrow> \<not> list_ex (matches f) (docs m k))
         | Inl e \<Rightarrow> docs m1 = docs m \<or> docs m1 = done)"
    unfolding update_ok_def by blast
  with q assms(2) show ?thesis
    by (auto simp: mongo_update_def Let_def split: sum.splits if_splits)
qed

lemma mongo_insert_docs:
  assumes "driver_ok drv docs" and "mongo_insert drv c k what uniq d m = (r, m')"
  shows "docs m' = (docs m)(k := docs m k @ [bson_doc d]) \<or> r \<noteq> None \<and> docs m' = docs m"
proof -
  have ins: "insert_ok drv docs" using assms(1) by (simp add: driver_ok_def)
  obtain q m1 where q: "InsertOne drv (withTimeout c) k d m = (q, m1)" by fastforce
  with ins have "let done = (docs m)(k := docs m k @ [bson_doc d])
     in (case q of None \<Rightarrow> docs m1 = done | Some e \<Rightarrow> docs m1 = docs m \<or> docs m1 = done)"
    unfolding insert_ok_def by blast
  with q assms(2) show ?thesis by (auto simp: mongo_insert_def Let_def split: option.splits)
qed

lemma driver_now: "driver_ok drv docs \<Longrightarrow> Now drv m = (t, m') \<Longrightarrow> docs m' = docs m"
  unfolding driver_ok_def now_ok_def by blast

lemma driver_find_one:
  "driver_ok drv docs \<Longrightarrow> FindOne drv c k f m = (r, m') \<Longrightarrow>
     docs m' = docs m \<and> (\<forall>d. r = Inr d \<longrightarrow> List.find (matches f) (docs m k) = Some d)"
  unfolding driver_ok_def find_ok_def by blast

lemma driver_find:
  "driver_ok drv docs \<Longrightarrow> Find drv c k f s l m = (r, m') \<Longrightarrow> docs m' = docs m"
  unfolding driver_ok_def find_ok_def by blast

lemma driver_find_docs:
  assumes "driver_ok drv docs" and "Find drv c k f s l m = (Inr cur, m')"
  shows "(\<forall>d. Inr d \<in> set (fst cur) \<longrightarrow> d \<in> set (docs m k) \<and> matches f d) \<and>
    (\<forall>n. l = Some n \<longrightarrow> 0 < n \<longrightarrow> int (length (fst cur)) \<le> n)"
proof -
  have "find_ok drv docs" using assms(1) by (simp add: driver_ok_def)
  note fo = conjunct2 [OF this [unfolded find_ok_def]]
  from fo [rule_format, OF assms(2)] show ?thesis by simp
qed

lemma mongo_get_docs:
  assumes "driver_ok drv docs" and "mongo_get drv c k what f as m = (r, m')"
  shows "docs m' = docs m \<and>
    (\<forall>x. r = Inr x \<longrightarrow> (\<exists>d. List.find (matches f) (docs m k) = Some d \<and> as d = Inr x))"
proof -
  obtain q m1 where q: "FindOne drv (withTimeout c) k f m = (q, m1)" by fastforce
  from driver_find_one [OF assms(1) q] q assms(2) show ?thesis
    by (auto simp: mongo_get_def split: sum.splits)
qed

lemma mongo_list_docs:
  assumes "driver_ok drv docs" and "mongo_list drv c k w1 w2 w3 f s l as m = (r, m')"
  shows "docs m' = docs m"
proof -
  obtain q m1 where q: "Find drv (withTimeout c) k f s l m = (q, m1)" by fastforce
  from driver_find [OF assms(1) q] q assms(2) show ?thesis
    by (auto simp: mongo_list_def split: sum.splits)
qed

text \<open>What a read cursor returns was decoded from one of its rows.\<close>

lemma drain_mem: "drain what f rows = Inr xs \<Longrightarrow> x \<in> set xs \<Longrightarrow> \<exists>d. Inr d \<in> set rows \<and> f d = Inr x"
  by (induction what f rows arbitrary: xs rule: drain.induct) (fastforce split: sum.splits)+

lemma mongo_list_mem:
  assumes "mongo_list drv c k w1 w2 w3 f s l as m = (Inr xs, m')" and "x \<in> set xs"
  shows "\<exists>cur m1 d. Find drv (withTimeout c) k f s l m = (Inr cur, m1) \<and> Inr d \<in> set (fst cur) \<and> as d = Inr x"
proof -
  obtain cur m1 where f: "Find drv (withTimeout c) k f s l m = (Inr cur, m1)" and r: "read_cursor w2 w3 as cur = Inr xs"
    using assms(1) by (auto simp: mongo_list_def split: prod.splits sum.splits)
  have "drain w2 as (fst cur) = Inr xs" using r by (auto simp: read_cursor_def split: sum.splits option.splits)
  from drain_mem [OF this assms(2)] f show ?thesis by blast
qed

lemma norm_items_set: "items_set its \<Longrightarrow> map norm_item its = its"
  by (induction its) (auto simp: items_set_def item_set_def norm_item_def)

lemma mongo_UpdateBatch_doc:
  assumes "mongo_UpdateBatch drv c b m = ((r, b'), m')"
  shows "batch_core b' = (batch_core b)\<lparr>batch_Items := map norm_item (batch_Items b)\<rparr>"
  using assms
  by (auto simp: mongo_UpdateBatch_def Let_def batch_core_def split: prod.splits)

lemma mongo_UpdateBatch_view:
  assumes ok: "driver_ok drv docs" and upd: "mongo_UpdateBatch drv c b m = ((r, b'), m')"
  shows "batch_view docs m' = (batch_view docs m)(batch_ID b \<mapsto> batch_core b') \<or>
         r \<noteq> None \<and> batch_view docs m' = batch_view docs m"
    and "agent_view docs m' = agent_view docs m"
proof -
  obtain t m1 where now: "Now drv m = (t, m1)" by fastforce
  have b': "b' = b\<lparr>batch_Items := map norm_item (batch_Items b), batch_UpdatedAt := t\<rparr>"
    and u: "mongo_update drv c batchesCollection ''batch'' False [(''batch_id'', BEq (batch_ID b'))]
              (DocBatch b') m1 = (r, m')"
    using upd now by (auto simp: mongo_UpdateBatch_def Let_def split: prod.splits)
  have id: "batch_ID b' = batch_ID b" using b' by simp
  note d = mongo_update_docs [OF ok u] and m1 = driver_now [OF ok now]
  show "batch_view docs m' = (batch_view docs m)(batch_ID b \<mapsto> batch_core b') \<or>
         r \<noteq> None \<and> batch_view docs m' = batch_view docs m"
  proof (cases "list_ex (matches [(''batch_id'', BEq (batch_ID b'))]) (docs m1 batchesCollection)")
    case True
    from d show ?thesis
    proof (elim disjE conjE)
      assume "docs m' = docs m1" and "r = None \<longrightarrow> False"
      with m1 show ?thesis by (auto dest: view_frames)
    next
      assume "docs m' = (docs m1)(batchesCollection :=
         replace_first (matches [(''batch_id'', BEq (batch_ID b'))]) (\<lambda>old. set_doc old (DocBatch b'))
           (docs m1 batchesCollection))"
      from batch_view_replaced [OF this True] id show ?thesis by (simp add: view_frames(1) [OF m1])
    qed
  next
    case False
    with d have "r \<noteq> None" and "docs m' = docs m1" by (auto simp: replace_first_none)
    with m1 show ?thesis by (auto dest: view_frames)
  qed
  from d m1 have "\<exists>xs. docs m' = (docs m)(batchesCollection := xs)"
    by (metis fun_upd_triv)
  then show "agent_view docs m' = agent_view docs m"
    by (elim exE) (rule view_frames(4))
qed

lemma mongo_UpdateAgent_view:
  assumes ok: "driver_ok drv docs" and upd: "mongo_UpdateAgent drv c a m = ((r, a'), m')"
  shows "agent_view docs m' = (agent_view docs m)(agent_ID a \<mapsto> agent_core a') \<or>
         r \<noteq> None \<and> agent_view docs m' = agent_view docs m"
    and "batch_view docs m' = batch_view docs m"
    and "agent_core a' = agent_core a"
proof -
  obtain t m1 where now: "Now drv m = (t, m1)" by fastforce
  have a': "a' = a\<lparr>agent_UpdatedAt := t\<rparr>"
    and u: "mongo_update drv c agentsCollection ''agent'' True [(''agent_id'', BEq (agent_ID a'))]
              (DocAgent a') m1 = (r, m')"
    using upd now by (auto simp: mongo_UpdateAgent_def Let_def split: prod.splits)
  have id: "agent_ID a' = agent_ID a" using a' by simp
  note d = mongo_update_docs [OF ok u] and m1 = driver_now [OF ok now]
  show "agent_view docs m' = (agent_view docs m)(agent_ID a \<mapsto> agent_core a') \<or>
         r \<noteq> None \<and> agent_view docs m' = agent_view docs m"
  proof (cases "list_ex (matches [(''agent_id'', BEq (agent_ID a'))]) (docs m1 agentsCollection)")
    case True
    from d show ?thesis
    proof (elim disjE conjE)
      assume "docs m' = docs m1" and "r = None \<longrightarrow> False"
      with m1 show ?thesis by (auto dest: view_frames)
    next
      assume "docs m' = (docs m1)(agentsCollection :=
         replace_first (matches [(''agent_id'', BEq (agent_ID a'))]) (\<lambda>old. set_doc old (DocAgent a'))
           (docs m1 agentsCollection))"
      from agent_view_replaced [OF this True] id show ?thesis by (simp add: view_frames(2) [OF m1])
    qed
  next
    case False
    with d have "r \<noteq> None" and "docs m' = docs m1" by (auto simp: replace_first_none)
    with m1 show ?thesis by (auto dest: view_frames)
  qed
  from d m1 have "\<exists>xs. docs m' = (docs m)(agentsCollection := xs)"
    by (metis fun_upd_triv)
  then show "batch_view docs m' = batch_view docs m"
    by (elim exE) (rule view_frames(3))
  from a' show "agent_core a' = agent_core a" by simp
qed

section \<open>The client meets the contract\<close>

lemma mongo_batch_store:
  assumes ok: "driver_ok drv docs"
  shows "batch_store (mongo_storage drv) (batch_view docs)"
proof
  fix c b w b' w'
  assume "UpdateBatch (mongo_storage drv) c b w = ((None, b'), w')"
  with mongo_UpdateBatch_view(1) [OF ok, of c b w None b' w']
  show "batch_view docs w' = (batch_view docs w)(batch_ID b \<mapsto> batch_core b')" by simp
next
  fix c b w e b' w'
  assume "UpdateBatch (mongo_storage drv) c b w = ((Some e, b'), w')"
  with mongo_UpdateBatch_view(1) [OF ok, of c b w "Some e" b' w']
  show "batch_view docs w' = batch_view docs w \<or>
        batch_view docs w' = (batch_view docs w)(batch_ID b \<mapsto> batch_core b')" by auto
next
  fix c b w r b' w'
  assume "UpdateBatch (mongo_storage drv) c b w = ((r, b'), w')" and "items_set (batch_Items b)"
  then show "batch_core b' = batch_core b"
    by (auto simp: norm_items_set batch_core_def dest!: mongo_UpdateBatch_doc)
next
  fix c i w b w'
  assume "GetBatch (mongo_storage drv) c i w = (Inr b, w')"
  then have "\<exists>d. List.find (matches [(''batch_id'', BEq i)]) (docs w batchesCollection) = Some d \<and>
               as_batch d = Inr b"
    using mongo_get_docs [OF ok] by (fastforce simp: mongo_GetBatch_def)
  then obtain d where d: "List.find (matches [(''batch_id'', BEq i)]) (docs w batchesCollection) = Some d"
    and "as_batch d = Inr b" by blast
  then have "d = DocBatch b" by (cases d) auto
  moreover have "matches [(''batch_id'', BEq i)] d" using d by (metis find_Some_iff)
  ultimately show "batch_view docs w i = Some (batch_core b) \<and> batch_ID b = i"
    using d by (simp add: batch_view_def)
next
  fix c i w g w'
  assume "GetBatch (mongo_storage drv) c i w = (g, w')"
  then show "batch_view docs w' = batch_view docs w"
    using mongo_get_docs [OF ok] by (fastforce simp: mongo_GetBatch_def intro: view_frames(1))
next
  fix c n w l w'
  assume "ListBatches (mongo_storage drv) c n w = (l, w')"
  then show "batch_view docs w' = batch_view docs w"
    using mongo_list_docs [OF ok] by (fastforce simp: mongo_ListBatches_def intro: view_frames(1))
qed

lemma mongo_sched_store:
  assumes ok: "driver_ok drv docs"
  shows "sched_store (mongo_storage drv) (batch_view docs) (agent_view docs)"
proof (intro sched_store.intro mongo_batch_store [OF ok] sched_store_axioms.intro)
  fix c a w a' w'
  assume "UpdateAgent (mongo_storage drv) c a w = ((None, a'), w')"
  with mongo_UpdateAgent_view(1) [OF ok, of c a w None a' w']
  show "agent_view docs w' = (agent_view docs w)(agent_ID a \<mapsto> agent_core a')" by simp
next
  fix c a w e a' w'
  assume "UpdateAgent (mongo_storage drv) c a w = ((Some e, a'), w')"
  with mongo_UpdateAgent_view(1) [OF ok, of c a w "Some e" a' w']
  show "agent_view docs w' = agent_view docs w \<or>
        agent_view docs w' = (agent_view docs w)(agent_ID a \<mapsto> agent_core a')" by auto
next
  fix c a w r a' w'
  assume "UpdateAgent (mongo_storage drv) c a w = ((r, a'), w')"
  with mongo_UpdateAgent_view(2,3) [OF ok, of c a w r a' w']
  show "agent_core a' = agent_core a" and "batch_view docs w' = batch_view docs w" by simp_all
next
  fix c w l w'
  assume "ListAgents (mongo_storage drv) c w = (l, w')"
  then have "docs w' = docs w"
    using mongo_list_docs [OF ok] by (fastforce simp: mongo_ListAgents_def)
  then show "agent_view docs w' = agent_view docs w \<and> batch_view docs w' = batch_view docs w"
    by (intro conjI view_frames(1,2))
next
  fix c b w r b' w'
  assume "UpdateBatch (mongo_storage drv) c b w = ((r, b'), w')"
  with mongo_UpdateBatch_view(2) [OF ok, of c b w r b' w']
  show "agent_view docs w' = agent_view docs w" by simp
next
  fix c n w m w'
  assume "ListBatches (mongo_storage drv) c n w = (m, w')"
  then have "docs w' = docs w"
    using mongo_list_docs [OF ok] by (fastforce simp: mongo_ListBatches_def)
  then show "agent_view docs w' = agent_view docs w" by (rule view_frames(2))
qed

section \<open>A driver over lists of documents\<close>

text \<open>
  The state of \<open>list_driver\<close> is the documents of each collection and a clock that every reading of
  the time advances.  It never fails but for an unmatched filter; a cursor yields the matching
  documents by the sort key, up to the limit.
\<close>

fun doc_time :: "doc \<Rightarrow> string \<Rightarrow> go_time" where
  "doc_time (DocRepository r) k = (if k = ''created_at'' then repo_CreatedAt r else 0)"
| "doc_time (DocAgent a) k = (if k = ''created_at'' then agent_CreatedAt a else 0)"
| "doc_time (DocBatch b) k = (if k = ''created_at'' then batch_CreatedAt b else 0)"
| "doc_time (DocRun r) k = (if k = ''started_at'' then run_StartedAt r else 0)"
| "doc_time (DocEvent e) k = (if k = ''ingested_at'' then ev_IngestedAt e else 0)"

definition find_docs :: "bson_filter \<Rightarrow> string \<times> int \<Rightarrow> int option \<Rightarrow> doc list \<Rightarrow> doc list" where
  "find_docs f s l ds =
     (let found = sort_key (\<lambda>d. snd s * doc_time d (fst s)) (filter (matches f) ds)
      in case l of None \<Rightarrow> found | Some n \<Rightarrow> take (nat n) found)"

lemma find_docs_sound: "d \<in> set (find_docs f s l ds) \<Longrightarrow> d \<in> set ds \<and> matches f d"
  by (auto simp: find_docs_def Let_def split: option.splits dest!: in_set_takeD)

definition group_docs :: "bson_filter \<Rightarrow> string \<Rightarrow> doc list \<Rightarrow> (string \<times> int) list" where
  "group_docs f g ds =
     map (\<lambda>v. (v, int (length (filter (\<lambda>d. matches f d \<and> doc_field d g = Some v) ds))))
       (remdups (List.map_filter (\<lambda>d. if matches f d then doc_field d g else None) ds))"

lemma group_docs_rows: "group_rows f g ds (group_docs f g ds)"
proof -
  have "set (List.map_filter (\<lambda>d. if matches f d then doc_field d g else None) ds) =
      {v. \<exists>d \<in> set ds. matches f d \<and> doc_field d g = Some v}"
    by (induction ds) (auto simp: map_filter_simps split: option.splits)
  then show ?thesis by (auto simp: group_rows_def group_docs_def comp_def)
qed

lemma find_docs_limit: "0 < n \<Longrightarrow> int (length (find_docs f s (Some n) ds)) \<le> n"
  by (simp add: find_docs_def Let_def)

record list_db =
  db_docs :: "string \<Rightarrow> doc list"
  db_clock :: go_time

definition list_driver :: "'s list_db_scheme driver" where
  "list_driver =
     \<lparr>Now = (\<lambda>m. (db_clock m, m\<lparr>db_clock := db_clock m + 1\<rparr>)),
      InsertOne = (\<lambda>c k d m. (None, m\<lparr>db_docs := (db_docs m)(k := db_docs m k @ [bson_doc d])\<rparr>)),
      UpdateOne = (\<lambda>c k f d m.
        (Inr (if list_ex (matches f) (db_docs m k) then 1 else 0),
         m\<lparr>db_docs := (db_docs m)(k := replace_first (matches f) (\<lambda>old. set_doc old d) (db_docs m k))\<rparr>)),
      FindOne = (\<lambda>c k f m.
        (case List.find (matches f) (db_docs m k) of None \<Rightarrow> Inl ErrNoDocuments | Some d \<Rightarrow> Inr d, m)),
      Find = (\<lambda>c k f s l m.
        (Inr (map Inr (find_docs f s l (db_docs m k)), None), m)),
      DeleteOne = (\<lambda>c k f m.
        (Inr (if list_ex (matches f) (db_docs m k) then 1 else 0),
         m\<lparr>db_docs := (db_docs m)(k := delete_first (matches f) (db_docs m k))\<rparr>)),
      CountDocuments = (\<lambda>c k f m. (Inr (int (length (filter (matches f) (db_docs m k)))), m)),
      GroupCount = (\<lambda>c k f g m. (Inr (map Inr (group_docs f g (db_docs m k)), None), m))\<rparr>"

lemma list_driver_ok: "driver_ok list_driver db_docs"
  unfolding driver_ok_def
proof (intro conjI)
  show "now_ok list_driver db_docs" by (auto simp: now_ok_def list_driver_def)
  show "insert_ok list_driver db_docs" by (auto simp: insert_ok_def list_driver_def)
  show "update_ok list_driver db_docs" by (auto simp: update_ok_def list_driver_def)
  show "find_ok list_driver db_docs"
    by (auto simp: find_ok_def list_driver_def find_docs_limit split: option.splits dest: find_docs_sound)
  show "delete_ok list_driver db_docs" by (auto simp: delete_ok_def list_driver_def)
  show "count_ok list_driver db_docs" by (auto simp: count_ok_def list_driver_def)
  show "group_ok list_driver db_docs"
    using group_docs_rows by (auto simp: group_ok_def list_driver_def map_eq_conv dest!: map_injective)
qed

interpretation mongo: sched_store "mongo_storage list_driver" "batch_view db_docs" "agent_view db_docs"
  by (rule mongo_sched_store [OF list_driver_ok])

section \<open>A small database\<close>

definition demo_db :: "batch list \<Rightarrow> agent list \<Rightarrow> list_db" where
  "demo_db bs ags =
     \<lparr>db_docs = (\<lambda>k. if k = batchesCollection then map DocBatch bs
                    else if k = agentsCollection then map DocAgent ags
                    else if k = repositoriesCollection then [DocRepository demo_repository] else []),
      db_clock = 1\<rparr>"

end
