(* ===== verification/Scheduler_Run.thy ===== *)
theory Scheduler_Run
  imports Scheduler Mongo_Refinement
begin

text \<open>
  What a run of \<open>Tick\<close> does to the stored batches and agents.  The stages are followed inside the
  locale \<^verbatim>\<open>sched_store\<close>, for any store that keeps the contract; the properties state the
  results for the Mongo client over any driver that behaves as documented.
\<close>

section \<open>The stages over the contract\<close>

lemma items_set_core: "batch_core b = batch_core b' \<Longrightarrow> items_set (batch_Items b) = items_set (batch_Items b')"
  by (metis batch_core_simps(3))

context sched_store begin

text \<open>A claim that succeeds has stored the batch with the item in progress and the agent busy.\<close>

lemma claim_ok:
  assumes "claim_stage st c ag b i s = (Inr (b1, a1), s')" and "items_set (batch_Items b)"
  shows "batch_core b1 = batch_core (claim_item i b)"
    and "agent_core a1 = agent_core (ag\<lparr>agent_Status := AgentStatusBusy\<rparr>)"
    and "batch_at s' = (batch_at s)(batch_ID b \<mapsto> batch_core (claim_item i b))"
    and "agent_at s' = (agent_at s)(agent_ID ag \<mapsto> agent_core (ag\<lparr>agent_Status := AgentStatusBusy\<rparr>))"
proof -
  from assms(1) obtain s1 where
    ub: "UpdateBatch st c (claim_item i b) s = ((None, b1), s1)" and
    ua: "UpdateAgent st c (ag\<lparr>agent_Status := AgentStatusBusy\<rparr>) s1 = ((None, a1), s')"
    by (auto simp: claim_stage_def split: prod.splits option.splits)
  have set: "items_set (batch_Items (claim_item i b))" using assms(2) by (rule items_set_claim)
  show "batch_core b1 = batch_core (claim_item i b)" by (rule update_batch_doc [OF ub set])
  show a: "agent_core a1 = agent_core (ag\<lparr>agent_Status := AgentStatusBusy\<rparr>)"
    by (rule update_agent_doc [OF ua])
  show "batch_at s' = (batch_at s)(batch_ID b \<mapsto> batch_core (claim_item i b))"
    using update_agent_batches [OF ua] update_batch_stores [OF ub set] by simp
  show "agent_at s' = (agent_at s)(agent_ID ag \<mapsto> agent_core (ag\<lparr>agent_Status := AgentStatusBusy\<rparr>))"
    using update_agent_ok [OF ua] update_batch_agents [OF ub] a by simp
qed

text \<open>The shape of a failed claim: the batch was not written, or the agent was not and the batch
  was released again.\<close>

lemma claim_failed:
  assumes "claim_stage st c ag b i s = (Inl e, s')" and set: "items_set (batch_Items b)"
    and i: "i < length (batch_Items b)" "item_Status (batch_Items b ! i) = ItemStatusPending"
  shows "batch_at s' = batch_at s \<or>
         batch_at s' = (batch_at s)(batch_ID b \<mapsto> batch_core (claim_item i b)) \<or>
         batch_at s' = (batch_at s)(batch_ID b \<mapsto> batch_core (b\<lparr>batch_Status := BatchStatusPending\<rparr>))"
    and "agent_at s' = agent_at s \<or>
         agent_at s' = (agent_at s)(agent_ID ag \<mapsto> agent_core (ag\<lparr>agent_Status := AgentStatusBusy\<rparr>))"
proof -
  have set1: "items_set (batch_Items (claim_item i b))" using set by (rule items_set_claim)
  obtain r1 b1 s1 where ub: "UpdateBatch st c (claim_item i b) s = ((r1, b1), s1)"
    by (metis prod.collapse)
  have b1: "batch_core b1 = batch_core (claim_item i b)" by (rule update_batch_doc [OF ub set1])
  have "(batch_at s' = batch_at s \<or>
         batch_at s' = (batch_at s)(batch_ID b \<mapsto> batch_core (claim_item i b)) \<or>
         batch_at s' = (batch_at s)(batch_ID b \<mapsto> batch_core (b\<lparr>batch_Status := BatchStatusPending\<rparr>))) \<and>
        (agent_at s' = agent_at s \<or>
         agent_at s' = (agent_at s)(agent_ID ag \<mapsto> agent_core (ag\<lparr>agent_Status := AgentStatusBusy\<rparr>)))"
  proof (cases r1)
    case (Some e1)
    with assms(1) ub have "s' = s1" by (simp add: claim_stage_def)
    with ub Some b1 update_batch_err [of c "claim_item i b" s e1 b1 s1] update_batch_agents [OF ub]
    show ?thesis by auto
  next
    case None
    obtain r2 a2 s2 where ua: "UpdateAgent st c (ag\<lparr>agent_Status := AgentStatusBusy\<rparr>) s1 = ((r2, a2), s2)"
      by (metis prod.collapse)
    obtain r3 b3 s3 where ur: "UpdateBatch st c (release_item i b1) s2 = ((r3, b3), s3)"
      by (metis prod.collapse)
    from assms(1) ub ua ur None obtain e2 where e2: "r2 = Some e2" and s': "s' = s3"
      by (auto simp: claim_stage_def split: option.splits)
    have rel: "batch_core (release_item i b1) = batch_core (b\<lparr>batch_Status := BatchStatusPending\<rparr>)"
      using core_stage_cong(2) [OF b1, of i] release_claim [OF i] by simp
    have "items_set (batch_Items (release_item i b1))"
      using set items_set_core [OF rel] by simp
    then have b3: "batch_core b3 = batch_core (b\<lparr>batch_Status := BatchStatusPending\<rparr>)"
      using update_batch_doc [OF ur] rel by simp
    have id: "batch_ID (release_item i b1) = batch_ID b"
      using batch_core_eqD(1) [OF b1] by simp
    have at2: "batch_at s2 = (batch_at s)(batch_ID b \<mapsto> batch_core (claim_item i b))"
      using update_agent_batches [OF ua] update_batch_stores [OF _ set1] ub None by simp
    have "batch_at s3 = batch_at s2 \<or>
          batch_at s3 = (batch_at s2)(batch_ID b \<mapsto> batch_core (b\<lparr>batch_Status := BatchStatusPending\<rparr>))"
      using ur b3 id update_batch_ok [of c "release_item i b1" s2 b3 s3]
        update_batch_err [of c "release_item i b1" s2 _ b3 s3] by (cases r3) auto
    moreover have "agent_at s3 = agent_at s2" by (rule update_batch_agents [OF ur])
    moreover have "agent_at s2 = agent_at s1 \<or>
          agent_at s2 = (agent_at s1)(agent_ID ag \<mapsto> agent_core (ag\<lparr>agent_Status := AgentStatusBusy\<rparr>))"
      using ua e2 update_agent_err [of c _ s1 e2 a2 s2] update_agent_doc [OF ua] by fastforce
    moreover have "agent_at s1 = agent_at s" by (rule update_batch_agents [OF ub])
    ultimately show ?thesis using at2 s' by auto
  qed
  then show "batch_at s' = batch_at s \<or>
         batch_at s' = (batch_at s)(batch_ID b \<mapsto> batch_core (claim_item i b)) \<or>
         batch_at s' = (batch_at s)(batch_ID b \<mapsto> batch_core (b\<lparr>batch_Status := BatchStatusPending\<rparr>))"
    and "agent_at s' = agent_at s \<or>
         agent_at s' = (agent_at s)(agent_ID ag \<mapsto> agent_core (ag\<lparr>agent_Status := AgentStatusBusy\<rparr>))"
    by blast+
qed

text \<open>The last stage writes the outcome over whatever is stored, and sets the agent idle.\<close>

lemma finish_views:
  assumes "finish_stage st ce mr c a b i werr s = (r, s')"
    and "items_set (batch_Items b)" and "i < length (batch_Items b)"
    and "item_Attempts (batch_Items b ! i) < max_int"
  shows "batch_at s' = (batch_at s)(batch_ID b \<mapsto> batch_core (complete_item mr werr i b)) \<or>
         r \<noteq> None \<and> batch_at s' = batch_at s"
    and "agent_at s' = (agent_at s)(agent_ID a \<mapsto> agent_core (a\<lparr>agent_Status := AgentStatusIdle\<rparr>)) \<or>
         r \<noteq> None \<and> agent_at s' = agent_at s"
    and "r = None \<Longrightarrow> werr = None"
proof -
  let ?cc = "if ce c s \<noteq> None then CtxWithoutCancel c else c"
  have set: "items_set (batch_Items (complete_item mr werr i b))"
    using assms(2-4) by (rule items_set_complete)
  obtain ube b2 s1 where ub: "UpdateBatch st ?cc (complete_item mr werr i b) s = ((ube, b2), s1)"
    by (metis prod.collapse)
  obtain uae a2 where ua: "UpdateAgent st ?cc (a\<lparr>agent_Status := AgentStatusIdle\<rparr>) s1 = ((uae, a2), s')"
    and r: "r = (case ube of
            Some e \<Rightarrow> Some (Wrapf (''update batch '' @ batch_ID b2 @ '' after completion'') e)
          | None \<Rightarrow>
              (case uae of
                 Some e \<Rightarrow> Some (Wrapf (''set agent '' @ agent_ID a2 @ '' idle'') e)
               | None \<Rightarrow> werr))"
    using assms(1) ub by (auto simp: finish_stage_def Let_def split: prod.splits)
  have b: "batch_at s' = batch_at s1" by (rule update_agent_batches [OF ua])
  have a: "agent_at s1 = agent_at s" by (rule update_batch_agents [OF ub])
  have b2: "batch_core b2 = batch_core (complete_item mr werr i b)" by (rule update_batch_doc [OF ub set])
  have a2: "agent_core a2 = agent_core (a\<lparr>agent_Status := AgentStatusIdle\<rparr>)" by (rule update_agent_doc [OF ua])
  show "batch_at s' = (batch_at s)(batch_ID b \<mapsto> batch_core (complete_item mr werr i b)) \<or>
         r \<noteq> None \<and> batch_at s' = batch_at s"
    using ub b b2 r update_batch_ok [of ?cc "complete_item mr werr i b" s b2 s1]
      update_batch_err [of ?cc "complete_item mr werr i b" s _ b2 s1] by (cases ube) auto
  show "agent_at s' = (agent_at s)(agent_ID a \<mapsto> agent_core (a\<lparr>agent_Status := AgentStatusIdle\<rparr>)) \<or>
         r \<noteq> None \<and> agent_at s' = agent_at s"
    using ua a a2 r update_agent_ok [of ?cc "a\<lparr>agent_Status := AgentStatusIdle\<rparr>" s1 a2 s']
      update_agent_err [of ?cc "a\<lparr>agent_Status := AgentStatusIdle\<rparr>" s1 _ a2 s']
    by (cases uae; cases ube) auto
  show "r = None \<Longrightarrow> werr = None" using r by (auto split: option.splits)
qed

text \<open>
  A dispatch whose claim went through: the worker ran on the claimed views, and the outcome was
  written over the views it left.
\<close>

lemma dispatch_ran:
  assumes run: "dispatch st wk ce c ag b i w = (r, w')" and el: "eligible b = Some i"
    and set: "items_set (batch_Items b)" and att: "item_Attempts (batch_Items b ! i) < max_int"
    and claim: "claim_stage st c ag b i (sw_rest w) = (Inr (b1, a1), s1)"
    and wk: "wk c (work_of b ag i) (enter_run (w\<lparr>sw_rest := s1\<rparr>)) = (werr, w2)"
  shows "batch_at (sw_rest w') =
           (batch_at (sw_rest w2))(batch_ID b \<mapsto> batch_core (complete_item (sc_maxRetries (sw_sched w)) werr i (claim_item i b))) \<or>
         r \<noteq> None \<and> batch_at (sw_rest w') = batch_at (sw_rest w2)"
    and "agent_at (sw_rest w') =
           (agent_at (sw_rest w2))(agent_ID ag \<mapsto> agent_core (ag\<lparr>agent_Status := AgentStatusIdle\<rparr>)) \<or>
         r \<noteq> None \<and> agent_at (sw_rest w') = agent_at (sw_rest w2)"
    and "r = None \<Longrightarrow> werr = None"
    and "sw_sched w' = sw_sched (leave_run w2)"
proof -
  let ?mr = "sc_maxRetries (sw_sched w)"
  note b1 = claim_ok(1) [OF claim set] and a1 = claim_ok(2) [OF claim set]
  have i: "i < length (batch_Items b)" using el by (simp add: eligible_iff)
  have its: "batch_Items b1 = batch_Items (claim_item i b)" by (rule batch_core_eqD(2) [OF b1])
  have work: "work_of b1 a1 i = work_of b ag i"
    using batch_core_eqD(1) [OF b1] agent_core_eqD [OF a1] its i
    by (simp add: work_of_def claim_item_items)
  obtain s2 where fin: "finish_stage st ce ?mr c a1 b1 i werr (sw_rest w2) = (r, s2)"
    and w': "w' = leave_run (w2\<lparr>sw_rest := s2\<rparr>)"
    using run claim wk work by (auto simp: dispatch_def split: prod.splits)
  have rest: "sw_rest w' = s2" by (simp add: w' leave_run_def)
  have set1: "items_set (batch_Items b1)" using items_set_claim [OF set] its by simp
  have i1: "i < length (batch_Items b1)" using i its by simp
  have att1: "item_Attempts (batch_Items b1 ! i) < max_int" using att i its by (simp add: claim_item_items)
  note fv = finish_views [OF fin set1 i1 att1]
  have "batch_ID b1 = batch_ID b" using batch_core_eqD(1) [OF b1] by simp
  then show "batch_at (sw_rest w') =
           (batch_at (sw_rest w2))(batch_ID b \<mapsto> batch_core (complete_item ?mr werr i (claim_item i b))) \<or>
         r \<noteq> None \<and> batch_at (sw_rest w') = batch_at (sw_rest w2)"
    using fv(1) core_stage_cong(3) [OF b1] rest by simp
  have "agent_ID a1 = agent_ID ag" using agent_core_eqD(1) [OF a1] by simp
  moreover have "agent_core (a1\<lparr>agent_Status := AgentStatusIdle\<rparr>) = agent_core (ag\<lparr>agent_Status := AgentStatusIdle\<rparr>)"
    using a1 by (simp add: agent_core_update)
  ultimately show "agent_at (sw_rest w') =
           (agent_at (sw_rest w2))(agent_ID ag \<mapsto> agent_core (ag\<lparr>agent_Status := AgentStatusIdle\<rparr>)) \<or>
         r \<noteq> None \<and> agent_at (sw_rest w') = agent_at (sw_rest w2)"
    using fv(2) rest by simp
  show "r = None \<Longrightarrow> werr = None" by (rule fv(3))
  show "sw_sched w' = sw_sched (leave_run w2)" by (simp add: w' leave_run_def)
qed

text \<open>The claim itself, seen from the worker: it starts with the item in progress, the agent busy
  and the run counted.\<close>

lemma dispatch_claims:
  assumes "dispatch st wk ce c ag b i w = (r, w')" and "items_set (batch_Items b)"
  shows "(\<exists>e. r = Some e \<and> claim_stage st c ag b i (sw_rest w) = (Inl e, sw_rest w') \<and> sw_sched w' = sw_sched w) \<or>
         (\<exists>b1 a1 s1 werr w2.
            claim_stage st c ag b i (sw_rest w) = (Inr (b1, a1), s1) \<and>
            wk c (work_of b ag i) (enter_run (w\<lparr>sw_rest := s1\<rparr>)) = (werr, w2))"
proof -
  obtain q s1 where claim: "claim_stage st c ag b i (sw_rest w) = (q, s1)" by fastforce
  show ?thesis
  proof (cases q)
    case (Inl e)
    with claim assms(1) show ?thesis by (auto simp: dispatch_def)
  next
    case (Inr p)
    with claim show ?thesis by (cases p) (auto simp: prod_eq_iff)
  qed
qed

end

text \<open>The views before \<open>Tick\<close> picks are those before it lists.\<close>

lemma Tick_picks:
  assumes "Tick d c w = (r, w')" and "\<not> sc_draining (sw_sched w)"
    and "dep_store d = Some st" and "dep_worker d = Some wk"
    and "ListBatches st c 0 (sw_rest w) = (Inr bs, s1)" and "ListAgents st c s1 = (Inr ags, s2)"
    and "firstIdleAgent ags = Some ag" and "first_eligible bs = Some (b, i)"
  shows "dispatch st wk (dep_ctx_err d) c ag b i (w\<lparr>sw_rest := s2\<rparr>) = (r, w')"
  using assms by (simp add: Tick_def)

lemma first_eligible_in: "first_eligible bs = Some (b, i) \<Longrightarrow> b \<in> set bs \<and> eligible b = Some i"
  by (auto simp: first_eligible_iff)

section \<open>A tick over the Mongo client\<close>

text \<open>What a tick that is not draining would run: the first idle agent, and the first eligible batch
  with its item; with the world after the two listings.\<close>

definition tick_pick :: "'w storage \<Rightarrow> ctx \<Rightarrow> 'w \<Rightarrow> ((agent \<times> batch \<times> nat) \<times> 'w) option" where
  "tick_pick st c s =
     (case ListBatches st c 0 s of
        (Inl e, s1) \<Rightarrow> None
      | (Inr bs, s1) \<Rightarrow>
          (case ListAgents st c s1 of
             (Inl e, s2) \<Rightarrow> None
           | (Inr ags, s2) \<Rightarrow>
               (case (firstIdleAgent ags, first_eligible bs) of
                  (Some ag, Some (b, i)) \<Rightarrow> Some ((ag, b, i), s2)
                | _ \<Rightarrow> None)))"

lemma tick_pick_dispatch:
  assumes "Tick d c w = (r, w')" and "\<not> sc_draining (sw_sched w)"
    and "dep_store d = Some st" and "dep_worker d = Some wk"
    and "tick_pick st c (sw_rest w) = Some ((ag, b, i), s)"
  shows "dispatch st wk (dep_ctx_err d) c ag b i (w\<lparr>sw_rest := s\<rparr>) = (r, w')"
    and "eligible b = Some i" and "agent_Status ag = AgentStatusIdle"
  using assms
  by (auto simp: Tick_def tick_pick_def dest: first_eligible_in firstIdleAgent_idle
      split: prod.splits sum.splits option.splits)

lemma tick_pick_none:
  assumes "Tick d c w = (r, w')"
    and "sc_draining (sw_sched w) \<or> dep_worker d = None \<or> tick_pick st c (sw_rest w) = None"
    and "dep_store d = Some st"
  shows "sw_sched w' = sw_sched w \<and>
    (sw_rest w' = sw_rest w \<or>
     (\<exists>q s1. ListBatches st c 0 (sw_rest w) = (q, s1) \<and>
        (sw_rest w' = s1 \<or> (\<exists>q'. ListAgents st c s1 = (q', sw_rest w')))))"
  using assms
  by (auto simp: Tick_def tick_pick_def split: if_splits prod.splits sum.splits option.splits)

context sched_store begin

lemma tick_pick_frame:
  assumes "tick_pick st c s = Some (p, s')"
  shows "batch_at s' = batch_at s" and "agent_at s' = agent_at s"
  using assms list_agents_frame list_batches_frame list_batches_agents
  by (auto simp: tick_pick_def split: prod.splits sum.splits option.splits; metis)+

lemma tick_idle:
  assumes "Tick d c w = (r, w')"
    and "sc_draining (sw_sched w) \<or> dep_worker d = None \<or> tick_pick st c (sw_rest w) = None"
    and "dep_store d = Some st"
  shows "batch_at (sw_rest w') = batch_at (sw_rest w) \<and> agent_at (sw_rest w') = agent_at (sw_rest w) \<and>
    sw_sched w' = sw_sched w"
  using tick_pick_none [OF assms] list_agents_frame list_batches_frame list_batches_agents by metis

text \<open>A successful tick, from the listing to the last write.\<close>

lemma tick_success:
  assumes "Tick d c w = (None, w')" and "\<not> sc_draining (sw_sched w)"
    and "dep_store d = Some st" and "dep_worker d = Some wk"
    and pick: "tick_pick st c (sw_rest w) = Some ((ag, b, i), s)"
    and set: "items_set (batch_Items b)" and att: "item_Attempts (batch_Items b ! i) < max_int"
  shows "\<exists>w1 w2. wk c (work_of b ag i) w1 = (None, w2) \<and>
     sw_sched w1 = sw_sched (enter_run w) \<and>
     batch_at (sw_rest w1) = (batch_at (sw_rest w))(batch_ID b \<mapsto> batch_core (claim_item i b)) \<and>
     agent_at (sw_rest w1) = (agent_at (sw_rest w))(agent_ID ag \<mapsto> agent_core (ag\<lparr>agent_Status := AgentStatusBusy\<rparr>)) \<and>
     sw_sched w' = sw_sched (leave_run w2) \<and>
     batch_at (sw_rest w') = (batch_at (sw_rest w2))(batch_ID b \<mapsto>
       batch_core (complete_item (sc_maxRetries (sw_sched w)) None i (claim_item i b))) \<and>
     agent_at (sw_rest w') = (agent_at (sw_rest w2))(agent_ID ag \<mapsto> agent_core (ag\<lparr>agent_Status := AgentStatusIdle\<rparr>))"
proof -
  let ?w = "w\<lparr>sw_rest := s\<rparr>"
  note run = tick_pick_dispatch(1) [OF assms(1-5)] and el = tick_pick_dispatch(2) [OF assms(1-5)]
  note fr = tick_pick_frame [OF pick]
  from dispatch_claims [OF run set] obtain b1 a1 s1 where
    cl: "claim_stage st c ag b i s = (Inr (b1, a1), s1)" by auto
  obtain werr w2 where wk: "wk c (work_of b ag i) (enter_run (?w\<lparr>sw_rest := s1\<rparr>)) = (werr, w2)"
    by fastforce
  note dr = dispatch_ran [OF run el set att _ wk] and ck = claim_ok [OF cl set]
  have none: "werr = None" using dr(3) cl by simp
  show ?thesis
    using wk cl dr(1,2,4) ck(3,4) fr none
    by (intro exI [of _ "enter_run (?w\<lparr>sw_rest := s1\<rparr>)"] exI [of _ w2]) (simp add: enter_run_def)
qed

text \<open>Every way a tick can go once it has picked an item.\<close>

lemma tick_outcomes:
  assumes "Tick d c w = (r, w')" and "\<not> sc_draining (sw_sched w)"
    and "dep_store d = Some st" and "dep_worker d = Some wk"
    and pick: "tick_pick st c (sw_rest w) = Some ((ag, b, i), s)"
    and set: "items_set (batch_Items b)" and att: "item_Attempts (batch_Items b ! i) < max_int"
  shows "(r \<noteq> None \<and> sw_sched w' = sw_sched w \<and>
      (\<exists>v \<in> {batch_at (sw_rest w) (batch_ID b), Some (batch_core (claim_item i b)),
             Some (batch_core (b\<lparr>batch_Status := BatchStatusPending\<rparr>))}.
         batch_at (sw_rest w') = (batch_at (sw_rest w))(batch_ID b := v)) \<and>
      (\<exists>v \<in> {agent_at (sw_rest w) (agent_ID ag), Some (agent_core (ag\<lparr>agent_Status := AgentStatusBusy\<rparr>))}.
         agent_at (sw_rest w') = (agent_at (sw_rest w))(agent_ID ag := v))) \<or>
    (\<exists>w1 werr w2. wk c (work_of b ag i) w1 = (werr, w2) \<and> sw_sched w1 = sw_sched (enter_run w) \<and>
       batch_at (sw_rest w1) = (batch_at (sw_rest w))(batch_ID b \<mapsto> batch_core (claim_item i b)) \<and>
       agent_at (sw_rest w1) =
         (agent_at (sw_rest w))(agent_ID ag \<mapsto> agent_core (ag\<lparr>agent_Status := AgentStatusBusy\<rparr>)) \<and>
       sw_sched w' = sw_sched (leave_run w2) \<and>
       (batch_at (sw_rest w') = (batch_at (sw_rest w2))(batch_ID b \<mapsto>
          batch_core (complete_item (sc_maxRetries (sw_sched w)) werr i (claim_item i b))) \<or>
        r \<noteq> None \<and> batch_at (sw_rest w') = batch_at (sw_rest w2)) \<and>
       (agent_at (sw_rest w') = (agent_at (sw_rest w2))(agent_ID ag \<mapsto> agent_core (ag\<lparr>agent_Status := AgentStatusIdle\<rparr>)) \<or>
        r \<noteq> None \<and> agent_at (sw_rest w') = agent_at (sw_rest w2)) \<and>
       (r = None \<longrightarrow> werr = None))"
    (is "?failed \<or> ?ran")
proof -
  let ?w = "w\<lparr>sw_rest := s\<rparr>"
  note run = tick_pick_dispatch(1) [OF assms(1-5)] and el = tick_pick_dispatch(2) [OF assms(1-5)]
  note fr = tick_pick_frame [OF pick]
  have i: "i < length (batch_Items b)" "item_Status (batch_Items b ! i) = ItemStatusPending"
    using el by (auto simp: eligible_iff)
  from dispatch_claims [OF run set] show ?thesis
  proof (elim disjE exE conjE)
    fix e assume r: "r = Some e" "sw_sched w' = sw_sched ?w"
      and cl: "claim_stage st c ag b i (sw_rest ?w) = (Inl e, sw_rest w')"
    have "\<exists>v \<in> {batch_at (sw_rest w) (batch_ID b), Some (batch_core (claim_item i b)),
             Some (batch_core (b\<lparr>batch_Status := BatchStatusPending\<rparr>))}.
         batch_at (sw_rest w') = (batch_at (sw_rest w))(batch_ID b := v)"
      using claim_failed(1) [OF cl set i] fr by auto
    moreover have "\<exists>v \<in> {agent_at (sw_rest w) (agent_ID ag), Some (agent_core (ag\<lparr>agent_Status := AgentStatusBusy\<rparr>))}.
         agent_at (sw_rest w') = (agent_at (sw_rest w))(agent_ID ag := v)"
      using claim_failed(2) [OF cl set i] fr by auto
    ultimately show ?thesis using r by simp
  next
    fix b1 a1 s1 werr w2
    assume cl: "claim_stage st c ag b i (sw_rest ?w) = (Inr (b1, a1), s1)"
      and wk: "wk c (work_of b ag i) (enter_run (?w\<lparr>sw_rest := s1\<rparr>)) = (werr, w2)"
    note dr = dispatch_ran [OF run el set att cl wk]
    have ?ran
      using wk dr claim_ok(3,4) [OF cl set] fr
      by (intro exI [of _ "enter_run (?w\<lparr>sw_rest := s1\<rparr>)"] exI [of _ werr] exI [of _ w2])
        (simp add: enter_run_def)
    then show ?thesis ..
  qed
qed

end

section \<open>The properties of a tick\<close>

text \<open>The views of the Mongo client: the contract's lemmas hold of them for every conforming driver.\<close>

lemmas mongo_tick_success = sched_store.tick_success [OF mongo_sched_store]
lemmas mongo_tick_outcomes = sched_store.tick_outcomes [OF mongo_sched_store]
lemmas mongo_claim_ok = sched_store.claim_ok [OF mongo_sched_store]
lemmas mongo_claim_failed = sched_store.claim_failed [OF mongo_sched_store]
lemmas mongo_dispatch_ran = sched_store.dispatch_ran [OF mongo_sched_store]
lemmas mongo_tick_pick_frame = sched_store.tick_pick_frame [OF mongo_sched_store]

text \<open>A small database for the witnesses.\<close>

definition demo_deps :: "list_db work_fn \<Rightarrow> list_db sched_deps" where
  "demo_deps wk =
     \<lparr>dep_store = Some (mongo_storage list_driver), dep_worker = Some wk, dep_ctx_err = (\<lambda>c m. None)\<rparr>"

definition demo_world :: "list_db \<Rightarrow> list_db sched_world" where
  "demo_world m = \<lparr>sw_sched = scheduler_New \<lparr>opt_Interval = 0, opt_Draining = False, opt_MaxRetries = 0\<rparr>, sw_rest = m\<rparr>"

definition demo_wk :: "go_error option \<Rightarrow> list_db work_fn" where
  "demo_wk e c wi w = (e, w)"

lemma demo_simps:
  "\<not> sc_draining (sw_sched (demo_world m))"
  "items_set (batch_Items demo_batch)"
  "item_Attempts (batch_Items demo_batch ! 0) < max_int"
  "dep_store (demo_deps wk) = Some (mongo_storage list_driver)"
  "dep_worker (demo_deps wk) = Some wk"
  "sc_maxRetries (sw_sched (demo_world m)) = 5"
  "batch_ID demo_batch = ''batch-1''" "agent_ID demo_agent = ''agent-1''" "sw_rest (demo_world m) = m"
  by (simp_all add: demo_world_def demo_deps_def demo_batch_def demo_items_def demo_agent_def
      scheduler_New_def defaultMaxRetries_def max_int_def items_set_def item_set_def)

lemma demo_tick:
  "fst (Tick (demo_deps (demo_wk None)) (CtxBase 0) (demo_world (demo_db [demo_batch] [demo_agent]))) = None"
  by code_simp

lemma demo_pick:
  "map_option fst (tick_pick (mongo_storage list_driver) (CtxBase 0)
     (sw_rest (demo_world (demo_db [demo_batch] [demo_agent])))) = Some (demo_agent, demo_batch, 0)"
  by code_simp

text \<open>
  C1: A tick that reports success on an eligible batch has run the worker exactly on the first
  pending item of that batch, with the agent it picked.  The worker started with the item stored as
  in progress, the agent stored as busy and one more active run; when the tick returns, the
  item is stored as done with one more attempt, over whatever the worker left, the agent is idle
  again, and the run is no longer counted.
\<close>

theorem Tick_runs_item:
  assumes "driver_ok drv docs" and "\<not> sc_draining (sw_sched w)"
    and "dep_store d = Some (mongo_storage drv)" and "dep_worker d = Some wk"
    and "tick_pick (mongo_storage drv) c (sw_rest w) = Some ((ag, b, i), s)"
    and "items_set (batch_Items b)" and "item_Attempts (batch_Items b ! i) < max_int"
    and "Tick d c w = (None, w')"
  shows "\<exists>w1 w2. wk c (work_of b ag i) w1 = (None, w2) \<and>
     ActiveCount (Some (sw_sched w1)) = ActiveCount (Some (sw_sched w)) + 1 \<and>
     batch_view docs (sw_rest w1) = (batch_view docs (sw_rest w))(batch_ID b \<mapsto> batch_core (claim_item i b)) \<and>
     agent_view docs (sw_rest w1) =
       (agent_view docs (sw_rest w))(agent_ID ag \<mapsto> agent_core (ag\<lparr>agent_Status := AgentStatusBusy\<rparr>)) \<and>
     ActiveCount (Some (sw_sched w')) = ActiveCount (Some (sw_sched w2)) - 1 \<and>
     batch_view docs (sw_rest w') = (batch_view docs (sw_rest w2))(batch_ID b \<mapsto>
       batch_core (complete_item (sc_maxRetries (sw_sched w)) None i (claim_item i b))) \<and>
     agent_view docs (sw_rest w') =
       (agent_view docs (sw_rest w2))(agent_ID ag \<mapsto> agent_core (ag\<lparr>agent_Status := AgentStatusIdle\<rparr>))"
  using mongo_tick_success [OF assms(1,8,2-7)]
  by (elim exE conjE, intro exI conjI; assumption?)
    (simp_all add: ActiveCount_def enter_run_def leave_run_def)

theorem Tick_runs_item_witness:
  "\<exists>w'. Tick (demo_deps (demo_wk None)) (CtxBase 0) (demo_world (demo_db [demo_batch] [demo_agent])) = (None, w') \<and>
     batch_view db_docs (sw_rest w') ''batch-1'' =
       Some (batch_core (complete_item 5 None 0 (claim_item 0 demo_batch)))"
proof -
  let ?w = "demo_world (demo_db [demo_batch] [demo_agent])" and ?d = "demo_deps (demo_wk None)"
  obtain w' where tick: "Tick ?d (CtxBase 0) ?w = (None, w')"
    using demo_tick by (metis prod.collapse)
  obtain s where pick: "tick_pick (mongo_storage list_driver) (CtxBase 0) (sw_rest ?w) = Some ((demo_agent, demo_batch, 0), s)"
    using demo_pick by auto
  from Tick_runs_item [OF list_driver_ok demo_simps(1,4,5) pick demo_simps(2,3) tick]
  show ?thesis using tick by (auto simp: demo_wk_def demo_simps)
qed

text \<open>
  What a tick picks.  The batch is the first one listed that is not paused, failed or done,
  has no item in progress and has a pending item; the item is its first pending one; the agent is
  the first one listed that is idle.
\<close>

theorem tick_pick_first:
  assumes "tick_pick st c s = Some ((ag, b, i), s2)"
  shows "\<exists>bs ags s1 xs ys us vs.
    ListBatches st c 0 s = (Inr bs, s1) \<and> ListAgents st c s1 = (Inr ags, s2) \<and>
    bs = xs @ b # ys \<and>
    (\<forall>x \<in> set xs. batch_Status x \<in> {BatchStatusPaused, BatchStatusFailed, BatchStatusDone} \<or>
       (\<exists>it \<in> set (batch_Items x). item_Status it = ItemStatusInProgress) \<or>
       (\<forall>it \<in> set (batch_Items x). item_Status it \<noteq> ItemStatusPending)) \<and>
    batch_Status b \<notin> {BatchStatusPaused, BatchStatusFailed, BatchStatusDone} \<and>
    (\<forall>it \<in> set (batch_Items b). item_Status it \<noteq> ItemStatusInProgress) \<and>
    i < length (batch_Items b) \<and> item_Status (batch_Items b ! i) = ItemStatusPending \<and>
    (\<forall>j < i. item_Status (batch_Items b ! j) \<noteq> ItemStatusPending) \<and>
    ags = us @ ag # vs \<and> agent_Status ag = AgentStatusIdle \<and>
    (\<forall>u \<in> set us. agent_Status u \<noteq> AgentStatusIdle)"
proof -
  from assms obtain bs ags s1 where l: "ListBatches st c 0 s = (Inr bs, s1)" "ListAgents st c s1 = (Inr ags, s2)"
    and f: "firstIdleAgent ags = Some ag" "first_eligible bs = Some (b, i)"
    by (auto simp: tick_pick_def split: prod.splits sum.splits option.splits)
  from f(2) obtain xs ys where x: "bs = xs @ b # ys" "\<forall>x \<in> set xs. eligible x = None" "eligible b = Some i"
    by (auto simp: first_eligible_iff)
  from f(1) obtain us vs where u: "ags = us @ ag # vs" "agent_Status ag = AgentStatusIdle"
    "\<forall>u \<in> set us. agent_Status u \<noteq> AgentStatusIdle"
    using firstIdleAgent_prefix by blast
  have "in_progress_count (batch_Items b) = 0" and "\<not> 0 < in_progress_count (batch_Items b)"
    using x(3) by (auto simp: eligible_iff)
  with l x u show ?thesis
    unfolding eligible_iff eligible_none_iff in_progress_count_pos by blast
qed

theorem tick_pick_first_witness:
  "\<exists>bs s1 xs ys. ListBatches (mongo_storage list_driver) (CtxBase 0) 0 (demo_db [demo_batch] [demo_agent]) = (Inr bs, s1) \<and>
     bs = xs @ demo_batch # ys"
proof -
  obtain s where "tick_pick (mongo_storage list_driver) (CtxBase 0) (demo_db [demo_batch] [demo_agent]) =
      Some ((demo_agent, demo_batch, 0), s)"
    using demo_pick by (auto simp: demo_simps)
  from tick_pick_first [OF this] show ?thesis by blast
qed

text \<open>
  A tick that has nothing to do leaves the world as it is.  When the scheduler is draining, or
  no idle agent or eligible batch is listed, no stored batch or agent changes, no run is counted
  and the worker has not been called.
\<close>

theorem Tick_idle:
  assumes "driver_ok drv docs" and "dep_store d = Some (mongo_storage drv)"
    and "sc_draining (sw_sched w) \<or> tick_pick (mongo_storage drv) c (sw_rest w) = None"
    and "Tick d c w = (r, w')"
  shows "batch_view docs (sw_rest w') = batch_view docs (sw_rest w) \<and>
    agent_view docs (sw_rest w') = agent_view docs (sw_rest w) \<and>
    sw_sched w' = sw_sched w \<and> (sc_draining (sw_sched w) \<longrightarrow> r = None \<and> w' = w)"
proof -
  have st: "sched_store (mongo_storage drv) (batch_view docs) (agent_view docs)"
    by (rule mongo_sched_store [OF assms(1)])
  have "sc_draining (sw_sched w) \<or> dep_worker d = None \<or> tick_pick (mongo_storage drv) c (sw_rest w) = None"
    using assms(3) by auto
  note idle = sched_store.tick_idle [OF st assms(4) this assms(2)]
  moreover have "sc_draining (sw_sched w) \<longrightarrow> r = None \<and> w' = w"
    using assms(4) by (simp add: Tick_def split: if_splits)
  ultimately show ?thesis by blast
qed

theorem Tick_idle_witness:
  "\<exists>r w'. Tick (demo_deps (demo_wk None)) (CtxBase 0) (demo_world (demo_db [demo_batch] [])) = (r, w') \<and>
     batch_view db_docs (sw_rest w') = batch_view db_docs (demo_db [demo_batch] [])"
proof -
  have "map_option fst (tick_pick (mongo_storage list_driver) (CtxBase 0) (sw_rest (demo_world (demo_db [demo_batch] [])))) = None"
    by code_simp
  then have p: "sc_draining (sw_sched (demo_world (demo_db [demo_batch] []))) \<or>
      tick_pick (mongo_storage list_driver) (CtxBase 0) (sw_rest (demo_world (demo_db [demo_batch] []))) = None" by simp
  obtain r w' where t: "Tick (demo_deps (demo_wk None)) (CtxBase 0) (demo_world (demo_db [demo_batch] [])) = (r, w')"
    by fastforce
  from Tick_idle [OF list_driver_ok demo_simps(4) p t] t show ?thesis by (auto simp: demo_simps)
qed



end
