(* ===== verification/Mongo_Queries.thy ===== *)
theory Mongo_Queries
  imports Mongo_Refinement
begin

text \<open>
  What the aggregating queries of the Mongo client return, for a driver that behaves as documented:
  the progress of a batch (progress.go), the event counts of run summaries (task_runs.go) and the
  active batches of a repository (repositories.go).
\<close>

section \<open>Reading a cursor to its end\<close>

lemma drain_rows: "drain what Inr rows = Inr xs \<Longrightarrow> rows = map Inr xs"
proof (induction rows arbitrary: xs)
  case Nil
  then show ?case by simp
next
  case (Cons r rows)
  then show ?case by (cases r) (auto split: sum.splits)
qed

lemma read_cursor_rows: "read_cursor one many Inr cur = Inr xs \<Longrightarrow> cur = (map Inr xs, None)"
  by (cases cur) (auto simp: read_cursor_def split: sum.splits option.splits dest!: drain_rows)

section \<open>Counting by groups\<close>

lemma length_filter_partition:
  assumes "finite K" and "\<And>d. d \<in> set ds \<Longrightarrow> Q d \<Longrightarrow> key d \<in> K"
  shows "int (length (filter Q ds)) = (\<Sum>v \<in> K. int (length (filter (\<lambda>d. Q d \<and> key d = v) ds)))"
  using assms(2)
proof (induction ds)
  case Nil
  then show ?case by simp
next
  case (Cons d ds)
  have "(\<Sum>v \<in> K. int (length (filter (\<lambda>d. Q d \<and> key d = v) (d # ds)))) =
      (\<Sum>v \<in> K. (if Q d \<and> key d = v then 1 else 0) + int (length (filter (\<lambda>d. Q d \<and> key d = v) ds)))"
    by (intro sum.cong) auto
  also have "\<dots> = (\<Sum>v \<in> K. if Q d \<and> key d = v then 1 else 0) +
      (\<Sum>v \<in> K. int (length (filter (\<lambda>d. Q d \<and> key d = v) ds)))"
    by (rule sum.distrib)
  also have "(\<Sum>v \<in> K. if Q d \<and> key d = v then 1 else 0) = (if Q d then 1 else (0 :: int))"
    using Cons.prems [of d] assms(1) by (auto simp: sum.delta)
  finally show ?case using Cons by auto
qed

text \<open>The rows selected by their key add up to the matching documents with such a key.\<close>

lemma group_rows_sum:
  assumes g: "group_rows f g ds rows" and "\<forall>d \<in> set ds. matches f d \<longrightarrow> doc_field d g \<noteq> None"
  shows "sum_list (map snd (filter (\<lambda>(v, n). P v) rows)) =
    int (length (filter (\<lambda>d. matches f d \<and> P (the (doc_field d g))) ds))"
proof -
  let ?K = "set (map fst (filter (\<lambda>(v, n). P v) rows))"
  let ?Q = "\<lambda>d. matches f d \<and> P (the (doc_field d g))"
  let ?cnt = "\<lambda>v. int (length (filter (\<lambda>d. matches f d \<and> doc_field d g = Some v) ds))"
  have d: "distinct (map fst (filter (\<lambda>(v, n). P v) rows))"
    using g by (simp add: group_rows_def distinct_map_filter)
  have key: "the (doc_field d g) \<in> ?K" if "d \<in> set ds" "?Q d" for d
  proof -
    from that assms(2) obtain v where v: "doc_field d g = Some v" by auto
    with that have "v \<in> set (map fst rows)" using g by (auto simp: group_rows_def)
    with v that show ?thesis by force
  qed
  have "sum_list (map snd (filter (\<lambda>(v, n). P v) rows)) = sum_list (map ?cnt (map fst (filter (\<lambda>(v, n). P v) rows)))"
    using g by (auto simp: group_rows_def intro!: arg_cong [where f = sum_list])
  also have "\<dots> = (\<Sum>v \<in> ?K. ?cnt v)"
    using d by (rule sum_list_distinct_conv_sum_set)
  also have "\<dots> = (\<Sum>v \<in> ?K. int (length (filter (\<lambda>d. ?Q d \<and> the (doc_field d g) = v) ds)))"
    using assms(2) by (intro sum.cong refl arg_cong [where f = int] arg_cong [where f = length] filter_cong) auto
  also have "\<dots> = int (length (filter ?Q ds))"
    by (rule length_filter_partition [symmetric]) (use key in auto)
  finally show ?thesis .
qed

section \<open>Progress\<close>

lemma sum_progress_fields:
  "pr_Total (sum_progress p rows) = pr_Total p + sum_list (map snd (filter (\<lambda>(v, n). True) rows))"
  "pr_Running (sum_progress p rows) = pr_Running p +
     sum_list (map snd (filter (\<lambda>(v, n). task_run_status_of v = TaskRunStatusRunning) rows))"
  "pr_Succeeded (sum_progress p rows) = pr_Succeeded p +
     sum_list (map snd (filter (\<lambda>(v, n). task_run_status_of v = TaskRunStatusSucceeded) rows))"
  "pr_Failed (sum_progress p rows) = pr_Failed p +
     sum_list (map snd (filter (\<lambda>(v, n). task_run_status_of v \<in> {TaskRunStatusFailed, TaskRunStatusTimedOut}) rows))"
  "pr_Stopped (sum_progress p rows) = pr_Stopped p +
     sum_list (map snd (filter (\<lambda>(v, n). task_run_status_of v = TaskRunStatusStopped) rows))"
  by (induction p rows rule: sum_progress.induct)
    (auto simp: updateProgressCounts_def Let_def split: task_run_status.splits)

lemma sum_progress_balance:
  "pr_Total (sum_progress p rows) - (pr_Pending (sum_progress p rows) + pr_Running (sum_progress p rows) +
     pr_Succeeded (sum_progress p rows) + pr_Failed (sum_progress p rows) + pr_Stopped (sum_progress p rows)) =
   pr_Total p - (pr_Pending p + pr_Running p + pr_Succeeded p + pr_Failed p + pr_Stopped p)"
  by (induction p rows rule: sum_progress.induct)
    (auto simp: updateProgressCounts_def Let_def split: task_run_status.splits)

text \<open>The runs of a batch, and how many of them have a status of a kind.\<close>

definition runs_of :: "('m \<Rightarrow> string \<Rightarrow> doc list) \<Rightarrow> 'm \<Rightarrow> string \<Rightarrow> task_run list" where
  "runs_of docs m i =
     filter (\<lambda>r. run_BatchID r = i)
       (List.map_filter (\<lambda>d. case d of DocRun r \<Rightarrow> Some r | _ \<Rightarrow> None) (docs m taskRunsCollection))"

definition count_status :: "(string \<Rightarrow> bool) \<Rightarrow> task_run list \<Rightarrow> int" where
  "count_status P rs = int (length (filter (\<lambda>r. P (task_run_status_str (run_Status r))) rs))"

lemma group_status_count:
  assumes rows: "group_rows [(''batch_id'', BEq i)] ''status'' (docs m taskRunsCollection) rows"
    and runs: "\<forall>d \<in> set (docs m taskRunsCollection). \<exists>r. d = DocRun r"
  shows "sum_list (map snd (filter (\<lambda>(v, n). P v) rows)) = count_status P (runs_of docs m i)"
proof -
  have "int (length (filter (\<lambda>d. matches [(''batch_id'', BEq i)] d \<and> P (the (doc_field d ''status''))) ds)) =
      count_status P (filter (\<lambda>r. run_BatchID r = i)
        (List.map_filter (\<lambda>d. case d of DocRun r \<Rightarrow> Some r | _ \<Rightarrow> None) ds))"
    if "\<forall>d \<in> set ds. \<exists>r. d = DocRun r" for ds
    using that
  proof (induction ds)
    case Nil
    then show ?case by (simp add: count_status_def map_filter_simps)
  next
    case (Cons d ds)
    then obtain r where d: "d = DocRun r" by auto
    with Cons show ?case
      by (auto simp: count_status_def map_filter_simps matches_def cond_holds_def run_field_def)
  qed
  moreover have "\<forall>d \<in> set (docs m taskRunsCollection). matches [(''batch_id'', BEq i)] d \<longrightarrow> doc_field d ''status'' \<noteq> None"
    using runs by (auto simp: run_field_def)
  ultimately show ?thesis
    using group_rows_sum [OF rows, of P] runs by (simp add: runs_of_def)
qed

lemma task_run_status_of_eq:
  "task_run_status_of v = TaskRunStatusRunning \<longleftrightarrow> v = ''running''"
  "task_run_status_of v = TaskRunStatusSucceeded \<longleftrightarrow> v = ''succeeded''"
  "task_run_status_of v \<in> {TaskRunStatusFailed, TaskRunStatusTimedOut} \<longleftrightarrow> v \<in> {''failed'', ''timed_out''}"
  "task_run_status_of v = TaskRunStatusStopped \<longleftrightarrow> v = ''stopped''"
  by (auto simp: task_run_status_of_def)

lemma driver_group:
  assumes "driver_ok drv docs" and "GroupCount drv c k f g m = (r, m')"
  shows "docs m' = docs m \<and> (\<forall>rows. r = Inr (map Inr rows, None) \<longrightarrow>
    (\<forall>d \<in> set (docs m k). matches f d \<longrightarrow> doc_field d g \<noteq> None) \<longrightarrow> group_rows f g (docs m k) rows)"
  using assms unfolding driver_ok_def group_ok_def by blast

text \<open>
  C37: The progress of a batch counts its runs: the total is their number, each class has the runs
  with its status (timed out runs count as failed), and pending has the rest, so that the classes
  add up to the total.
\<close>

theorem batch_progress_counts:
  assumes "driver_ok drv docs" and "mongo_GetBatchProgress drv c i m = (Inr p, m')"
    and "\<forall>d \<in> set (docs m taskRunsCollection). \<exists>r. d = DocRun r"
  shows "docs m' = docs m \<and> pr_Total p = int (length (runs_of docs m i)) \<and>
    pr_Running p = count_status (\<lambda>s. s = ''running'') (runs_of docs m i) \<and>
    pr_Succeeded p = count_status (\<lambda>s. s = ''succeeded'') (runs_of docs m i) \<and>
    pr_Failed p = count_status (\<lambda>s. s \<in> {''failed'', ''timed_out''}) (runs_of docs m i) \<and>
    pr_Stopped p = count_status (\<lambda>s. s = ''stopped'') (runs_of docs m i) \<and>
    pr_Pending p = pr_Total p - pr_Running p - pr_Succeeded p - pr_Failed p - pr_Stopped p"
proof -
  obtain cur rows where gc: "GroupCount drv (withTimeout c) taskRunsCollection [(''batch_id'', BEq i)] ''status'' m = (Inr cur, m')"
    and rc: "read_cursor ''progress'' ''progress'' Inr cur = Inr rows"
    and p: "p = fix_pending (sum_progress no_progress rows)"
    using assms(2) by (auto simp: mongo_GetBatchProgress_def split: prod.splits sum.splits)
  have cur: "cur = (map Inr rows, None)" by (rule read_cursor_rows [OF rc])
  have "\<forall>d \<in> set (docs m taskRunsCollection). matches [(''batch_id'', BEq i)] d \<longrightarrow> doc_field d ''status'' \<noteq> None"
    using assms(3) by (auto simp: run_field_def)
  with driver_group [OF assms(1) gc] cur
  have rows: "group_rows [(''batch_id'', BEq i)] ''status'' (docs m taskRunsCollection) rows" and fr: "docs m' = docs m"
    by auto
  let ?q = "sum_progress no_progress rows"
  have fields: "pr_Total p = pr_Total ?q" "pr_Running p = pr_Running ?q" "pr_Succeeded p = pr_Succeeded ?q"
    "pr_Failed p = pr_Failed ?q" "pr_Stopped p = pr_Stopped ?q"
    by (simp_all add: p fix_pending_def Let_def)
  have pend: "pr_Pending p = pr_Total p - pr_Running p - pr_Succeeded p - pr_Failed p - pr_Stopped p"
    using sum_progress_balance [of no_progress rows] fields
    by (auto simp: p fix_pending_def no_progress_def Let_def)
  have cnt: "sum_list (map snd (filter (\<lambda>(v, n). P v) rows)) = count_status P (runs_of docs m i)" for P
    by (rule group_status_count [where docs = docs, OF rows assms(3)])
  have zero: "pr_Total no_progress = 0" "pr_Running no_progress = 0" "pr_Succeeded no_progress = 0"
    "pr_Failed no_progress = 0" "pr_Stopped no_progress = 0"
    by (simp_all add: no_progress_def)
  have tot: "pr_Total p = int (length (runs_of docs m i))"
    using sum_progress_fields(1) [of no_progress rows] cnt [of "\<lambda>_. True"] fields(1) zero
    by (simp add: count_status_def)
  show ?thesis
    using sum_progress_fields(2-5) [of no_progress rows] fields zero tot pend fr
    unfolding task_run_status_of_eq by (simp add: cnt)
qed

definition demo_run :: "string \<Rightarrow> task_run_status \<Rightarrow> task_run" where
  "demo_run i s =
     \<lparr>run_ID = i, run_BatchID = ''batch-1'', run_RepositoryID = ''repo-1'', run_TaskRef = ''yr-1'',
      run_SessionID = ''s'' @ i, run_StartedAt = 1, run_FinishedAt = None, run_Status = s, run_Result = None\<rparr>"

definition demo_event :: "string \<Rightarrow> session_event" where
  "demo_event i = \<lparr>ev_BatchID = ''batch-1'', ev_RunID = i, ev_SessionID = ''s'' @ i, ev_Event = [], ev_IngestedAt = 1\<rparr>"

definition demo_runs_db :: list_db where
  "demo_runs_db =
     \<lparr>db_docs = (\<lambda>k.
        if k = taskRunsCollection
          then [DocRun (demo_run ''r1'' TaskRunStatusSucceeded), DocRun (demo_run ''r2'' TaskRunStatusTimedOut),
                DocRun (demo_run ''r3'' TaskRunStatusRunning)]
        else if k = sessionEventsCollection then [DocEvent (demo_event ''r1''), DocEvent (demo_event ''r1'')]
        else []),
      db_clock = 1\<rparr>"

lemma demo_runs_db_docs:
  "db_docs demo_runs_db taskRunsCollection =
     [DocRun (demo_run ''r1'' TaskRunStatusSucceeded), DocRun (demo_run ''r2'' TaskRunStatusTimedOut),
      DocRun (demo_run ''r3'' TaskRunStatusRunning)]"
  "db_docs demo_runs_db sessionEventsCollection = [DocEvent (demo_event ''r1''), DocEvent (demo_event ''r1'')]"
  by (simp_all add: demo_runs_db_def collections)

theorem batch_progress_counts_witness:
  "\<exists>p m'. mongo_GetBatchProgress list_driver (CtxBase 0) ''batch-1'' demo_runs_db = (Inr p, m') \<and>
     pr_Total p = 3 \<and> pr_Failed p = 1"
proof -
  have "\<not> isl (fst (mongo_GetBatchProgress list_driver (CtxBase 0) ''batch-1'' demo_runs_db))" by code_simp
  then obtain p m' where g: "mongo_GetBatchProgress list_driver (CtxBase 0) ''batch-1'' demo_runs_db = (Inr p, m')"
    by (metis isl_def obj_sumE prod.collapse)
  have "\<forall>d \<in> set (db_docs demo_runs_db taskRunsCollection). \<exists>r. d = DocRun r" by (simp add: demo_runs_db_docs)
  from batch_progress_counts [OF list_driver_ok g this] g show ?thesis
    by (auto simp: runs_of_def count_status_def demo_runs_db_docs demo_run_def map_filter_simps)
qed

section \<open>Run summaries\<close>

lemma summarize_counts:
  assumes ok: "driver_ok drv docs" and s: "summarize drv c runs m = (Inr sums, m')"
    and evs: "\<forall>d \<in> set (docs m sessionEventsCollection). \<exists>e. d = DocEvent e"
  shows "map fst sums = runs \<and>
    (\<forall>(r, n) \<in> set sums. n = int (length (filter (\<lambda>d. doc_field d ''run_id'' = Some (run_ID r))
       (docs m sessionEventsCollection))))"
proof (cases "runs = []")
  case True
  with s show ?thesis by (simp add: summarize_def fetchEventCounts_def)
next
  case False
  let ?f = "[(''run_id'', BIn (map run_ID runs))]" and ?ds = "docs m sessionEventsCollection"
  obtain cur rows where
    gc: "GroupCount drv (withTimeout (withTimeout c)) sessionEventsCollection ?f ''run_id'' m = (Inr cur, m')"
    and rc: "read_cursor ''session events aggregate'' ''session events aggregate'' Inr cur = Inr rows"
    and sums: "sums = map (\<lambda>r. (r, case map_of (rev rows) (run_ID r) of Some n \<Rightarrow> n | None \<Rightarrow> 0)) runs"
    using s False
    by (auto simp: summarize_def fetchEventCounts_def split: prod.splits sum.splits if_splits)
  have cur: "cur = (map Inr rows, None)" by (rule read_cursor_rows [OF rc])
  have "\<forall>d \<in> set ?ds. matches ?f d \<longrightarrow> doc_field d ''run_id'' \<noteq> None"
    using evs by (auto simp: event_field_def)
  with driver_group [OF ok gc] cur have g: "group_rows ?f ''run_id'' ?ds rows" by auto
  have m: "matches ?f d \<longleftrightarrow> (\<exists>i \<in> run_ID ` set runs. doc_field d ''run_id'' = Some i)" for d
    by (auto simp: matches_def cond_holds_def split: option.splits)
  have "(case map_of (rev rows) (run_ID r) of Some n \<Rightarrow> n | None \<Rightarrow> 0) =
      int (length (filter (\<lambda>d. doc_field d ''run_id'' = Some (run_ID r)) ?ds))" if r: "r \<in> set runs" for r
  proof (cases "map_of (rev rows) (run_ID r)")
    case None
    then have "run_ID r \<notin> set (map fst rows)" by (simp add: map_of_eq_None_iff)
    with g m r have "\<forall>d \<in> set ?ds. doc_field d ''run_id'' \<noteq> Some (run_ID r)"
      by (auto simp: group_rows_def)
    with None show ?thesis by (simp add: filter_empty_conv)
  next
    case (Some n)
    then have "(run_ID r, n) \<in> set rows" using map_of_SomeD by fastforce
    with g have "n = int (length (filter (\<lambda>d. matches ?f d \<and> doc_field d ''run_id'' = Some (run_ID r)) ?ds))"
      by (auto simp: group_rows_def)
    also have "\<dots> = int (length (filter (\<lambda>d. doc_field d ''run_id'' = Some (run_ID r)) ?ds))"
      using m r by (intro arg_cong [where f = int] arg_cong [where f = length] filter_cong) auto
    finally show ?thesis using Some by simp
  qed
  then show ?thesis by (auto simp: sums comp_def)
qed

text \<open>
  Every run that is listed carries the number of session events stored for it, zero included,
  and the runs are those of the listing, in its order.
\<close>

theorem run_summaries_count_events:
  assumes "driver_ok drv docs" and "mongo_ListTaskRunsByRepository drv c i m = (Inr sums, m')"
    and "\<forall>d \<in> set (docs m sessionEventsCollection). \<exists>e. d = DocEvent e"
  shows "\<forall>(r, n) \<in> set sums.
    n = int (length (filter (\<lambda>d. doc_field d ''run_id'' = Some (run_ID r)) (docs m sessionEventsCollection)))"
proof -
  obtain runs m1 where l: "mongo_list drv c taskRunsCollection ''task runs by repo'' ''task run'' ''task runs''
             [(''repository_id'', BEq i)] (''started_at'', - 1) None as_run m = (Inr runs, m1)"
    and s: "summarize drv c runs m1 = (Inr sums, m')"
    using assms(2) by (auto simp: mongo_ListTaskRunsByRepository_def split: prod.splits sum.splits)
  have "docs m1 = docs m" by (rule mongo_list_docs [OF assms(1) l])
  with summarize_counts [OF assms(1) s] assms(3) show ?thesis by auto
qed

theorem run_summaries_count_events_witness:
  "\<exists>sums m'. mongo_ListTaskRunsByRepository list_driver (CtxBase 0) ''repo-1'' demo_runs_db = (Inr sums, m') \<and>
     (\<forall>(r, n) \<in> set sums. n = (if run_ID r = ''r1'' then 2 else 0))"
proof -
  have "\<not> isl (fst (mongo_ListTaskRunsByRepository list_driver (CtxBase 0) ''repo-1'' demo_runs_db))" by code_simp
  then obtain sums m' where l: "mongo_ListTaskRunsByRepository list_driver (CtxBase 0) ''repo-1'' demo_runs_db = (Inr sums, m')"
    by (metis isl_def obj_sumE prod.collapse)
  have "\<forall>d \<in> set (db_docs demo_runs_db sessionEventsCollection). \<exists>e. d = DocEvent e" by (simp add: demo_runs_db_docs)
  from run_summaries_count_events [OF list_driver_ok l this] l show ?thesis
    by (auto simp: demo_runs_db_docs event_field_def demo_event_def split: if_splits)
qed

section \<open>Active batches\<close>

lemma mongo_active_docs:
  assumes "driver_ok drv docs" and "mongo_RepositoryHasActiveBatches drv c i m = (q, m')"
  shows "docs m' = docs m \<and>
    (\<forall>active. q = Inr active \<longrightarrow> (active \<longleftrightarrow> (\<exists>d \<in> set (docs m batchesCollection). matches (active_filter i) d)))"
proof -
  obtain p m1 where c: "CountDocuments drv (withTimeout c) batchesCollection (active_filter i) m = (p, m1)"
    by fastforce
  have "count_ok drv docs" using assms(1) by (simp add: driver_ok_def)
  with c have fr: "docs m1 = docs m"
    and n: "\<forall>n. p = Inr n \<longrightarrow> n = int (length (filter (matches (active_filter i)) (docs m batchesCollection)))"
    unfolding count_ok_def by blast+
  with c assms(2) show ?thesis
    by (auto simp: mongo_RepositoryHasActiveBatches_def filter_empty_conv split: sum.splits)
qed

lemma matches_active:
  "matches (active_filter i) (DocBatch b) \<longleftrightarrow> batch_RepositoryID b = i \<and>
     batch_status_str (batch_Status b) \<in> {''pending'', ''in_progress'', ''paused''}"
  by (simp add: matches_def active_filter_def cond_holds_def batch_field_def)

text \<open>
  A repository has active batches exactly when a stored batch of it is pending, in progress or
  paused; asking changes no document.
\<close>

theorem active_batches_iff:
  assumes "driver_ok drv docs" and "mongo_RepositoryHasActiveBatches drv c i m = (Inr active, m')"
    and "\<forall>d \<in> set (docs m batchesCollection). \<exists>b. d = DocBatch b"
  shows "docs m' = docs m \<and>
    (active \<longleftrightarrow> (\<exists>b. DocBatch b \<in> set (docs m batchesCollection) \<and> batch_RepositoryID b = i \<and>
        batch_status_str (batch_Status b) \<in> {''pending'', ''in_progress'', ''paused''}))"
  using mongo_active_docs [OF assms(1,2)] assms(3) matches_active by (metis (no_types, lifting))

theorem active_batches_iff_witness:
  "\<exists>m'. mongo_RepositoryHasActiveBatches list_driver (CtxBase 0) ''repo-1'' (demo_db [demo_batch] []) = (Inr True, m') \<and>
     db_docs m' = db_docs (demo_db [demo_batch] [])"
proof -
  have "fst (mongo_RepositoryHasActiveBatches list_driver (CtxBase 0) ''repo-1'' (demo_db [demo_batch] [])) = Inr True"
    by code_simp
  then obtain m' where h: "mongo_RepositoryHasActiveBatches list_driver (CtxBase 0) ''repo-1'' (demo_db [demo_batch] []) = (Inr True, m')"
    by (metis prod.collapse)
  have "\<forall>d \<in> set (db_docs (demo_db [demo_batch] []) batchesCollection). \<exists>b. d = DocBatch b"
    by (simp add: demo_db_def collections)
  from active_batches_iff [OF list_driver_ok h this] h show ?thesis by blast
qed

end
