(* ===== verification/Control_Plane.thy ===== *)
theory Control_Plane
  imports Mongo_Queries
begin

text \<open>
  The HTTP handlers of internal/app, each a function of the storage, of the request's context,
  path variables, query strings and body, and of the world.  A response is its status code and the
  value that is written as JSON; a body is the JSON value the decoder reads from it, or \<open>None\<close>
  when it cannot read one.  The live event stream is in \<open>Live_Events\<close>, restart and shutdown in \<open>Lifecycle\<close>,
  the routes and the middleware in \<open>Http_Server\<close>.
\<close>

section \<open>Responses and requests\<close>

datatype payload =
    PNone
  | PError string
  | PBatchAck string batch_status string \<comment> \<open>batch id, status, repository id\<close>
  | PBatches "batch list" int
  | PBatchDetail batch "task_run_summary list"
  | PProgress batch_progress
  | PRuns "task_run_summary list" int
  | PRunEvents task_run "session_event list" int bool int \<comment> \<open>run, events, count, truncated, limit\<close>
  | PRepository repository
  | PRepositories "repository list"
  | PAgent agent
  | PAgents "agent list"
  | PStatus string
  | PDrain string int \<comment> \<open>status, active runs\<close>
  | PVersion string
  | PText string \<comment> \<open>a body that is not JSON\<close>

record response =
  resp_status :: int
  resp_body :: payload

definition writeJSON :: "int \<Rightarrow> payload \<Rightarrow> response" where
  "writeJSON s p = \<lparr>resp_status = s, resp_body = p\<rparr>"

definition writeError :: "int \<Rightarrow> string \<Rightarrow> response" where
  "writeError s msg = writeJSON s (PError msg)"

definition writeStorageError :: "go_error \<Rightarrow> response" where
  "writeStorageError e =
     (if err_is e ErrNoDocuments then writeError 404 ''not found'' else writeError 500 ''storage error'')"

definition defaultListLimit :: int where
  "defaultListLimit = 50"

definition maxListLimit :: int where
  "maxListLimit = 200"

definition defaultEventsLimit :: int where
  "defaultEventsLimit = 10000"

definition maxEventsLimit :: int where
  "maxEventsLimit = 100000"

definition parseLimit :: "string \<Rightarrow> int \<Rightarrow> int \<Rightarrow> int" where
  "parseLimit raw def mx =
     (if raw = [] then def
      else case Atoi raw of
          None \<Rightarrow> def
        | Some v \<Rightarrow> (if v \<le> 0 then def else if mx < v then mx else v))"

definition parseBatchStatus :: "string \<Rightarrow> batch_status option" where
  "parseBatchStatus raw =
     (if raw = [] then Some BatchStatusEmpty
      else let s = ToLower raw in
        if s = ''pending'' then Some BatchStatusPending
        else if s = ''in-progress'' \<or> s = ''in_progress'' then Some BatchStatusInProgress
        else if s = ''paused'' then Some BatchStatusPaused
        else if s = ''done'' then Some BatchStatusDone
        else if s = ''failed'' then Some BatchStatusFailed
        else None)"

text \<open>
  \<^verbatim>\<open>json.Decode\<close> into a request struct: keys match field names up to letter case, unknown keys are
  ignored, null leaves a field alone, any other mismatch of types is an error.
\<close>

fun decode_string :: "string \<Rightarrow> json \<Rightarrow> string option" where
  "decode_string old (JString s) = Some s"
| "decode_string old JNull = Some old"
| "decode_string old j = None"

fun decode_strings :: "json list \<Rightarrow> string list option" where
  "decode_strings [] = Some []"
| "decode_strings (j # js) =
     (case (decode_string [] j, decode_strings js) of
        (Some s, Some ss) \<Rightarrow> Some (s # ss)
      | _ \<Rightarrow> None)"

fun decode_string_list :: "json \<Rightarrow> string list option" where
  "decode_string_list (JArray js) = decode_strings js"
| "decode_string_list JNull = Some []"
| "decode_string_list j = None"

fun decode_fields :: "(string \<Rightarrow> json \<Rightarrow> 'r \<Rightarrow> 'r option) \<Rightarrow> (string \<times> json) list \<Rightarrow> 'r \<Rightarrow> 'r option" where
  "decode_fields field [] r = Some r"
| "decode_fields field ((k, j) # kvs) r =
     (case field k j r of None \<Rightarrow> None | Some r' \<Rightarrow> decode_fields field kvs r')"

definition decode_request :: "(string \<Rightarrow> json \<Rightarrow> 'r \<Rightarrow> 'r option) \<Rightarrow> 'r \<Rightarrow> json option \<Rightarrow> 'r option" where
  "decode_request field zero body =
     (case body of
        Some (JObject kvs) \<Rightarrow> decode_fields field kvs zero
      | Some JNull \<Rightarrow> Some zero
      | _ \<Rightarrow> None)"

record addBatchRequest =
  abr_Items :: "string list"
  abr_SessionName :: string

record agentRequest =
  ar_Name :: string
  ar_Runtime :: string

record repositoryRequest =
  rr_Name :: string
  rr_Path :: string

definition addBatch_field :: "string \<Rightarrow> json \<Rightarrow> addBatchRequest \<Rightarrow> addBatchRequest option" where
  "addBatch_field k j r =
     (if EqualFold k ''items'' then map_option (\<lambda>v. r\<lparr>abr_Items := v\<rparr>) (decode_string_list j)
      else if EqualFold k ''session_name''
        then map_option (\<lambda>v. r\<lparr>abr_SessionName := v\<rparr>) (decode_string (abr_SessionName r) j)
      else Some r)"

definition agent_request_field :: "string \<Rightarrow> json \<Rightarrow> agentRequest \<Rightarrow> agentRequest option" where
  "agent_request_field k j r =
     (if EqualFold k ''name'' then map_option (\<lambda>v. r\<lparr>ar_Name := v\<rparr>) (decode_string (ar_Name r) j)
      else if EqualFold k ''runtime''
        then map_option (\<lambda>v. r\<lparr>ar_Runtime := v\<rparr>) (decode_string (ar_Runtime r) j)
      else Some r)"

definition repository_request_field :: "string \<Rightarrow> json \<Rightarrow> repositoryRequest \<Rightarrow> repositoryRequest option" where
  "repository_request_field k j r =
     (if EqualFold k ''name'' then map_option (\<lambda>v. r\<lparr>rr_Name := v\<rparr>) (decode_string (rr_Name r) j)
      else if EqualFold k ''path'' then map_option (\<lambda>v. r\<lparr>rr_Path := v\<rparr>) (decode_string (rr_Path r) j)
      else Some r)"

section \<open>Batches\<close>

text \<open>\<open>now\<close> is \<^verbatim>\<open>time.Now().UTC()\<close>.\<close>

record 'w app =
  app_store :: "'w storage"
  app_now :: "('w, go_time) act"

definition batch_items_of :: "string list \<Rightarrow> batch_item list" where
  "batch_items_of its =
     map (\<lambda>it. \<lparr>item_Input = it, item_Status = ItemStatusPending, item_Attempts = 0\<rparr>)
       (filter (\<lambda>it. it \<noteq> []) (map TrimSpace its))"

definition addBatchHandler :: "'w app \<Rightarrow> ctx \<Rightarrow> string \<Rightarrow> json option \<Rightarrow> ('w, response) act" where
  "addBatchHandler a c repoID body w =
     (if repoID = [] then (writeError 400 ''repository id is required'', w)
      else case GetRepository (app_store a) c repoID w of
          (Inl e, w1) \<Rightarrow>
            (if e = ErrNoDocuments then (writeError 404 ''repository not found'', w1)
             else (writeStorageError e, w1))
        | (Inr _, w1) \<Rightarrow>
            (case decode_request addBatch_field \<lparr>abr_Items = [], abr_SessionName = []\<rparr> body of
               None \<Rightarrow> (writeError 400 ''invalid json'', w1)
             | Some req \<Rightarrow>
                 (let items = batch_items_of (abr_Items req)
                  in if items = [] then (writeError 400 ''items is required'', w1)
                     else
                       let (now, w2) = app_now a w1;
                           b = \<lparr>batch_ID = ''batch-'' @ FormatInt (unix_nano now), batch_RepositoryID = repoID,
                                batch_CreatedAt = now, batch_UpdatedAt = now, batch_Items = items,
                                batch_Status = BatchStatusPending, batch_Summary = [],
                                batch_SessionName = TrimSpace (abr_SessionName req)\<rparr>
                       in (case CreateBatch (app_store a) c b w2 of
                             ((Some e, b1), w3) \<Rightarrow> (writeStorageError e, w3)
                           | ((None, b1), w3) \<Rightarrow>
                               (writeJSON 201 (PBatchAck (batch_ID b1) (batch_Status b1) (batch_RepositoryID b1)), w3)))))"

text \<open>The head of the three handlers that change a batch: the repository, the batch, and that the
  batch belongs to the repository.\<close>

definition with_repo_batch ::
    "'w app \<Rightarrow> ctx \<Rightarrow> string \<Rightarrow> string \<Rightarrow> (batch \<Rightarrow> ('w, response) act) \<Rightarrow> ('w, response) act" where
  "with_repo_batch a c repoID batchID k w =
     (if repoID = [] \<or> batchID = [] then (writeError 400 ''repository id and batch id are required'', w)
      else case GetRepository (app_store a) c repoID w of
          (Inl e, w1) \<Rightarrow> (writeStorageError e, w1)
        | (Inr _, w1) \<Rightarrow>
            (case GetBatch (app_store a) c batchID w1 of
               (Inl e, w2) \<Rightarrow> (writeStorageError e, w2)
             | (Inr b, w2) \<Rightarrow>
                 (if batch_RepositoryID b \<noteq> repoID then (writeError 404 ''batch not found for repository'', w2)
                  else k b w2)))"

text \<open>Their tail: the new timestamp, the write, the acknowledgement.\<close>

definition save_batch :: "'w app \<Rightarrow> ctx \<Rightarrow> batch \<Rightarrow> ('w, response) act" where
  "save_batch a c b w =
     (let (now, w1) = app_now a w
      in case UpdateBatch (app_store a) c (b\<lparr>batch_UpdatedAt := now\<rparr>) w1 of
           ((Some e, b1), w2) \<Rightarrow> (writeStorageError e, w2)
         | ((None, b1), w2) \<Rightarrow>
             (writeJSON 200 (PBatchAck (batch_ID b1) (batch_Status b1) (batch_RepositoryID b1)), w2))"

definition pauseBatchHandler :: "'w app \<Rightarrow> ctx \<Rightarrow> string \<Rightarrow> string \<Rightarrow> ('w, response) act" where
  "pauseBatchHandler a c repoID batchID =
     with_repo_batch a c repoID batchID (\<lambda>b w.
       if batch_Status b = BatchStatusDone \<or> batch_Status b = BatchStatusFailed
       then (writeError 409 ''batch cannot be paused in current state'', w)
       else if batch_Status b = BatchStatusPaused then (writeError 409 ''batch already paused'', w)
       else save_batch a c (b\<lparr>batch_Status := BatchStatusPaused\<rparr>) w)"

definition resumeBatchHandler :: "'w app \<Rightarrow> ctx \<Rightarrow> string \<Rightarrow> string \<Rightarrow> ('w, response) act" where
  "resumeBatchHandler a c repoID batchID =
     with_repo_batch a c repoID batchID (\<lambda>b w.
       if batch_Status b \<noteq> BatchStatusPaused then (writeError 409 ''batch is not paused'', w)
       else save_batch a c (b\<lparr>batch_Status := BatchStatusPending\<rparr>) w)"

fun first_failed_from :: "nat \<Rightarrow> batch_item list \<Rightarrow> nat option" where
  "first_failed_from i [] = None"
| "first_failed_from i (it # its) =
     (if item_Status it = ItemStatusFailed then Some i else first_failed_from (Suc i) its)"

definition restart_item :: "nat \<Rightarrow> batch \<Rightarrow> batch" where
  "restart_item i b =
     b\<lparr>batch_Items := (batch_Items b)[i := (batch_Items b ! i)\<lparr>item_Status := ItemStatusPending, item_Attempts := 0\<rparr>],
       batch_Status := BatchStatusPending\<rparr>"

definition restartBatchHandler :: "'w app \<Rightarrow> ctx \<Rightarrow> string \<Rightarrow> string \<Rightarrow> ('w, response) act" where
  "restartBatchHandler a c repoID batchID =
     with_repo_batch a c repoID batchID (\<lambda>b w.
       if batch_Status b \<noteq> BatchStatusFailed then (writeError 409 ''batch is not in failed state'', w)
       else case first_failed_from 0 (batch_Items b) of
           None \<Rightarrow> (writeError 400 ''batch has no failed item to restart'', w)
         | Some i \<Rightarrow> save_batch a c (restart_item i b) w)"

definition listBatchesHandler :: "'w app \<Rightarrow> ctx \<Rightarrow> string \<Rightarrow> ('w, response) act" where
  "listBatchesHandler a c limit w =
     (case ListBatches (app_store a) c (parseLimit limit defaultListLimit maxListLimit) w of
        (Inl e, w1) \<Rightarrow> (writeStorageError e, w1)
      | (Inr bs, w1) \<Rightarrow> (writeJSON 200 (PBatches bs (int (length bs))), w1))"

definition listRepositoryBatchesHandler ::
    "'w app \<Rightarrow> ctx \<Rightarrow> string \<Rightarrow> string \<Rightarrow> string \<Rightarrow> ('w, response) act" where
  "listRepositoryBatchesHandler a c repoID status limit w =
     (if repoID = [] then (writeError 400 ''repository id is required'', w)
      else case GetRepository (app_store a) c repoID w of
          (Inl e, w1) \<Rightarrow>
            (if e = ErrNoDocuments then (writeError 404 ''repository not found'', w1)
             else (writeStorageError e, w1))
        | (Inr _, w1) \<Rightarrow>
            (case parseBatchStatus (TrimSpace status) of
               None \<Rightarrow> (writeError 400 ''invalid status'', w1)
             | Some s \<Rightarrow>
                 (case ListBatchesByRepository (app_store a) c repoID s
                         (parseLimit limit defaultListLimit maxListLimit) w1 of
                    (Inl e, w2) \<Rightarrow> (writeStorageError e, w2)
                  | (Inr bs, w2) \<Rightarrow> (writeJSON 200 (PBatches bs (int (length bs))), w2))))"

definition batchDetailHandler :: "'w app \<Rightarrow> ctx \<Rightarrow> string \<Rightarrow> ('w, response) act" where
  "batchDetailHandler a c batchID w =
     (if batchID = [] then (writeError 400 ''batch id is required'', w)
      else case GetBatch (app_store a) c batchID w of
          (Inl e, w1) \<Rightarrow> (writeStorageError e, w1)
        | (Inr b, w1) \<Rightarrow>
            (case ListTaskRuns (app_store a) c batchID w1 of
               (Inl e, w2) \<Rightarrow> (writeStorageError e, w2)
             | (Inr runs, w2) \<Rightarrow> (writeJSON 200 (PBatchDetail b runs), w2)))"

definition batchProgressHandler :: "'w app \<Rightarrow> ctx \<Rightarrow> string \<Rightarrow> ('w, response) act" where
  "batchProgressHandler a c batchID w =
     (if batchID = [] then (writeError 400 ''batch id is required'', w)
      else case GetBatchProgress (app_store a) c batchID w of
          (Inl e, w1) \<Rightarrow> (writeStorageError e, w1)
        | (Inr p, w1) \<Rightarrow> (writeJSON 200 (PProgress p), w1))"

section \<open>Runs\<close>

definition listRunsHandler :: "'w app \<Rightarrow> ctx \<Rightarrow> string \<Rightarrow> string \<Rightarrow> string \<Rightarrow> ('w, response) act" where
  "listRunsHandler a c repoID batchID limit =
     with_repo_batch a c repoID batchID (\<lambda>b w.
       case ListTaskRuns (app_store a) c batchID w of
         (Inl e, w1) \<Rightarrow> (writeStorageError e, w1)
       | (Inr runs, w1) \<Rightarrow>
           (let runs' = cap_list (parseLimit limit defaultListLimit maxListLimit) runs
            in (writeJSON 200 (PRuns runs' (int (length runs'))), w1)))"

text \<open>\<^verbatim>\<open>runEventsHandler\<close> and \<^verbatim>\<open>runDetailHandler\<close> differ in the name of the query parameter and in the
  names of the fields they write.\<close>

definition runEventsHandler :: "'w app \<Rightarrow> ctx \<Rightarrow> string \<Rightarrow> string \<Rightarrow> ('w, response) act" where
  "runEventsHandler a c runID limit w =
     (if runID = [] then (writeError 400 ''run id is required'', w)
      else case GetTaskRun (app_store a) c runID w of
          (Inl e, w1) \<Rightarrow> (writeStorageError e, w1)
        | (Inr run, w1) \<Rightarrow>
            (let lim = parseLimit limit defaultEventsLimit maxEventsLimit
             in case ListSessionEvents (app_store a) c (run_SessionID run) w1 of
                  (Inl e, w2) \<Rightarrow> (writeStorageError e, w2)
                | (Inr evs, w2) \<Rightarrow>
                    (let evs' = cap_list lim evs
                     in (writeJSON 200 (PRunEvents run evs' (int (length evs')) (lim < int (length evs)) lim), w2))))"

definition runDetailHandler :: "'w app \<Rightarrow> ctx \<Rightarrow> string \<Rightarrow> string \<Rightarrow> ('w, response) act" where
  "runDetailHandler a c runID event_limit = runEventsHandler a c runID event_limit"

section \<open>Agents\<close>

definition isValidAgentRuntime :: "string \<Rightarrow> bool" where
  "isValidAgentRuntime t \<longleftrightarrow> t = ''codex'' \<or> t = ''copilot''"

text \<open>The part the two writing handlers share: decode, normalise, validate.\<close>

definition agent_request :: "json option \<Rightarrow> response + agentRequest" where
  "agent_request body =
     (case decode_request agent_request_field \<lparr>ar_Name = [], ar_Runtime = []\<rparr> body of
        None \<Rightarrow> Inl (writeError 400 ''invalid json'')
      | Some r \<Rightarrow>
          (let req = \<lparr>ar_Name = TrimSpace (ar_Name r), ar_Runtime = ToLower (TrimSpace (ar_Runtime r))\<rparr>
           in if ar_Name req = [] then Inl (writeError 400 ''name is required'')
              else if \<not> isValidAgentRuntime (ar_Runtime req) then Inl (writeError 400 ''invalid agent type'')
              else Inr req))"

definition listAgentsHandler :: "'w app \<Rightarrow> ctx \<Rightarrow> ('w, response) act" where
  "listAgentsHandler a c w =
     (case ListAgents (app_store a) c w of
        (Inl e, w1) \<Rightarrow> (writeStorageError e, w1)
      | (Inr ags, w1) \<Rightarrow> (writeJSON 200 (PAgents ags), w1))"

definition createAgentHandler :: "'w app \<Rightarrow> ctx \<Rightarrow> json option \<Rightarrow> ('w, response) act" where
  "createAgentHandler a c body w =
     (case agent_request body of
        Inl r \<Rightarrow> (r, w)
      | Inr req \<Rightarrow>
          (let (now, w1) = app_now a w;
               ag = \<lparr>agent_ID = ''agent-'' @ FormatInt (unix_nano now), agent_Name = ar_Name req,
                     agent_Runtime = ar_Runtime req, agent_Status = AgentStatusIdle,
                     agent_CreatedAt = now, agent_UpdatedAt = now\<rparr>
           in case CreateAgent (app_store a) c ag w1 of
                ((Some e, ag1), w2) \<Rightarrow>
                  (if e = ErrConflict then (writeError 409 ''agent already exists'', w2)
                   else (writeStorageError e, w2))
              | ((None, ag1), w2) \<Rightarrow> (writeJSON 201 (PAgent ag1), w2)))"

definition with_agent :: "'w app \<Rightarrow> ctx \<Rightarrow> string \<Rightarrow> (agent \<Rightarrow> ('w, response) act) \<Rightarrow> ('w, response) act" where
  "with_agent a c i k w =
     (case GetAgent (app_store a) c i w of
        (Inl e, w1) \<Rightarrow>
          (if e = ErrNoDocuments then (writeError 404 ''not found'', w1) else (writeStorageError e, w1))
      | (Inr ag, w1) \<Rightarrow> k ag w1)"

definition getAgentHandler :: "'w app \<Rightarrow> ctx \<Rightarrow> string \<Rightarrow> ('w, response) act" where
  "getAgentHandler a c i = with_agent a c i (\<lambda>ag w. (writeJSON 200 (PAgent ag), w))"

definition save_agent :: "'w app \<Rightarrow> ctx \<Rightarrow> json option \<Rightarrow> agent \<Rightarrow> ('w, response) act" where
  "save_agent a c body ag w =
     (if agent_Status ag = AgentStatusBusy then (writeError 409 ''agent is busy'', w)
      else case agent_request body of
          Inl r \<Rightarrow> (r, w)
        | Inr req \<Rightarrow>
            (let (now, w1) = app_now a w;
                 ag1 = ag\<lparr>agent_Name := ar_Name req, agent_Runtime := ar_Runtime req, agent_UpdatedAt := now\<rparr>
             in case UpdateAgent (app_store a) c ag1 w1 of
                  ((Some e, ag2), w2) \<Rightarrow>
                    (if e = ErrConflict then (writeError 409 ''agent already exists'', w2)
                     else (writeStorageError e, w2))
                | ((None, ag2), w2) \<Rightarrow> (writeJSON 200 (PAgent ag2), w2)))"

definition updateAgentHandler :: "'w app \<Rightarrow> ctx \<Rightarrow> string \<Rightarrow> json option \<Rightarrow> ('w, response) act" where
  "updateAgentHandler a c i body = with_agent a c i (save_agent a c body)"

definition deleteAgentHandler :: "'w app \<Rightarrow> ctx \<Rightarrow> string \<Rightarrow> ('w, response) act" where
  "deleteAgentHandler a c i =
     with_agent a c i (\<lambda>ag w.
       if agent_Status ag = AgentStatusBusy then (writeError 409 ''agent is busy'', w)
       else case DeleteAgent (app_store a) c i w of
           (Some e, w1) \<Rightarrow> (writeStorageError e, w1)
         | (None, w1) \<Rightarrow> (writeJSON 204 PNone, w1))"

section \<open>Repositories\<close>

text \<open>\<^verbatim>\<open>filepath.IsAbs\<close> on the platform the service is built for: the path starts with a slash.\<close>

definition isValidRepoPath :: "string \<Rightarrow> bool" where
  "isValidRepoPath p \<longleftrightarrow> p \<noteq> [] \<and> prefix ''/'' p"

definition repository_request :: "json option \<Rightarrow> response + repositoryRequest" where
  "repository_request body =
     (case decode_request repository_request_field \<lparr>rr_Name = [], rr_Path = []\<rparr> body of
        None \<Rightarrow> Inl (writeError 400 ''invalid json'')
      | Some r \<Rightarrow>
          (let req = \<lparr>rr_Name = TrimSpace (rr_Name r), rr_Path = TrimSpace (rr_Path r)\<rparr>
           in if rr_Name req = [] then Inl (writeError 400 ''name is required'')
              else if \<not> isValidRepoPath (rr_Path req) then Inl (writeError 400 ''invalid path'')
              else Inr req))"

definition listRepositoriesHandler :: "'w app \<Rightarrow> ctx \<Rightarrow> ('w, response) act" where
  "listRepositoriesHandler a c w =
     (case ListRepositories (app_store a) c w of
        (Inl e, w1) \<Rightarrow> (writeStorageError e, w1)
      | (Inr rs, w1) \<Rightarrow> (writeJSON 200 (PRepositories rs), w1))"

definition createRepositoryHandler :: "'w app \<Rightarrow> ctx \<Rightarrow> json option \<Rightarrow> ('w, response) act" where
  "createRepositoryHandler a c body w =
     (case repository_request body of
        Inl r \<Rightarrow> (r, w)
      | Inr req \<Rightarrow>
          (let (now, w1) = app_now a w;
               rp = \<lparr>repo_ID = ''repo-'' @ FormatInt (unix_nano now), repo_Name = rr_Name req,
                     repo_Path = rr_Path req, repo_CreatedAt = now, repo_UpdatedAt = now\<rparr>
           in case CreateRepository (app_store a) c rp w1 of
                ((Some e, rp1), w2) \<Rightarrow>
                  (if e = ErrConflict then (writeError 409 ''repository already exists'', w2)
                   else (writeStorageError e, w2))
              | ((None, rp1), w2) \<Rightarrow> (writeJSON 201 (PRepository rp1), w2)))"

definition with_repository :: "'w app \<Rightarrow> ctx \<Rightarrow> string \<Rightarrow> (repository \<Rightarrow> ('w, response) act) \<Rightarrow> ('w, response) act" where
  "with_repository a c i k w =
     (case GetRepository (app_store a) c i w of
        (Inl e, w1) \<Rightarrow>
          (if e = ErrNoDocuments then (writeError 404 ''not found'', w1) else (writeStorageError e, w1))
      | (Inr rp, w1) \<Rightarrow> k rp w1)"

definition getRepositoryHandler :: "'w app \<Rightarrow> ctx \<Rightarrow> string \<Rightarrow> ('w, response) act" where
  "getRepositoryHandler a c i = with_repository a c i (\<lambda>rp w. (writeJSON 200 (PRepository rp), w))"

definition updateRepositoryHandler :: "'w app \<Rightarrow> ctx \<Rightarrow> string \<Rightarrow> json option \<Rightarrow> ('w, response) act" where
  "updateRepositoryHandler a c i body =
     with_repository a c i (\<lambda>rp w.
       case repository_request body of
         Inl r \<Rightarrow> (r, w)
       | Inr req \<Rightarrow>
           (let (now, w1) = app_now a w;
                rp1 = rp\<lparr>repo_Name := rr_Name req, repo_Path := rr_Path req, repo_UpdatedAt := now\<rparr>
            in case UpdateRepository (app_store a) c rp1 w1 of
                 ((Some e, rp2), w2) \<Rightarrow>
                   (if e = ErrConflict then (writeError 409 ''repository already exists'', w2)
                    else (writeStorageError e, w2))
               | ((None, rp2), w2) \<Rightarrow> (writeJSON 200 (PRepository rp2), w2)))"

definition deleteRepositoryHandler :: "'w app \<Rightarrow> ctx \<Rightarrow> string \<Rightarrow> ('w, response) act" where
  "deleteRepositoryHandler a c i =
     with_repository a c i (\<lambda>rp w.
       case RepositoryHasActiveBatches (app_store a) c i w of
         (Inl e, w1) \<Rightarrow> (writeStorageError e, w1)
       | (Inr active, w1) \<Rightarrow>
           (if active then (writeError 409 ''repository has active batches'', w1)
            else case DeleteRepository (app_store a) c i w1 of
                (Some e, w2) \<Rightarrow> (writeStorageError e, w2)
              | (None, w2) \<Rightarrow> (writeJSON 204 PNone, w2)))"

section \<open>Request identifiers\<close>

text \<open>\<^verbatim>\<open>requestIDMiddleware\<close> over the counter, a \<^verbatim>\<open>uint64\<close>: the identifier of a request, given its header.\<close>

definition requestID :: "string \<Rightarrow> (nat, string) act" where
  "requestID header n =
     (if header = [] then (let n' = (n + 1) mod 2 ^ 64 in (nat_str n', n')) else (header, n))"

section \<open>What the handlers rely on\<close>

text \<open>
  Beyond the contract of the scheduler: reading a repository or an agent and reading the clock
  change no document, and a new batch is stored under its identifier, if no document has it, as it
  is handed back.
\<close>

locale control_store = sched_store st batch_at agent_at
  for st :: "'a storage" and batch_at :: "'a \<Rightarrow> string \<Rightarrow> batch option"
    and agent_at :: "'a \<Rightarrow> string \<Rightarrow> agent option" +
  fixes now :: "('a, go_time) act" and batch_fresh :: "'a \<Rightarrow> string \<Rightarrow> bool"
  assumes now_frame: "now w = (t, w') \<Longrightarrow> batch_at w' = batch_at w \<and> agent_at w' = agent_at w"
    and get_repository_frame:
      "GetRepository st c i w = (g, w') \<Longrightarrow> batch_at w' = batch_at w \<and> agent_at w' = agent_at w"
    and get_batch_agents: "GetBatch st c i w = (gb, w') \<Longrightarrow> agent_at w' = agent_at w"
    and get_agent_ok: "GetAgent st c i w = (Inr a, w') \<Longrightarrow> agent_at w i = Some (agent_core a) \<and> agent_ID a = i"
    and get_agent_frame: "GetAgent st c i w = (ga, w') \<Longrightarrow> batch_at w' = batch_at w \<and> agent_at w' = agent_at w"
    and create_batch_ok:
      "CreateBatch st c b w = ((None, b'), w') \<Longrightarrow> batch_fresh w (batch_ID b) \<Longrightarrow>
         batch_at w' = (batch_at w)(batch_ID b \<mapsto> batch_core b')"
    and create_batch_doc:
      "CreateBatch st c b w = ((r, b'), w') \<Longrightarrow> items_set (batch_Items b) \<Longrightarrow>
         batch_Status b \<noteq> BatchStatusEmpty \<Longrightarrow> batch_core b' = batch_core b"

lemma writeError_simps [simp]:
  "resp_status (writeError s m) = s" "resp_body (writeError s m) = PError m"
  "resp_status (writeJSON s p) = s" "resp_body (writeJSON s p) = p"
  by (simp_all add: writeError_def writeJSON_def)

lemma writeStorageError_status: "resp_status (writeStorageError e) = 404 \<or> resp_status (writeStorageError e) = 500"
  by (simp add: writeStorageError_def)

lemma writeStorageError_not [simp]:
  "resp_status (writeStorageError e) \<noteq> 200" "resp_status (writeStorageError e) \<noteq> 201"
  "resp_status (writeStorageError e) \<noteq> 204" "resp_status (writeStorageError e) \<noteq> 400"
  "resp_status (writeStorageError e) \<noteq> 409"
  using writeStorageError_status [of e] by auto

text \<open>What each request does to a batch it accepts; \<open>None\<close> is a refusal with a conflict or, for a
  restart without a failed item, a bad request.\<close>

datatype batch_request = PauseRequest | ResumeRequest | RestartRequest

fun request_next :: "batch_request \<Rightarrow> batch \<Rightarrow> batch option" where
  "request_next PauseRequest b =
     (if batch_Status b \<in> {BatchStatusDone, BatchStatusFailed, BatchStatusPaused} then None
      else Some (b\<lparr>batch_Status := BatchStatusPaused\<rparr>))"
| "request_next ResumeRequest b =
     (if batch_Status b = BatchStatusPaused then Some (b\<lparr>batch_Status := BatchStatusPending\<rparr>) else None)"
| "request_next RestartRequest b =
     (if batch_Status b = BatchStatusFailed
      then map_option (\<lambda>i. restart_item i b) (first_failed_from 0 (batch_Items b)) else None)"

fun batchRequestHandler ::
    "batch_request \<Rightarrow> 'w app \<Rightarrow> ctx \<Rightarrow> string \<Rightarrow> string \<Rightarrow> ('w, response) act" where
  "batchRequestHandler PauseRequest = pauseBatchHandler"
| "batchRequestHandler ResumeRequest = resumeBatchHandler"
| "batchRequestHandler RestartRequest = restartBatchHandler"

text \<open>The three handlers in one form: the transition, then the write.\<close>

lemma batchRequestHandler_cases:
  assumes "batchRequestHandler rq a c repoID batchID w = (r, w')"
  shows "\<exists>k. with_repo_batch a c repoID batchID k w = (r, w') \<and>
    (\<forall>b w2 r2 w3. k b w2 = (r2, w3) \<longrightarrow>
       (case request_next rq b of
          None \<Rightarrow> resp_status r2 \<in> {400, 409} \<and> w3 = w2
        | Some b' \<Rightarrow> save_batch a c b' w2 = (r2, w3)))"
proof (cases rq)
  case PauseRequest
  with assms show ?thesis
    by (auto simp: pauseBatchHandler_def intro!: exI)
next
  case ResumeRequest
  with assms show ?thesis
    by (auto simp: resumeBatchHandler_def intro!: exI)
next
  case RestartRequest
  with assms show ?thesis
    by (auto simp: restartBatchHandler_def split: option.split intro!: exI)
qed

lemma restart_item_core: "batch_core (restart_item i b) = restart_item i (batch_core b)"
  by (simp add: restart_item_def batch_core_update)

lemma restart_item_simps [simp]:
  "batch_ID (restart_item i b) = batch_ID b"
  "batch_RepositoryID (restart_item i b) = batch_RepositoryID b"
  "batch_Status (restart_item i b) = BatchStatusPending"
  by (simp_all add: restart_item_def)

lemma request_next_core: "request_next rq (batch_core b) = map_option batch_core (request_next rq b)"
  by (cases rq) (simp_all add: batch_core_update restart_item_core option.map_comp comp_def)

lemma request_next_ids:
  "request_next rq b = Some b' \<Longrightarrow> batch_ID b' = batch_ID b \<and> batch_RepositoryID b' = batch_RepositoryID b"
  by (cases rq) (auto split: if_splits)

lemma first_failed_from_some:
  "first_failed_from j its = Some i \<Longrightarrow>
     j \<le> i \<and> i - j < length its \<and> item_Status (its ! (i - j)) = ItemStatusFailed \<and>
     (\<forall>k < i - j. item_Status (its ! k) \<noteq> ItemStatusFailed)"
proof (induction j its rule: first_failed_from.induct)
  case (1 i)
  then show ?case by simp
next
  case (2 j it its)
  show ?case
  proof (cases "item_Status it = ItemStatusFailed")
    case True
    with 2(2) show ?thesis by simp
  next
    case False
    with 2 have ih: "Suc j \<le> i" "i - Suc j < length its" "item_Status (its ! (i - Suc j)) = ItemStatusFailed"
      "\<forall>k < i - Suc j. item_Status (its ! k) \<noteq> ItemStatusFailed" by auto
    then have "i - j = Suc (i - Suc j)" by linarith
    with ih False show ?thesis by (auto simp: nth_Cons split: nat.split)
  qed
qed

lemma first_failed_from_none: "first_failed_from j its = None \<longleftrightarrow> (\<forall>it \<in> set its. item_Status it \<noteq> ItemStatusFailed)"
  by (induction j its rule: first_failed_from.induct) auto

lemma request_next_items_set:
  assumes "request_next rq b = Some b'" and "items_set (batch_Items b)"
  shows "items_set (batch_Items b')"
proof (cases rq)
  case RestartRequest
  with assms obtain i where "b' = restart_item i b" by (auto split: if_splits)
  with assms(2) show ?thesis
    by (simp add: restart_item_def items_set_def list_all_list_update item_set_def)
qed (use assms in \<open>auto split: if_splits\<close>)

lemma add_batch_items:
  "batch_items_of its \<noteq> [] \<Longrightarrow>
     items_set (batch_items_of its) \<and>
     list_all (\<lambda>it. item_Status it = ItemStatusPending \<and> item_Attempts it = 0) (batch_items_of its)"
  by (auto simp: batch_items_of_def items_set_def item_set_def list_all_iff)

context control_store begin

abbreviation the_app :: "'a app" where
  "the_app \<equiv> \<lparr>app_store = st, app_now = now\<rparr>"

lemma with_repo_batch_cases:
  assumes "with_repo_batch the_app c repoID batchID k w = (r, w')"
  shows "resp_status r \<in> {400, 404, 500} \<and> batch_at w' = batch_at w \<or>
    (\<exists>b w2. batch_at w batchID = Some (batch_core b) \<and> batch_ID b = batchID \<and>
       batch_RepositoryID b = repoID \<and> batch_at w2 = batch_at w \<and> k b w2 = (r, w'))"
proof -
  obtain q w1 where g: "GetRepository st c repoID w = (q, w1)" by fastforce
  obtain p w2 where b: "GetBatch st c batchID w1 = (p, w2)" by fastforce
  have fr: "batch_at w1 = batch_at w" "batch_at w2 = batch_at w"
    using get_repository_frame [OF g] get_batch_frame [OF b] by auto
  show ?thesis
  proof (cases p)
    case (Inl e)
    with assms g b fr writeStorageError_status show ?thesis
      by (auto simp: with_repo_batch_def split: if_splits sum.splits)
  next
    case (Inr d)
    with assms g b fr get_batch_ok [of c batchID w1 d w2] writeStorageError_status show ?thesis
      by (auto simp: with_repo_batch_def split: if_splits sum.splits)
  qed
qed

lemma save_batch_cases:
  assumes "save_batch the_app c b w = (r, w')" and "items_set (batch_Items b)"
  shows "resp_status r = 200 \<and> batch_at w' = (batch_at w)(batch_ID b \<mapsto> batch_core b) \<and>
           resp_body r = PBatchAck (batch_ID b) (batch_Status b) (batch_RepositoryID b) \<or>
         resp_status r \<in> {404, 500} \<and>
           (batch_at w' = batch_at w \<or> batch_at w' = (batch_at w)(batch_ID b \<mapsto> batch_core b))"
proof -
  obtain t w1 where n: "now w = (t, w1)" by fastforce
  let ?b = "b\<lparr>batch_UpdatedAt := t\<rparr>"
  obtain q b1 where u: "UpdateBatch st c ?b w1 = ((q, b1), w')"
    using assms(1) n by (auto simp: save_batch_def split: prod.splits option.splits)
  have core: "batch_core b1 = batch_core b"
    using update_batch_doc [OF u] assms(2) by simp
  show ?thesis
  proof (cases q)
    case None
    with u have "batch_at w' = (batch_at w)(batch_ID b \<mapsto> batch_core b)"
      using update_batch_ok [of c ?b w1 b1 w'] core now_frame [OF n] by simp
    moreover have "r = writeJSON 200 (PBatchAck (batch_ID b1) (batch_Status b1) (batch_RepositoryID b1))"
      using assms(1) n u None by (simp add: save_batch_def)
    ultimately show ?thesis using batch_core_eqD [OF core] by simp
  next
    case (Some e)
    then have "r = writeStorageError e" using assms(1) n u by (simp add: save_batch_def)
    moreover have "batch_at w' = batch_at w \<or> batch_at w' = (batch_at w)(batch_ID b \<mapsto> batch_core b)"
      using Some u update_batch_err [of c ?b w1 e b1 w'] core now_frame [OF n] by auto
    ultimately show ?thesis using writeStorageError_status by auto
  qed
qed

text \<open>A request that is answered with 200 has replaced the stored batch by the next one; a refused
  one has changed nothing.\<close>

lemma batch_request:
  assumes "batchRequestHandler rq the_app c repoID batchID w = (r, w')"
    and set: "\<forall>b. batch_at w batchID = Some b \<longrightarrow> items_set (batch_Items b)"
  shows "(resp_status r = 200 \<longrightarrow>
      (\<exists>b b'. batch_at w batchID = Some b \<and> batch_RepositoryID b = repoID \<and> request_next rq b = Some b' \<and>
         batch_at w' = (batch_at w)(batchID \<mapsto> b') \<and> resp_body r = PBatchAck batchID (batch_Status b') repoID)) \<and>
    (resp_status r \<in> {400, 409} \<longrightarrow> batch_at w' = batch_at w) \<and>
    (resp_status r = 409 \<longrightarrow> (\<exists>b. batch_at w batchID = Some b \<and> batch_RepositoryID b = repoID \<and> request_next rq b = None)) \<and>
    (batch_at w' = batch_at w \<or>
      (\<exists>b b'. batch_at w batchID = Some b \<and> request_next rq b = Some b' \<and> batch_at w' = (batch_at w)(batchID \<mapsto> b')))"
proof -
  from batchRequestHandler_cases [OF assms(1)] obtain k where
    k: "with_repo_batch the_app c repoID batchID k w = (r, w')"
    and step: "\<And>b w2 r2 w3. k b w2 = (r2, w3) \<Longrightarrow>
       (case request_next rq b of
          None \<Rightarrow> resp_status r2 \<in> {400, 409} \<and> w3 = w2
        | Some b' \<Rightarrow> save_batch the_app c b' w2 = (r2, w3))" by blast
  from with_repo_batch_cases [OF k] show ?thesis
  proof (elim disjE exE conjE)
    assume "resp_status r \<in> {400, 404, 500}" and "batch_at w' = batch_at w"
    then show ?thesis by auto
  next
    fix b w2
    assume b: "batch_at w batchID = Some (batch_core b)" "batch_ID b = batchID" "batch_RepositoryID b = repoID"
      and fr: "batch_at w2 = batch_at w" and kb: "k b w2 = (r, w')"
    show ?thesis
    proof (cases "request_next rq b")
      case None
      with step [OF kb] b fr show ?thesis by (auto simp: request_next_core)
    next
      case (Some b')
      then have sv: "save_batch the_app c b' w2 = (r, w')" using step [OF kb] by simp
      have "items_set (batch_Items b)" using set b(1) by auto
      then have set': "items_set (batch_Items b')" by (rule request_next_items_set [OF Some])
      have nx: "request_next rq (batch_core b) = Some (batch_core b')" using Some by (simp add: request_next_core)
      from save_batch_cases [OF sv set'] request_next_ids [OF Some] b fr nx show ?thesis by auto
    qed
  qed
qed

text \<open>A batch that is acknowledged as created is stored, with the requested items as they were
  trimmed, all pending.\<close>

lemma add_batch:
  assumes "addBatchHandler the_app c repoID body w = (r, w')" and "resp_status r = 201"
    and fresh: "case now (snd (GetRepository st c repoID w)) of (t, w2) \<Rightarrow>
        batch_fresh w2 (''batch-'' @ FormatInt (unix_nano t))"
  shows "\<exists>req i b. decode_request addBatch_field \<lparr>abr_Items = [], abr_SessionName = []\<rparr> body = Some req \<and>
     batch_at w' = (batch_at w)(i \<mapsto> b) \<and> batch_RepositoryID b = repoID \<and>
     batch_Status b = BatchStatusPending \<and> batch_Items b = batch_items_of (abr_Items req) \<and>
     batch_Items b \<noteq> [] \<and> resp_body r = PBatchAck i BatchStatusPending repoID"
proof -
  obtain q w1 where g: "GetRepository st c repoID w = (q, w1)" by fastforce
  have "\<exists>rp. q = Inr rp"
    using assms(1,2) g by (cases q) (auto simp: addBatchHandler_def split: if_splits)
  then obtain rp where q: "q = Inr rp" ..
  have "\<exists>req. decode_request addBatch_field \<lparr>abr_Items = [], abr_SessionName = []\<rparr> body = Some req \<and>
      batch_items_of (abr_Items req) \<noteq> []"
    using assms(1,2) g q by (auto simp: addBatchHandler_def Let_def split: if_splits option.splits)
  then obtain req where req: "decode_request addBatch_field \<lparr>abr_Items = [], abr_SessionName = []\<rparr> body = Some req"
    and ne: "batch_items_of (abr_Items req) \<noteq> []" by blast
  obtain t w2 where n: "now w1 = (t, w2)" by fastforce
  define b where "b = \<lparr>batch_ID = ''batch-'' @ FormatInt (unix_nano t), batch_RepositoryID = repoID,
      batch_CreatedAt = t, batch_UpdatedAt = t, batch_Items = batch_items_of (abr_Items req),
      batch_Status = BatchStatusPending, batch_Summary = [], batch_SessionName = TrimSpace (abr_SessionName req)\<rparr>"
  have hd: "addBatchHandler the_app c repoID body w =
      (case CreateBatch st c b w2 of
         ((Some e, b1), w3) \<Rightarrow> (writeStorageError e, w3)
       | ((None, b1), w3) \<Rightarrow>
           (writeJSON 201 (PBatchAck (batch_ID b1) (batch_Status b1) (batch_RepositoryID b1)), w3)) \<or> repoID = []"
    using g q req ne n by (simp add: addBatchHandler_def Let_def b_def)
  have "repoID \<noteq> []" using assms(1,2) by (auto simp: addBatchHandler_def)
  moreover obtain o1 b1 w3 where cb: "CreateBatch st c b w2 = ((o1, b1), w3)" by (metis prod.collapse)
  ultimately have o1: "o1 = None" and r: "r = writeJSON 201 (PBatchAck (batch_ID b1) (batch_Status b1) (batch_RepositoryID b1))"
    and w': "w' = w3"
    using hd assms(1,2) writeStorageError_status by (auto split: option.splits)
  have fr: "batch_at w2 = batch_at w" "batch_at w1 = batch_at w"
    using get_repository_frame [OF g] now_frame [OF n] by auto
  have set: "items_set (batch_Items b)" using add_batch_items [OF ne] by (simp add: b_def)
  have core: "batch_core b1 = batch_core b"
    by (rule create_batch_doc [OF cb set]) (simp add: b_def)
  have "batch_fresh w2 (batch_ID b)" using fresh g n by (simp add: b_def)
  with cb o1 have "batch_at w3 = (batch_at w)(batch_ID b \<mapsto> batch_core b1)"
    using create_batch_ok fr by simp
  with core w' r batch_core_eqD [OF core] req ne show ?thesis
    by (intro exI [of _ req] exI [of _ "batch_ID b"] exI [of _ "batch_core b"]) (simp add: b_def)
qed

text \<open>An agent is changed only while it is stored as not busy, keeps its identity and status, and
  gets a trimmed name and a known runtime.\<close>

lemma with_agent_cases:
  assumes "with_agent the_app c i k w = (r, w')"
  shows "resp_status r \<in> {404, 500} \<and> agent_at w' = agent_at w \<and> batch_at w' = batch_at w \<or>
    (\<exists>ag w1. agent_at w i = Some (agent_core ag) \<and> agent_ID ag = i \<and> agent_at w1 = agent_at w \<and>
       batch_at w1 = batch_at w \<and> k ag w1 = (r, w'))"
proof -
  obtain q w1 where g: "GetAgent st c i w = (q, w1)" by fastforce
  show ?thesis
  proof (cases q)
    case (Inl e)
    with assms g get_agent_frame [OF g] writeStorageError_status show ?thesis
      by (auto simp: with_agent_def split: if_splits)
  next
    case (Inr ag)
    with assms g get_agent_frame [OF g] get_agent_ok [of c i w ag w1] show ?thesis
      by (auto simp: with_agent_def)
  qed
qed

lemma agent_request_ok:
  "agent_request body = Inr req \<Longrightarrow>
     ar_Name req \<noteq> [] \<and> TrimSpace (ar_Name req) = ar_Name req \<and> ar_Runtime req \<in> {''codex'', ''copilot''}"
  by (auto simp: agent_request_def isValidAgentRuntime_def Let_def split: option.splits if_splits)

lemma agent_request_error: "agent_request body = Inl r \<Longrightarrow> resp_status r = 400"
  by (auto simp: agent_request_def Let_def split: option.splits if_splits)

lemma update_agent:
  assumes "updateAgentHandler the_app c i body w = (r, w')"
  shows "(resp_status r = 200 \<longrightarrow>
      (\<exists>ag n rt. agent_at w i = Some ag \<and> agent_Status ag \<noteq> AgentStatusBusy \<and> n \<noteq> [] \<and> TrimSpace n = n \<and>
         rt \<in> {''codex'', ''copilot''} \<and>
         agent_at w' = (agent_at w)(i \<mapsto> ag\<lparr>agent_Name := n, agent_Runtime := rt\<rparr>))) \<and>
    (resp_status r = 400 \<longrightarrow> agent_at w' = agent_at w) \<and> batch_at w' = batch_at w"
proof -
  from assms have "with_agent the_app c i (save_agent the_app c body) w = (r, w')"
    by (simp add: updateAgentHandler_def)
  from with_agent_cases [OF this] show ?thesis
  proof (elim disjE exE conjE)
    fix ag w1
    assume ag: "agent_at w i = Some (agent_core ag)" "agent_ID ag = i"
      and fr: "agent_at w1 = agent_at w" "batch_at w1 = batch_at w"
      and k: "save_agent the_app c body ag w1 = (r, w')"
    note k = k [unfolded save_agent_def]
    show ?thesis
    proof (cases "agent_Status ag = AgentStatusBusy \<or> (\<exists>r'. agent_request body = Inl r')")
      case True
      with k fr agent_request_error [of body] show ?thesis by (auto split: if_splits sum.splits)
    next
      case False
      then obtain req where req: "agent_request body = Inr req" and nb: "agent_Status ag \<noteq> AgentStatusBusy"
        by (cases "agent_request body") auto
      obtain t w2 where n: "now w1 = (t, w2)" by fastforce
      let ?ag = "ag\<lparr>agent_Name := ar_Name req, agent_Runtime := ar_Runtime req, agent_UpdatedAt := t\<rparr>"
      obtain q ag2 w3 where u: "UpdateAgent st c ?ag w2 = ((q, ag2), w3)" by (metis prod.collapse)
      have core: "agent_core ag2 = (agent_core ag)\<lparr>agent_Name := ar_Name req, agent_Runtime := ar_Runtime req\<rparr>"
        using update_agent_doc [OF u] by (simp add: agent_core_def)
      have w': "w' = w3" using k req nb n u by (auto split: option.splits if_splits)
      have b: "batch_at w' = batch_at w"
        using w' update_agent_batches [OF u] now_frame [OF n] fr by simp
      show ?thesis
      proof (cases q)
        case None
        then have r: "resp_status r = 200" using k req nb n u by auto
        have "agent_at w' = (agent_at w)(i \<mapsto> agent_core ag2)"
          using u None update_agent_ok [of c ?ag w2 ag2 w3] w' ag fr now_frame [OF n] by simp
        with core ag nb agent_request_ok [OF req]
        have "\<exists>ag n rt. agent_at w i = Some ag \<and> agent_Status ag \<noteq> AgentStatusBusy \<and> n \<noteq> [] \<and> TrimSpace n = n \<and>
         rt \<in> {''codex'', ''copilot''} \<and>
         agent_at w' = (agent_at w)(i \<mapsto> ag\<lparr>agent_Name := n, agent_Runtime := rt\<rparr>)"
          by (intro exI [of _ "agent_core ag"] exI [of _ "ar_Name req"] exI [of _ "ar_Runtime req"]) simp
        with r b show ?thesis by simp
      next
        case (Some e)
        then have "resp_status r \<in> {409, 404, 500}"
          using k req nb n u writeStorageError_status by (auto split: if_splits)
        with b show ?thesis by auto
      qed
    qed
  qed auto
qed

end

section \<open>The handlers over the Mongo client\<close>

definition mongo_app :: "'m driver \<Rightarrow> 'm app" where
  "mongo_app drv = \<lparr>app_store = mongo_storage drv, app_now = Now drv\<rparr>"

definition no_batch :: "('m \<Rightarrow> string \<Rightarrow> doc list) \<Rightarrow> 'm \<Rightarrow> string \<Rightarrow> bool" where
  "no_batch docs m i \<longleftrightarrow> \<not> list_ex (matches [(''batch_id'', BEq i)]) (docs m batchesCollection)"

lemma mongo_delete_docs:
  assumes "driver_ok drv docs" and "mongo_delete drv c k what f m = (None, m')"
  shows "docs m' = (docs m)(k := delete_first (matches f) (docs m k))"
proof -
  obtain q m1 where q: "DeleteOne drv (withTimeout c) k f m = (q, m1)" by fastforce
  have "delete_ok drv docs" using assms(1) by (simp add: driver_ok_def)
  with q have "let done = (docs m)(k := delete_first (matches f) (docs m k))
      in (case q of
            Inr n \<Rightarrow> docs m1 = done \<and> (n = 0 \<longleftrightarrow> \<not> list_ex (matches f) (docs m k))
          | Inl e \<Rightarrow> docs m1 = docs m \<or> docs m1 = done)"
    unfolding delete_ok_def by blast
  with q assms(2) show ?thesis by (auto simp: mongo_delete_def split: sum.splits if_splits)
qed

lemma mongo_CreateBatch_doc:
  assumes "mongo_CreateBatch drv c b m = ((r, b'), m')" and "items_set (batch_Items b)"
    and "batch_Status b \<noteq> BatchStatusEmpty"
  shows "batch_core b' = batch_core b"
  using assms
  by (auto simp: mongo_CreateBatch_def Let_def batch_core_def norm_items_set split: prod.splits if_splits)

lemma mongo_CreateBatch_view:
  assumes ok: "driver_ok drv docs" and cr: "mongo_CreateBatch drv c b m = ((None, b'), m')"
    and fresh: "no_batch docs m (batch_ID b)"
  shows "batch_view docs m' = (batch_view docs m)(batch_ID b \<mapsto> batch_core b')"
proof -
  obtain t m1 where now: "Now drv m = (t, m1)" by fastforce
  have i: "mongo_insert drv c batchesCollection ''batch'' False (DocBatch b') m1 = (None, m')"
    and id: "batch_ID b' = batch_ID b"
    using cr now by (auto simp: mongo_CreateBatch_def Let_def split: prod.splits if_splits)
  have d: "docs m' batchesCollection = docs m batchesCollection @ [DocBatch (bson_batch b')]"
    using mongo_insert_docs [OF ok i] driver_now [OF ok now] by simp
  have none: "List.find (matches [(''batch_id'', BEq (batch_ID b))]) (docs m batchesCollection) = None"
    using fresh by (simp add: no_batch_def find_none_iff_ex)
  have app: "List.find P (xs @ [x]) =
      (case List.find P xs of Some y \<Rightarrow> Some y | None \<Rightarrow> if P x then Some x else None)"
    for P :: "doc \<Rightarrow> bool" and xs x by (induction xs) auto
  show ?thesis
    by (rule ext) (use none id in \<open>auto simp: batch_view_def d app split: option.splits\<close>)
qed

lemma mongo_control_store:
  assumes ok: "driver_ok drv docs"
  shows "control_store (mongo_storage drv) (batch_view docs) (agent_view docs) (Now drv) (no_batch docs)"
proof (intro control_store.intro mongo_sched_store [OF ok] control_store_axioms.intro)
  fix w t w'
  assume "Now drv w = (t, w')"
  then show "batch_view docs w' = batch_view docs w \<and> agent_view docs w' = agent_view docs w"
    using driver_now [OF ok] by (metis view_frames(1,2))
next
  fix c i w g w'
  assume "GetRepository (mongo_storage drv) c i w = (g, w')"
  then have "docs w' = docs w"
    using mongo_get_docs [OF ok] by (fastforce simp: mongo_GetRepository_def)
  then show "batch_view docs w' = batch_view docs w \<and> agent_view docs w' = agent_view docs w"
    by (intro conjI view_frames(1,2))
next
  fix c i w g w'
  assume "GetBatch (mongo_storage drv) c i w = (g, w')"
  then have "docs w' = docs w"
    using mongo_get_docs [OF ok] by (fastforce simp: mongo_GetBatch_def)
  then show "agent_view docs w' = agent_view docs w" by (rule view_frames(2))
next
  fix c i w a w'
  assume "GetAgent (mongo_storage drv) c i w = (Inr a, w')"
  then have "\<exists>d. List.find (matches [(''agent_id'', BEq i)]) (docs w agentsCollection) = Some d \<and>
               as_agent d = Inr a"
    using mongo_get_docs [OF ok] by (fastforce simp: mongo_GetAgent_def)
  then obtain d where d: "List.find (matches [(''agent_id'', BEq i)]) (docs w agentsCollection) = Some d"
    and "as_agent d = Inr a" by blast
  then have "d = DocAgent a" by (cases d) auto
  moreover have "matches [(''agent_id'', BEq i)] d" using d by (metis find_Some_iff)
  ultimately show "agent_view docs w i = Some (agent_core a) \<and> agent_ID a = i"
    using d by (simp add: agent_view_def)
next
  fix c i w g w'
  assume "GetAgent (mongo_storage drv) c i w = (g, w')"
  then have "docs w' = docs w"
    using mongo_get_docs [OF ok] by (fastforce simp: mongo_GetAgent_def)
  then show "batch_view docs w' = batch_view docs w \<and> agent_view docs w' = agent_view docs w"
    by (intro conjI view_frames(1,2))
next
  fix c b w b' w'
  assume "CreateBatch (mongo_storage drv) c b w = ((None, b'), w')" and "no_batch docs w (batch_ID b)"
  then show "batch_view docs w' = (batch_view docs w)(batch_ID b \<mapsto> batch_core b')"
    using mongo_CreateBatch_view [OF ok] by simp
next
  fix c b w r b' w'
  assume "CreateBatch (mongo_storage drv) c b w = ((r, b'), w')" and "items_set (batch_Items b)"
    and "batch_Status b \<noteq> BatchStatusEmpty"
  then show "batch_core b' = batch_core b" using mongo_CreateBatch_doc by simp
qed

interpretation mongo_ctl: control_store "mongo_storage list_driver" "batch_view db_docs" "agent_view db_docs"
    "Now list_driver" "no_batch db_docs"
  by (rule mongo_control_store [OF list_driver_ok])

lemmas mongo_batch_request = control_store.batch_request [OF mongo_control_store, folded mongo_app_def]
lemmas mongo_add_batch = control_store.add_batch [OF mongo_control_store, folded mongo_app_def]
lemmas mongo_update_agent = control_store.update_agent [OF mongo_control_store, folded mongo_app_def]

section \<open>The properties of the handlers\<close>

text \<open>
  C5: Pause, resume and restart implement the three transitions \<open>request_next\<close>.  A request
  answered with 200 has replaced the stored batch by the next one, and only that batch, and
  acknowledges its new status; one answered with 400 or 409 has changed no batch; 409 means the
  transition does not apply to the stored batch.
\<close>

theorem batch_request_refines:
  assumes "driver_ok drv docs"
    and "batchRequestHandler rq (mongo_app drv) c repoID batchID w = (r, w')"
    and "\<forall>b. batch_view docs w batchID = Some b \<longrightarrow> items_set (batch_Items b)"
  shows "(resp_status r = 200 \<longrightarrow>
      (\<exists>b b'. batch_view docs w batchID = Some b \<and> batch_RepositoryID b = repoID \<and> request_next rq b = Some b' \<and>
         batch_view docs w' = (batch_view docs w)(batchID \<mapsto> b') \<and>
         resp_body r = PBatchAck batchID (batch_Status b') repoID)) \<and>
    (resp_status r \<in> {400, 409} \<longrightarrow> batch_view docs w' = batch_view docs w) \<and>
    (resp_status r = 409 \<longrightarrow>
      (\<exists>b. batch_view docs w batchID = Some b \<and> batch_RepositoryID b = repoID \<and> request_next rq b = None))"
  using mongo_batch_request [OF assms] by blast

theorem batch_request_refines_witness:
  "\<exists>r w'. batchRequestHandler PauseRequest (mongo_app list_driver) (CtxBase 0) ''repo-1'' ''batch-1''
       (demo_db [demo_batch] []) = (r, w') \<and> resp_status r = 200 \<and>
     map_option batch_Status (batch_view db_docs w' ''batch-1'') = Some BatchStatusPaused"
proof -
  let ?w = "demo_db [demo_batch] []"
  have "resp_status (fst (batchRequestHandler PauseRequest (mongo_app list_driver) (CtxBase 0) ''repo-1'' ''batch-1'' ?w)) = 200"
    by code_simp
  then obtain r w' where h: "batchRequestHandler PauseRequest (mongo_app list_driver) (CtxBase 0) ''repo-1'' ''batch-1'' ?w = (r, w')"
    and r: "resp_status r = 200" by (metis fst_conv surj_pair)
  have "\<forall>b. batch_view db_docs ?w ''batch-1'' = Some b \<longrightarrow> items_set (batch_Items b)"
    by (simp add: batch_view_def demo_db_def demo_batch_def demo_items_def collections items_set_def item_set_def)
  from batch_request_refines [OF list_driver_ok h this] r h show ?thesis
    by (auto split: if_splits)
qed



text \<open>
  A created batch is ready for the scheduler.  An add request answered with 201 has stored one new
  batch of the repository, pending, whose items are the requested ones, trimmed and without the
  blank ones, in order, each pending with no attempts; there is at least one.
\<close>

theorem addBatch_creates:
  assumes "driver_ok drv docs"
    and "addBatchHandler (mongo_app drv) c repoID body w = (r, w')" and "resp_status r = 201"
    and "no_batch docs w (''batch-'' @ FormatInt (unix_nano (fst (Now drv (snd (mongo_GetRepository drv c repoID w))))))"
  shows "\<exists>req i b. decode_request addBatch_field \<lparr>abr_Items = [], abr_SessionName = []\<rparr> body = Some req \<and>
     batch_view docs w' = (batch_view docs w)(i \<mapsto> b) \<and> batch_RepositoryID b = repoID \<and>
     batch_Status b = BatchStatusPending \<and> batch_Items b \<noteq> [] \<and>
     map item_Input (batch_Items b) = filter (\<lambda>s. s \<noteq> []) (map TrimSpace (abr_Items req)) \<and>
     list_all (\<lambda>it. item_Status it = ItemStatusPending \<and> item_Attempts it = 0) (batch_Items b) \<and>
     resp_body r = PBatchAck i BatchStatusPending repoID"
proof -
  obtain q w1 where g: "mongo_GetRepository drv c repoID w = (q, w1)" by fastforce
  obtain t w2 where n: "Now drv w1 = (t, w2)" by fastforce
  have "docs w2 = docs w"
    using g n driver_now [OF assms(1) n] mongo_get_docs [OF assms(1)] unfolding mongo_GetRepository_def by metis
  with assms(4) g n have "case Now drv (snd (GetRepository (mongo_storage drv) c repoID w)) of (t, w2) \<Rightarrow>
      no_batch docs w2 (''batch-'' @ FormatInt (unix_nano t))"
    by (simp add: no_batch_def)
  from mongo_add_batch [OF assms(1-3) this] obtain req i b where
    b: "decode_request addBatch_field \<lparr>abr_Items = [], abr_SessionName = []\<rparr> body = Some req"
    "batch_view docs w' = (batch_view docs w)(i \<mapsto> b)" "batch_RepositoryID b = repoID"
    "batch_Status b = BatchStatusPending" "batch_Items b = batch_items_of (abr_Items req)"
    "batch_Items b \<noteq> []" "resp_body r = PBatchAck i BatchStatusPending repoID" by blast
  have "map item_Input (batch_Items b) = filter (\<lambda>s. s \<noteq> []) (map TrimSpace (abr_Items req))"
    using b(5) by (simp add: batch_items_of_def comp_def)
  moreover have "list_all (\<lambda>it. item_Status it = ItemStatusPending \<and> item_Attempts it = 0) (batch_Items b)"
    using add_batch_items [of "abr_Items req"] b(5,6) by simp
  ultimately show ?thesis using b by blast
qed

theorem addBatch_creates_witness:
  "\<exists>r w' i b. addBatchHandler (mongo_app list_driver) (CtxBase 0) ''repo-1''
       (Some (JObject [(''items'', JArray [JString '' yr-1 '', JString ''  ''])])) ((demo_db [] [])\<lparr>db_clock := unix_epoch + 1\<rparr>) = (r, w') \<and>
     batch_view db_docs w' i = Some b \<and> map item_Input (batch_Items b) = [''yr-1'']"
proof -
  let ?body = "Some (JObject [(''items'', JArray [JString '' yr-1 '', JString ''  ''])])"
  let ?h = "addBatchHandler (mongo_app list_driver) (CtxBase 0) ''repo-1'' ?body ((demo_db [] [])\<lparr>db_clock := unix_epoch + 1\<rparr>)"
  have r: "resp_status (fst ?h) = 201" by code_simp
  have n: "no_batch db_docs ((demo_db [] [])\<lparr>db_clock := unix_epoch + 1\<rparr>) i" for i by (simp add: no_batch_def demo_db_def collections)
  have d: "map_option (\<lambda>req. filter (\<lambda>s. s \<noteq> []) (map TrimSpace (abr_Items req)))
      (decode_request addBatch_field \<lparr>abr_Items = [], abr_SessionName = []\<rparr> ?body) = Some [''yr-1'']"
    by code_simp
  from addBatch_creates [OF list_driver_ok prod.collapse [symmetric] r n] d
  show ?thesis by (fastforce intro!: exI [of _ "fst ?h"] exI [of _ "snd ?h"])
qed

text \<open>
  A busy agent cannot be changed by the agent handlers.  An update answered with 200 found the
  stored agent not busy, changed only its name, which is trimmed and not empty, and its runtime,
  which is one the service knows, and so kept its identity and its status; a bad request changes
  nothing; no update touches a batch.
\<close>

theorem updateAgent_keeps_status:
  assumes "driver_ok drv docs" and "updateAgentHandler (mongo_app drv) c i body w = (r, w')"
  shows "(resp_status r = 200 \<longrightarrow>
      (\<exists>ag n rt. agent_view docs w i = Some ag \<and> agent_Status ag \<noteq> AgentStatusBusy \<and> n \<noteq> [] \<and> TrimSpace n = n \<and>
         rt \<in> {''codex'', ''copilot''} \<and>
         agent_view docs w' = (agent_view docs w)(i \<mapsto> ag\<lparr>agent_Name := n, agent_Runtime := rt\<rparr>))) \<and>
    (resp_status r = 400 \<longrightarrow> agent_view docs w' = agent_view docs w) \<and>
    batch_view docs w' = batch_view docs w"
  by (rule mongo_update_agent [OF assms])

theorem updateAgent_keeps_status_witness:
  "\<exists>r w' ag. updateAgentHandler (mongo_app list_driver) (CtxBase 0) ''agent-1''
       (Some (JObject [(''Name'', JString '' b ''), (''runtime'', JString ''Copilot'')])) (demo_db [] [demo_agent]) = (r, w') \<and>
     agent_view db_docs w' ''agent-1'' = Some ag \<and> agent_Status ag = AgentStatusIdle"
proof -
  let ?h = "updateAgentHandler (mongo_app list_driver) (CtxBase 0) ''agent-1''
       (Some (JObject [(''Name'', JString '' b ''), (''runtime'', JString ''Copilot'')])) (demo_db [] [demo_agent])"
  have r: "resp_status (fst ?h) = 200" by code_simp
  have v: "agent_view db_docs (demo_db [] [demo_agent]) ''agent-1'' = Some (agent_core demo_agent)"
    by (simp add: agent_view_def demo_db_def demo_agent_def collections)
  have s: "agent_Status (agent_core demo_agent) = AgentStatusIdle" by (simp add: demo_agent_def)
  from updateAgent_keeps_status [OF list_driver_ok prod.collapse [symmetric], of "CtxBase 0" "''agent-1''"] r v s
  show ?thesis by (fastforce intro!: exI [of _ "fst ?h"] exI [of _ "snd ?h"])
qed

text \<open>
  C38: A repository with active batches is not deleted.  When a delete request is answered with 204,
  no batch document of the repository was pending, in progress or paused, and exactly the
  repository's document is gone; a request refused with 409 has changed no document.
\<close>

theorem deleteRepository_guarded:
  assumes "driver_ok drv docs" and "deleteRepositoryHandler (mongo_app drv) c i w = (r, w')"
  shows "(resp_status r = 204 \<longrightarrow>
      (\<forall>b. DocBatch b \<in> set (docs w batchesCollection) \<longrightarrow> batch_RepositoryID b = i \<longrightarrow>
         batch_Status b \<notin> {BatchStatusPending, BatchStatusInProgress, BatchStatusPaused}) \<and>
      docs w' = (docs w)(repositoriesCollection :=
        delete_first (matches [(''repository_id'', BEq i)]) (docs w repositoriesCollection))) \<and>
    (resp_status r = 409 \<longrightarrow> docs w' = docs w)"
proof -
  obtain q w1 where g: "mongo_GetRepository drv c i w = (q, w1)" by fastforce
  have f1: "docs w1 = docs w"
    using g mongo_get_docs [OF assms(1)] unfolding mongo_GetRepository_def by metis
  obtain p w2 where h: "mongo_RepositoryHasActiveBatches drv c i w1 = (p, w2)" by fastforce
  note ac = mongo_active_docs [OF assms(1) h]
  obtain s w3 where d: "mongo_DeleteRepository drv c i w2 = (s, w3)" by fastforce
  have dl: "s = None \<Longrightarrow> docs w3 = (docs w2)(repositoriesCollection :=
      delete_first (matches [(''repository_id'', BEq i)]) (docs w2 repositoriesCollection))"
    using mongo_delete_docs [OF assms(1)] d unfolding mongo_DeleteRepository_def by blast
  have "deleteRepositoryHandler (mongo_app drv) c i w =
    (case q of
       Inl e \<Rightarrow> if e = ErrNoDocuments then (writeError 404 ''not found'', w1) else (writeStorageError e, w1)
     | Inr rp \<Rightarrow>
         (case p of
            Inl e \<Rightarrow> (writeStorageError e, w2)
          | Inr active \<Rightarrow>
              if active then (writeError 409 ''repository has active batches'', w2)
              else (case s of Some e \<Rightarrow> (writeStorageError e, w3) | None \<Rightarrow> (writeJSON 204 PNone, w3))))"
    using g h d by (simp add: deleteRepositoryHandler_def with_repository_def mongo_app_def split: sum.split option.split)
  with assms(2) ac dl f1 show ?thesis
    by (fastforce simp: matches_active split: sum.splits option.splits if_splits)
qed

theorem deleteRepository_guarded_witness:
  "\<exists>r w'. deleteRepositoryHandler (mongo_app list_driver) (CtxBase 0) ''repo-1''
       (demo_db [demo_batch\<lparr>batch_Status := BatchStatusDone\<rparr>] []) = (r, w') \<and> resp_status r = 204 \<and>
     db_docs w' repositoriesCollection = []"
proof -
  let ?w = "demo_db [demo_batch\<lparr>batch_Status := BatchStatusDone\<rparr>] []"
  let ?h = "deleteRepositoryHandler (mongo_app list_driver) (CtxBase 0) ''repo-1'' ?w"
  have r: "resp_status (fst ?h) = 204" by code_simp
  have "db_docs ?w repositoriesCollection = [DocRepository demo_repository]"
    by (simp add: demo_db_def collections)
  moreover have "matches [(''repository_id'', BEq ''repo-1'')] (DocRepository demo_repository)" by code_simp
  ultimately have "db_docs (snd ?h) repositoriesCollection = []"
    using deleteRepository_guarded [OF list_driver_ok prod.collapse [symmetric], of "CtxBase 0" "''repo-1''" ?w] r by simp
  with r show ?thesis by (metis prod.collapse)
qed

text \<open>
  The limits on listings hold for every query string.  A run listing answered with 200 is a prefix
  of the stored listing of at most 200 runs, and its count is its length; a limit that is a number
  between 1 and 200 is used as it is given.
\<close>

theorem listRuns_capped:
  assumes "listRunsHandler a c repoID batchID limit w = (r, w')" and "resp_body r = PRuns runs n"
  shows "n = int (length runs) \<and> n \<le> maxListLimit \<and>
    (\<forall>v. Atoi limit = Some v \<and> 1 \<le> v \<and> v \<le> maxListLimit \<longrightarrow> n \<le> v) \<and>
    (\<exists>w1 all w2. ListTaskRuns (app_store a) c batchID w1 = (Inr all, w2) \<and> prefix runs all \<and>
       (n < int (length all) \<longrightarrow> n = parseLimit limit defaultListLimit maxListLimit))"
proof -
  let ?l = "parseLimit limit defaultListLimit maxListLimit"
  have lim: "1 \<le> ?l \<and> ?l \<le> maxListLimit \<and>
      (\<forall>v. Atoi limit = Some v \<and> 1 \<le> v \<and> v \<le> maxListLimit \<longrightarrow> ?l = v)"
    by (auto simp: parseLimit_def defaultListLimit_def maxListLimit_def Atoi_Nil split: option.split)
  obtain w1 all w2 where l: "ListTaskRuns (app_store a) c batchID w1 = (Inr all, w2)" and runs: "runs = cap_list ?l all"
    and n: "n = int (length runs)"
    using assms
    by (auto simp: listRunsHandler_def with_repo_batch_def writeStorageError_def Let_def
        split: if_splits sum.splits prod.splits)
  have "length runs = min (nat ?l) (length all)" using lim runs by (simp add: cap_list_length)
  with lim n l runs cap_list_prefix [of ?l all] show ?thesis
    by (intro conjI exI [of _ w1] exI [of _ all] exI [of _ w2]) auto
qed

definition demo_ctl_db :: list_db where
  "demo_ctl_db =
     \<lparr>db_docs = (\<lambda>k. if k = taskRunsCollection then db_docs demo_runs_db k else db_docs (demo_db [demo_batch] []) k),
      db_clock = 1\<rparr>"

theorem listRuns_capped_witness:
  "\<exists>r w'. listRunsHandler (mongo_app list_driver) (CtxBase 0) ''repo-1'' ''batch-1'' ''1'' demo_ctl_db = (r, w') \<and>
     (\<exists>runs. resp_body r = PRuns runs 1)"
proof -
  let ?h = "listRunsHandler (mongo_app list_driver) (CtxBase 0) ''repo-1'' ''batch-1'' ''1'' demo_ctl_db"
  have b: "(case resp_body (fst ?h) of PRuns rs n \<Rightarrow> n = 1 | _ \<Rightarrow> False)" by code_simp
  then obtain runs where r: "resp_body (fst ?h) = PRuns runs 1" by (cases "resp_body (fst ?h)") auto
  from listRuns_capped [OF prod.collapse [symmetric] r] r show ?thesis by (metis prod.collapse)
qed

end
