(* ===== verification/Service.thy ===== *)
theory Service
  imports Scheduler_Run Control_Plane
begin

text \<open>
  The service as a whole: one scheduler and any number of batch requests over the same stored
  batches, interleaved call by call.  Every read of a batch and every write of one is a step of its
  own, since no component locks a batch between its read and its write.  The invariants are proved
  by rule induction; \<open>Tick\<close> and the request handlers are shown to be sequences of these steps.
\<close>

section \<open>The interleaved system\<close>

text \<open>
  The scheduler is not running anything, has picked a batch and an item, or has claimed it and is
  running its worker; then the worker may hold a copy of the batch it has read.  \<open>sv_writes\<close> are the
  batches that request handlers are about to write.
\<close>

datatype run_phase =
    NotRunning
  | Picked batch nat
  | Running batch nat "batch option"

record service =
  sv_stored :: "string \<Rightarrow> batch option"
  sv_run :: run_phase
  sv_writes :: "batch list"

definition new_batch :: "batch \<Rightarrow> bool" where
  "new_batch b \<longleftrightarrow>
     batch_Status b = BatchStatusPending \<and>
     list_all (\<lambda>it. item_Status it = ItemStatusPending \<and> item_Attempts it = 0) (batch_Items b)"

definition store_batch :: "batch \<Rightarrow> service \<Rightarrow> service" where
  "store_batch b s = s\<lparr>sv_stored := (sv_stored s)(batch_ID b \<mapsto> b)\<rparr>"

text \<open>
  The rules: a batch is added; a request reads a batch and prepares its write, which is applied or
  lost; the scheduler picks, claims, fails to claim (the write may have been applied all the same),
  releases or gives up a claim, and finishes; the worker reads its batch and changes its status.
\<close>

inductive sv_step :: "int \<Rightarrow> service \<Rightarrow> service \<Rightarrow> bool" for mr :: int where
  sv_add: "sv_stored s (batch_ID b) = None \<Longrightarrow> new_batch b \<Longrightarrow> sv_step mr s (store_batch b s)"
| sv_read: "sv_stored s i = Some b \<Longrightarrow> request_next rq b = Some b' \<Longrightarrow>
     sv_step mr s (s\<lparr>sv_writes := b' # sv_writes s\<rparr>)"
| sv_write: "b \<in> set (sv_writes s) \<Longrightarrow> sv_step mr s (store_batch b (s\<lparr>sv_writes := remove1 b (sv_writes s)\<rparr>))"
| sv_drop: "b \<in> set (sv_writes s) \<Longrightarrow> sv_step mr s (s\<lparr>sv_writes := remove1 b (sv_writes s)\<rparr>)"
| sv_pick: "sv_run s = NotRunning \<Longrightarrow> sv_stored s i = Some b \<Longrightarrow> eligible b = Some n \<Longrightarrow>
     sv_step mr s (s\<lparr>sv_run := Picked b n\<rparr>)"
| sv_claim: "sv_run s = Picked b n \<Longrightarrow> sv_step mr s (store_batch (claim_item n b) (s\<lparr>sv_run := Running b n None\<rparr>))"
| sv_unpick: "sv_run s = Picked b n \<Longrightarrow> sv_step mr s (s\<lparr>sv_run := NotRunning\<rparr>)"
| sv_release: "sv_run s = Running b n None \<Longrightarrow>
     sv_step mr s (store_batch (b\<lparr>batch_Status := BatchStatusPending\<rparr>) (s\<lparr>sv_run := NotRunning\<rparr>))"
| sv_abandon: "sv_run s = Running b n wc \<Longrightarrow> sv_step mr s (s\<lparr>sv_run := NotRunning\<rparr>)"
| sv_finish: "sv_run s = Running b n wc \<Longrightarrow>
     sv_step mr s (store_batch (complete_item mr r n (claim_item n b)) (s\<lparr>sv_run := NotRunning\<rparr>))"
| sv_work_read: "sv_run s = Running b n wc \<Longrightarrow> sv_stored s (batch_ID b) = Some b' \<Longrightarrow>
     sv_step mr s (s\<lparr>sv_run := Running b n (Some b')\<rparr>)"
| sv_work_status: "sv_run s = Running b n (Some b') \<Longrightarrow>
     st \<in> {BatchStatusInProgress, BatchStatusPending, BatchStatusFailed} \<Longrightarrow>
     sv_step mr s (store_batch (b'\<lparr>batch_Status := st\<rparr>) (s\<lparr>sv_run := Running b n (Some (b'\<lparr>batch_Status := st\<rparr>))\<rparr>))"
| sv_work_lost: "sv_run s = Running b n (Some b') \<Longrightarrow>
     st \<in> {BatchStatusInProgress, BatchStatusPending, BatchStatusFailed} \<Longrightarrow>
     sv_step mr s (s\<lparr>sv_run := Running b n (Some (b'\<lparr>batch_Status := st\<rparr>))\<rparr>)"

inductive sv_steps :: "int \<Rightarrow> service \<Rightarrow> service \<Rightarrow> bool" for mr :: int where
  sv_refl: "sv_steps mr s s"
| sv_trans: "sv_steps mr s s' \<Longrightarrow> sv_step mr s' s'' \<Longrightarrow> sv_steps mr s s''"

lemma store_batch_simps [simp]:
  "sv_stored (store_batch b s) = (sv_stored s)(batch_ID b \<mapsto> b)"
  "sv_run (store_batch b s) = sv_run s"
  "sv_writes (store_batch b s) = sv_writes s"
  by (simp_all add: store_batch_def)

lemma sv_steps_single: "sv_step mr s s' \<Longrightarrow> sv_steps mr s s'"
  by (rule sv_trans [OF sv_refl])

lemma sv_steps_append: "sv_steps mr s' s'' \<Longrightarrow> sv_steps mr s s' \<Longrightarrow> sv_steps mr s s''"
  by (induction rule: sv_steps.induct) (auto intro: sv_trans)

section \<open>Every stored batch stays well formed\<close>

text \<open>The batches in a state: stored, about to be written, or held by the scheduler or the worker.\<close>

fun run_batches :: "run_phase \<Rightarrow> batch set" where
  "run_batches NotRunning = {}"
| "run_batches (Picked b n) = {b}"
| "run_batches (Running b n wc) = insert b (set_option wc)"

fun run_eligible :: "run_phase \<Rightarrow> bool" where
  "run_eligible NotRunning = True"
| "run_eligible (Picked b n) = (eligible b = Some n)"
| "run_eligible (Running b n wc) = (eligible b = Some n)"

definition sv_batches :: "service \<Rightarrow> batch set" where
  "sv_batches s = ran (sv_stored s) \<union> set (sv_writes s) \<union> run_batches (sv_run s)"

definition sv_good :: "int \<Rightarrow> service \<Rightarrow> bool" where
  "sv_good mr s \<longleftrightarrow>
     (\<forall>b \<in> sv_batches s. batch_ok mr b) \<and> (\<forall>i b. sv_stored s i = Some b \<longrightarrow> batch_ID b = i) \<and>
     run_eligible (sv_run s)"

lemma restart_item_ok:
  assumes ok: "batch_ok mr b" and i: "first_failed_from 0 (batch_Items b) = Some i" and mr: "1 \<le> mr"
  shows "batch_ok mr (restart_item i b)"
proof -
  let ?it = "(batch_Items b ! i)\<lparr>item_Status := ItemStatusPending, item_Attempts := 0\<rparr>"
  from first_failed_from_some [OF i] have "i < length (batch_Items b)" "item_Status (batch_Items b ! i) = ItemStatusFailed"
    by auto
  with in_progress_count_update [of i "batch_Items b" ?it]
  have "in_progress_count ((batch_Items b)[i := ?it]) = in_progress_count (batch_Items b)" by simp
  moreover have "item_ok mr ?it" using mr by (simp add: item_ok_def)
  ultimately show ?thesis
    using ok by (simp add: batch_ok_def restart_item_def list_all_list_update)
qed

lemma request_next_ok:
  assumes "request_next rq b = Some b'" and "batch_ok mr b" and "1 \<le> mr"
  shows "batch_ok mr b'"
proof (cases rq)
  case RestartRequest
  with assms restart_item_ok show ?thesis by (auto split: if_splits)
qed (use assms in \<open>auto simp: batch_ok_def split: if_splits\<close>)

lemma new_batch_ok: "new_batch b \<Longrightarrow> 1 \<le> mr \<Longrightarrow> batch_ok mr b"
proof -
  assume n: "new_batch b" and mr: "1 \<le> mr"
  then have "list_all (item_ok mr) (batch_Items b)"
    by (auto simp: new_batch_def list_all_iff item_ok_def)
  moreover have "in_progress_count (batch_Items b) = 0"
    using n by (auto simp: new_batch_def in_progress_count_0 list_all_iff)
  ultimately show ?thesis using n by (simp add: batch_ok_def new_batch_def)
qed

lemma status_ok: "batch_ok mr b \<Longrightarrow> st \<noteq> BatchStatusDone \<Longrightarrow> batch_ok mr (b\<lparr>batch_Status := st\<rparr>)"
  by (simp add: batch_ok_def)

lemma attempt_ok:
  assumes "batch_ok mr b" and el: "eligible b = Some n" and mr: "in_int64 mr"
  shows "batch_ok mr (complete_item mr r n (claim_item n b))"
proof -
  note cl = claim_item_ok [OF assms(1,2)]
  have "n < length (batch_Items (claim_item n b))" using el by (simp add: eligible_iff)
  then show ?thesis by (rule complete_item_ok(1) [OF cl(1) _ cl(3) mr])
qed

lemma ran_updD: "x \<in> ran (m(k \<mapsto> v)) \<Longrightarrow> x = v \<or> x \<in> ran m"
  by (auto simp: ran_def split: if_splits)

lemma sv_good_store:
  assumes "sv_good mr s" and "batch_ok mr b" and "run_eligible r"
    and "\<forall>x \<in> set ws \<union> run_batches r. batch_ok mr x"
  shows "sv_good mr (store_batch b (s\<lparr>sv_run := r, sv_writes := ws\<rparr>))"
  using assms by (auto simp: sv_good_def sv_batches_def dest!: ran_updD)

lemma sv_good_local:
  assumes "sv_good mr s" and "run_eligible r" and "\<forall>x \<in> set ws \<union> run_batches r. batch_ok mr x"
  shows "sv_good mr (s\<lparr>sv_run := r, sv_writes := ws\<rparr>)"
  using assms by (auto simp: sv_good_def sv_batches_def)

lemma sv_step_good:
  assumes "sv_step mr s s'" and g: "sv_good mr s" and mr: "1 \<le> mr" "in_int64 mr"
  shows "sv_good mr s'"
proof -
  have all: "batch_ok mr x" if "x \<in> sv_batches s" for x using g that by (simp add: sv_good_def)
  have stored: "batch_ok mr x" if "sv_stored s i = Some x" for i x
    using that by (intro all) (auto simp: sv_batches_def ran_def)
  have ws: "\<forall>x \<in> set (sv_writes s) \<union> run_batches (sv_run s). batch_ok mr x"
    using all by (auto simp: sv_batches_def)
  have el: "run_eligible (sv_run s)" using g by (simp add: sv_good_def)
  have rm: "set (remove1 b (sv_writes s)) \<subseteq> set (sv_writes s)" for b by (rule set_remove1_subset)
  note store = sv_good_store [OF g] and loc = sv_good_local [OF g]
  from assms(1) show ?thesis
  proof cases
    case (sv_add b)
    then show ?thesis
      using store [of b "sv_run s" "sv_writes s"] new_batch_ok [of b mr] mr el ws by simp
  next
    case (sv_read i b rq b')
    then show ?thesis
      using loc [of "sv_run s" "b' # sv_writes s"] request_next_ok [of rq b b' mr] stored mr el ws by simp
  next
    case (sv_write b)
    then show ?thesis
      using store [of b "sv_run s" "remove1 b (sv_writes s)"] ws el rm [of b] by auto
  next
    case (sv_drop b)
    then show ?thesis
      using loc [of "sv_run s" "remove1 b (sv_writes s)"] ws el rm [of b] by auto
  next
    case (sv_pick i b n)
    then show ?thesis using loc [of "Picked b n" "sv_writes s"] stored ws by simp
  next
    case (sv_claim b n)
    with el ws have "eligible b = Some n" "batch_ok mr b" by auto
    with claim_item_ok(1) [of mr b n] store [of "claim_item n b" "Running b n None" "sv_writes s"] ws sv_claim
    show ?thesis by simp
  next
    case (sv_unpick b n)
    then show ?thesis using loc [of NotRunning "sv_writes s"] ws by simp
  next
    case (sv_release b n)
    with ws have "batch_ok mr (b\<lparr>batch_Status := BatchStatusPending\<rparr>)" by (simp add: status_ok)
    then show ?thesis
      using store [of _ NotRunning "sv_writes s"] ws sv_release by simp
  next
    case (sv_abandon b n wc)
    then show ?thesis using loc [of NotRunning "sv_writes s"] ws by simp
  next
    case (sv_finish b n wc r)
    with el ws have "eligible b = Some n" "batch_ok mr b" by auto
    with attempt_ok [of mr b n r] mr have "batch_ok mr (complete_item mr r n (claim_item n b))" by blast
    then show ?thesis using store [of _ NotRunning "sv_writes s"] ws sv_finish by simp
  next
    case (sv_work_read b n wc b')
    with el ws stored show ?thesis using loc [of "Running b n (Some b')" "sv_writes s"] by simp
  next
    case (sv_work_status b n b' st)
    with ws have "batch_ok mr (b'\<lparr>batch_Status := st\<rparr>)" by (intro status_ok) auto
    with el ws sv_work_status show ?thesis
      using store [of "b'\<lparr>batch_Status := st\<rparr>" "Running b n (Some (b'\<lparr>batch_Status := st\<rparr>))" "sv_writes s"] by simp
  next
    case (sv_work_lost b n b' st)
    with ws have "batch_ok mr (b'\<lparr>batch_Status := st\<rparr>)" by (intro status_ok) auto
    with el ws sv_work_lost show ?thesis
      using loc [of "Running b n (Some (b'\<lparr>batch_Status := st\<rparr>))" "sv_writes s"] by simp
  qed
qed

text \<open>
  C2: Safety of the interleaved service.  From any state whose batches are well formed, whatever
  the order of scheduler steps, worker writes and concurrent pause, resume and restart requests,
  every stored batch keeps at most one item in progress, no item exceeds the attempt cap, and a
  batch that is done has only done items.
\<close>

theorem service_safe:
  assumes "sv_steps mr s s'" and "sv_good mr s" and "1 \<le> mr" and "in_int64 mr"
    and "sv_stored s' i = Some b"
  shows "batch_ID b = i \<and> in_progress_count (batch_Items b) \<le> 1 \<and>
    (\<forall>it \<in> set (batch_Items b). 0 \<le> item_Attempts it \<and> item_Attempts it \<le> mr) \<and>
    (batch_Status b = BatchStatusDone \<longrightarrow> allItemsDone (batch_Items b))"
proof -
  from assms(1,2) have "sv_good mr s'"
    by (induction rule: sv_steps.induct) (auto intro: sv_step_good [OF _ _ assms(3,4)])
  moreover from this assms(5) have "batch_ok mr b"
    by (auto simp: sv_good_def sv_batches_def ran_def)
  ultimately show ?thesis
    using assms(5) by (auto simp: sv_good_def batch_ok_def item_ok_def list_all_iff allItemsDone_def)
qed

definition sv_init :: service where
  "sv_init = \<lparr>sv_stored = [''batch-1'' \<mapsto> demo_batch], sv_run = NotRunning, sv_writes = []\<rparr>"

lemma sv_init_good: "1 \<le> mr \<Longrightarrow> sv_good mr sv_init"
proof -
  assume "1 \<le> mr"
  moreover have "new_batch demo_batch" by code_simp
  ultimately have "batch_ok mr demo_batch" by (rule new_batch_ok [rotated])
  moreover have "batch_ID demo_batch = ''batch-1''" by code_simp
  ultimately show ?thesis
    by (auto simp: sv_good_def sv_batches_def sv_init_def ran_def split: if_splits)
qed

section \<open>What requests and runs keep of a batch\<close>

text \<open>
  A property that every transition keeps holds, from then on, of every copy of a batch in the
  system: stored, waiting to be written, or in use by the scheduler and its worker.  The steps of a
  run count only for a batch that was eligible when it was picked.
\<close>

definition batch_closed :: "int \<Rightarrow> (batch \<Rightarrow> bool) \<Rightarrow> bool" where
  "batch_closed mr P \<longleftrightarrow>
     (\<forall>b rq b'. P b \<longrightarrow> request_next rq b = Some b' \<longrightarrow> P b') \<and>
     (\<forall>b n r. P b \<longrightarrow> eligible b = Some n \<longrightarrow>
        P (claim_item n b) \<and> P (b\<lparr>batch_Status := BatchStatusPending\<rparr>) \<and>
        P (complete_item mr r n (claim_item n b)) \<and>
        (\<forall>b' st. P b' \<longrightarrow> P (b'\<lparr>batch_Status := st\<rparr>)))"

fun run_same_id :: "run_phase \<Rightarrow> bool" where
  "run_same_id (Running b n (Some b')) = (batch_ID b' = batch_ID b)"
| "run_same_id r = True"

definition sv_all :: "string \<Rightarrow> (batch \<Rightarrow> bool) \<Rightarrow> service \<Rightarrow> bool" where
  "sv_all i P s \<longleftrightarrow>
     sv_stored s i \<noteq> None \<and> (\<forall>b \<in> sv_batches s. batch_ID b = i \<longrightarrow> P b) \<and>
     (\<forall>j b. sv_stored s j = Some b \<longrightarrow> batch_ID b = j) \<and>
     run_eligible (sv_run s) \<and> run_same_id (sv_run s)"

lemma sv_all_store:
  assumes "sv_all i P s" and "batch_ID b = i \<longrightarrow> P b" and "run_eligible r" and "run_same_id r"
    and "\<forall>x \<in> set ws \<union> run_batches r. batch_ID x = i \<longrightarrow> P x"
  shows "sv_all i P (store_batch b (s\<lparr>sv_run := r, sv_writes := ws\<rparr>))"
  using assms by (auto simp: sv_all_def sv_batches_def dest!: ran_updD)

lemma sv_all_local:
  assumes "sv_all i P s" and "run_eligible r" and "run_same_id r"
    and "\<forall>x \<in> set ws \<union> run_batches r. batch_ID x = i \<longrightarrow> P x"
  shows "sv_all i P (s\<lparr>sv_run := r, sv_writes := ws\<rparr>)"
  using assms by (auto simp: sv_all_def sv_batches_def)

lemma sv_step_all:
  assumes "sv_step mr s s'" and g: "sv_all i P s" and cl: "batch_closed mr P"
  shows "sv_all i P s'"
proof -
  have stored: "batch_ID x = j" "j = i \<longrightarrow> P x" if "sv_stored s j = Some x" for j x
    using g that by (auto simp: sv_all_def sv_batches_def ran_def)
  have ws: "\<forall>x \<in> set (sv_writes s) \<union> run_batches (sv_run s). batch_ID x = i \<longrightarrow> P x"
    and el: "run_eligible (sv_run s)" and same: "run_same_id (sv_run s)" and ex: "sv_stored s i \<noteq> None"
    using g by (auto simp: sv_all_def sv_batches_def)
  have rm: "set (remove1 b (sv_writes s)) \<subseteq> set (sv_writes s)" for b by (rule set_remove1_subset)
  have c1: "P b \<Longrightarrow> request_next rq b = Some b' \<Longrightarrow> P b'" for b rq b' using cl by (auto simp: batch_closed_def)
  have c2: "P (claim_item n b)" "P (b\<lparr>batch_Status := BatchStatusPending\<rparr>)"
    "P (complete_item mr r n (claim_item n b))" "P b' \<Longrightarrow> P (b'\<lparr>batch_Status := st\<rparr>)"
    if "P b" "eligible b = Some n" for b n r b' st
    using cl that by (auto simp: batch_closed_def)
  note store = sv_all_store [OF g] and loc = sv_all_local [OF g]
  from assms(1) show ?thesis
  proof cases
    case (sv_add b)
    then have "batch_ID b \<noteq> i" using ex by auto
    with sv_add show ?thesis using store [of b "sv_run s" "sv_writes s"] el same ws by simp
  next
    case (sv_read j b rq b')
    with stored [of j b] request_next_ids [of rq b b'] c1 have "batch_ID b' = i \<longrightarrow> P b'" by auto
    with sv_read show ?thesis using loc [of "sv_run s" "b' # sv_writes s"] el same ws by simp
  next
    case (sv_write b)
    then show ?thesis using store [of b "sv_run s" "remove1 b (sv_writes s)"] ws el same rm [of b] by auto
  next
    case (sv_drop b)
    then show ?thesis using loc [of "sv_run s" "remove1 b (sv_writes s)"] ws el same rm [of b] by auto
  next
    case (sv_pick j b n)
    with stored [of j b] have "batch_ID b = i \<longrightarrow> P b" by auto
    with sv_pick show ?thesis using loc [of "Picked b n" "sv_writes s"] ws by simp
  next
    case (sv_claim b n)
    with el ws c2(1) [of b n] show ?thesis
      using store [of "claim_item n b" "Running b n None" "sv_writes s"] by simp
  next
    case (sv_unpick b n)
    then show ?thesis using loc [of NotRunning "sv_writes s"] ws by simp
  next
    case (sv_release b n)
    with el ws c2(2) [of b n] show ?thesis
      using store [of "b\<lparr>batch_Status := BatchStatusPending\<rparr>" NotRunning "sv_writes s"] by simp
  next
    case (sv_abandon b n wc)
    then show ?thesis using loc [of NotRunning "sv_writes s"] ws by simp
  next
    case (sv_finish b n wc r)
    with el ws c2(3) [of b n r] show ?thesis
      using store [of "complete_item mr r n (claim_item n b)" NotRunning "sv_writes s"] by simp
  next
    case (sv_work_read b n wc b')
    with el ws stored [of "batch_ID b" b'] show ?thesis
      using loc [of "Running b n (Some b')" "sv_writes s"] by simp
  next
    case (sv_work_status b n b' st)
    with el same ws c2(4) [of b n b' st] have "batch_ID b' = i \<longrightarrow> P (b'\<lparr>batch_Status := st\<rparr>)" by auto
    with sv_work_status el same ws show ?thesis
      using store [of "b'\<lparr>batch_Status := st\<rparr>" "Running b n (Some (b'\<lparr>batch_Status := st\<rparr>))" "sv_writes s"] by simp
  next
    case (sv_work_lost b n b' st)
    with el same ws c2(4) [of b n b' st] have "batch_ID b' = i \<longrightarrow> P (b'\<lparr>batch_Status := st\<rparr>)" by auto
    with sv_work_lost el same ws show ?thesis
      using loc [of "Running b n (Some (b'\<lparr>batch_Status := st\<rparr>))" "sv_writes s"] by simp
  qed
qed

lemma sv_steps_all: "sv_steps mr s s' \<Longrightarrow> sv_all i P s \<Longrightarrow> batch_closed mr P \<Longrightarrow> sv_all i P s'"
  by (induction rule: sv_steps.induct) (auto intro: sv_step_all)

lemma sv_all_stored: "sv_all i P s \<Longrightarrow> \<exists>b. sv_stored s i = Some b \<and> P b"
  by (force simp: sv_all_def sv_batches_def ran_def)

subsection \<open>The inputs of the items\<close>

definition batch_inputs :: "batch \<Rightarrow> string list" where
  "batch_inputs b = map item_Input (batch_Items b)"

lemma batch_inputs_update:
  "i < length its \<Longrightarrow> item_Input it = item_Input (its ! i) \<Longrightarrow> map item_Input (its[i := it]) = map item_Input its"
  by (metis list_update_id map_update)

lemma batch_inputs_closed: "batch_closed mr (\<lambda>b. batch_inputs b = xs)"
proof -
  have "batch_inputs b' = batch_inputs b" if "request_next rq b = Some b'" for b rq b'
  proof (cases rq)
    case RestartRequest
    with that obtain i where i: "first_failed_from 0 (batch_Items b) = Some i" and b': "b' = restart_item i b"
      by (auto split: if_splits)
    from first_failed_from_some [OF i] show ?thesis
      by (simp add: b' restart_item_def batch_inputs_def batch_inputs_update)
  qed (use that in \<open>auto simp: batch_inputs_def split: if_splits\<close>)
  moreover have "batch_inputs (claim_item n b) = batch_inputs b \<and>
      batch_inputs (complete_item mr r n (claim_item n b)) = batch_inputs b" if "eligible b = Some n" for b n r
  proof -
    have "n < length (batch_Items b)" using that by (simp add: eligible_iff)
    then show ?thesis
      using attempt_items [OF that, of mr r] by (simp add: batch_inputs_def claim_item_items batch_inputs_update)
  qed
  ultimately show ?thesis by (auto simp: batch_closed_def batch_inputs_def)
qed

text \<open>
  The work of a batch is never lost or mixed up.  Whatever the interleaving, the items of a
  stored batch keep their number, their order and their inputs, as long as no copy of the batch with
  other inputs was around at the start.
\<close>

theorem inputs_preserved:
  assumes "sv_steps mr s s'" and "sv_all i (\<lambda>b. batch_inputs b = xs) s"
  shows "\<exists>b. sv_stored s' i = Some b \<and> map item_Input (batch_Items b) = xs"
  using sv_all_stored [OF sv_steps_all [OF assms batch_inputs_closed]] by (simp add: batch_inputs_def)

lemma sv_init_all: "P demo_batch \<Longrightarrow> sv_all ''batch-1'' P sv_init"
proof -
  assume "P demo_batch"
  moreover have "batch_ID demo_batch = ''batch-1''" by code_simp
  ultimately show ?thesis by (auto simp: sv_all_def sv_init_def sv_batches_def ran_def split: if_splits)
qed

text \<open>A run up to the claim, which the examples below continue.\<close>

definition sv_claimed :: service where
  "sv_claimed = \<lparr>sv_stored = [''batch-1'' \<mapsto> claim_item 0 demo_batch],
     sv_run = Running demo_batch 0 None, sv_writes = []\<rparr>"

lemma demo_batch_eligible: "eligible demo_batch = Some 0" "batch_ID demo_batch = ''batch-1''"
  by code_simp+

lemma sv_claimed_steps: "sv_steps mr sv_init sv_claimed"
proof -
  have "sv_step mr sv_init (sv_init\<lparr>sv_run := Picked demo_batch 0\<rparr>)"
    by (rule sv_pick [of _ "''batch-1''"]) (simp_all add: sv_init_def demo_batch_eligible)
  moreover have "sv_step mr (sv_init\<lparr>sv_run := Picked demo_batch 0\<rparr>)
      (store_batch (claim_item 0 demo_batch) ((sv_init\<lparr>sv_run := Picked demo_batch 0\<rparr>)\<lparr>sv_run := Running demo_batch 0 None\<rparr>))"
    by (rule sv_claim) simp
  moreover have "store_batch (claim_item 0 demo_batch)
      ((sv_init\<lparr>sv_run := Picked demo_batch 0\<rparr>)\<lparr>sv_run := Running demo_batch 0 None\<rparr>) = sv_claimed"
    by (simp add: store_batch_def sv_init_def sv_claimed_def demo_batch_eligible)
  ultimately show ?thesis by (metis sv_steps_single sv_trans)
qed

theorem service_safe_witness:
  "\<exists>b. sv_stored sv_claimed ''batch-1'' = Some b \<and> batch_Status b = BatchStatusInProgress \<and>
     in_progress_count (batch_Items b) \<le> 1"
proof -
  have m: "(1 :: int) \<le> 5" "in_int64 5" by code_simp+
  have b: "sv_stored sv_claimed ''batch-1'' = Some (claim_item 0 demo_batch)" by (simp add: sv_claimed_def)
  from service_safe [OF sv_claimed_steps sv_init_good [OF m(1)] m b] b show ?thesis by simp
qed

theorem inputs_preserved_witness:
  "\<exists>b. sv_stored sv_claimed ''batch-1'' = Some b \<and> map item_Input (batch_Items b) = [''yr-1'', ''yr-2'']"
proof -
  have "batch_inputs demo_batch = [''yr-1'', ''yr-2'']" by code_simp
  from inputs_preserved [OF sv_claimed_steps [of 5] sv_init_all [of "\<lambda>b. batch_inputs b = [''yr-1'', ''yr-2'']", OF this]]
  show ?thesis .
qed

subsection \<open>A stale write strands a batch\<close>

text \<open>
  A batch that shows an item in progress while no run of it is under way is beyond repair: it is not
  eligible, and no request changes the item.
\<close>

definition stranded :: "batch \<Rightarrow> bool" where
  "stranded b \<longleftrightarrow> 0 < in_progress_count (batch_Items b) \<and> batch_Status b \<noteq> BatchStatusFailed"

lemma stranded_not_eligible: "stranded b \<Longrightarrow> eligible b = None"
  by (simp add: stranded_def eligible_none_iff)

lemma stranded_closed: "batch_closed mr stranded"
proof -
  have "stranded b'" if "stranded b" "request_next rq b = Some b'" for b rq b'
    using that by (cases rq) (auto simp: stranded_def split: if_splits)
  then show ?thesis using stranded_not_eligible by (auto simp: batch_closed_def)
qed

text \<open>
  C27: A pause that races with the end of a run can strand the batch for ever.  There is an
  interleaving, in which a pause request reads the batch during a run and writes it back after
  the run has finished, that leaves an item in progress although nothing is running and no
  write is outstanding; from there on, whatever is requested, the item stays in progress and the
  batch is never picked again.
\<close>

theorem stale_pause_strands_batch:
  "\<exists>s. sv_steps mr sv_init s \<and> sv_run s = NotRunning \<and> sv_writes s = [] \<and>
     (\<forall>s'. sv_steps mr s s' \<longrightarrow>
        (\<exists>b. sv_stored s' ''batch-1'' = Some b \<and> 0 < in_progress_count (batch_Items b) \<and> eligible b = None))"
proof -
  let ?cl = "claim_item 0 demo_batch" and ?done = "complete_item mr None 0 (claim_item 0 demo_batch)"
  let ?p = "?cl\<lparr>batch_Status := BatchStatusPaused\<rparr>"
  let ?s1 = "sv_claimed\<lparr>sv_writes := [?p]\<rparr>"
  let ?s2 = "store_batch ?done (?s1\<lparr>sv_run := NotRunning\<rparr>)"
  let ?s3 = "store_batch ?p (?s2\<lparr>sv_writes := []\<rparr>)"
  have "sv_step mr sv_claimed ?s1"
    using sv_read [of sv_claimed "''batch-1''" ?cl PauseRequest ?p mr] by (simp add: sv_claimed_def)
  moreover have "sv_step mr ?s1 ?s2"
    by (rule sv_finish [of _ demo_batch 0 None]) (simp add: sv_claimed_def)
  moreover have "sv_step mr ?s2 ?s3"
    using sv_write [of ?p ?s2 mr] by simp
  ultimately have steps: "sv_steps mr sv_init ?s3"
    by (intro sv_trans [OF sv_trans [OF sv_trans [OF sv_claimed_steps]]])
  have "stranded ?p" by (simp add: stranded_def claim_item_ok(2) [of 1 demo_batch 0] claim_item_items) code_simp
  moreover have "batch_ID ?p = ''batch-1''" by (simp add: demo_batch_eligible)
  ultimately have all: "sv_all ''batch-1'' stranded ?s3"
    by (auto simp: sv_all_def sv_batches_def ran_def sv_claimed_def demo_batch_eligible split: if_splits)
  have "\<exists>b. sv_stored s' ''batch-1'' = Some b \<and> 0 < in_progress_count (batch_Items b) \<and> eligible b = None"
    if "sv_steps mr ?s3 s'" for s'
    using sv_all_stored [OF sv_steps_all [OF that all stranded_closed]] stranded_not_eligible
    by (auto simp: stranded_def)
  with steps show ?thesis by (intro exI [of _ ?s3]) simp
qed

theorem stale_pause_strands_batch_witness:
  "\<exists>s b. sv_steps 5 sv_init s \<and> sv_run s = NotRunning \<and> sv_stored s ''batch-1'' = Some b \<and> eligible b = None"
  using stale_pause_strands_batch [of 5] sv_refl [of 5] by blast

section \<open>The code takes these steps\<close>

text \<open>The state of the system as the stored documents show it.\<close>

definition sv_view :: "('m \<Rightarrow> string \<Rightarrow> doc list) \<Rightarrow> 'm \<Rightarrow> run_phase \<Rightarrow> batch list \<Rightarrow> service" where
  "sv_view docs m r ws = \<lparr>sv_stored = batch_view docs m, sv_run = r, sv_writes = ws\<rparr>"

definition stored_ok :: "int \<Rightarrow> ('m \<Rightarrow> string \<Rightarrow> doc list) \<Rightarrow> 'm \<Rightarrow> bool" where
  "stored_ok mr docs m \<longleftrightarrow> (\<forall>i b. batch_view docs m i = Some b \<longrightarrow> batch_ok mr b)"

lemma batch_view_ID: "batch_view docs m i = Some b \<Longrightarrow> batch_ID b = i"
  by (auto simp: batch_view_def find_Some_iff split: option.splits doc.splits)

lemma stored_ok_items: "stored_ok mr docs m \<Longrightarrow> batch_view docs m i = Some b \<Longrightarrow> items_set (batch_Items b)"
  by (auto simp: stored_ok_def batch_ok_def intro: items_set_if_ok)

lemma request_next_ID: "request_next rq b = Some b' \<Longrightarrow> batch_ID b' = batch_ID b"
  by (simp add: request_next_ids)

lemma handler_steps:
  assumes "driver_ok drv docs" and "stored_ok mr docs w"
    and "batchRequestHandler rq (mongo_app drv) c repoID batchID w = (r, w')"
  shows "sv_steps mr' (sv_view docs w ph ws) (sv_view docs w' ph ws)"
proof -
  have "\<forall>b. batch_view docs w batchID = Some b \<longrightarrow> items_set (batch_Items b)"
    using stored_ok_items [OF assms(2)] by blast
  note req = mongo_batch_request [OF assms(1,3) this]
  then consider "batch_view docs w' = batch_view docs w"
    | b b' where "batch_view docs w batchID = Some b" "request_next rq b = Some b'"
        "batch_view docs w' = (batch_view docs w)(batchID \<mapsto> b')" by blast
  then show ?thesis
  proof cases
    case 1
    then show ?thesis by (simp add: sv_view_def sv_refl)
  next
    case (2 b b')
    have id: "batch_ID b' = batchID" using 2 batch_view_ID request_next_ID by metis
    have "sv_step mr' (sv_view docs w ph ws) (sv_view docs w ph (b' # ws))"
      using sv_read [of "sv_view docs w ph ws" batchID b rq b' mr'] 2 by (simp add: sv_view_def)
    moreover have "sv_step mr' (sv_view docs w ph (b' # ws)) (sv_view docs w' ph ws)"
      using sv_write [of b' "sv_view docs w ph (b' # ws)" mr'] 2 id by (simp add: sv_view_def store_batch_def)
    ultimately show ?thesis by (metis sv_steps_single sv_trans)
  qed
qed

text \<open>
  A request handler is a sequence of steps of the system, whatever it answers and whatever the
  store reports: a read, and perhaps the write of the next batch.
\<close>

theorem handler_refines_steps:
  assumes "driver_ok drv docs" and "stored_ok mr docs w"
    and "batchRequestHandler rq (mongo_app drv) c repoID batchID w = (r, w')"
  shows "sv_steps mr' (sv_view docs w ph ws) (sv_view docs w' ph ws)"
  by (rule handler_steps [OF assms])

lemma demo_stored_ok: "stored_ok 5 db_docs (demo_db [demo_batch] ags)"
proof -
  have "batch_ok 5 demo_batch" by code_simp
  then have "batch_ok 5 (batch_core demo_batch)" by simp
  then show ?thesis
    by (auto simp: stored_ok_def batch_view_def demo_db_def collections split: if_splits)
qed

theorem handler_refines_steps_witness:
  "\<exists>r w'. pauseBatchHandler (mongo_app list_driver) (CtxBase 0) ''repo-1'' ''batch-1'' (demo_db [demo_batch] []) = (r, w') \<and>
     sv_steps 5 (sv_view db_docs (demo_db [demo_batch] []) NotRunning []) (sv_view db_docs w' NotRunning [])"
proof -
  obtain r w' where h: "batchRequestHandler PauseRequest (mongo_app list_driver) (CtxBase 0) ''repo-1'' ''batch-1''
      (demo_db [demo_batch] []) = (r, w')" by fastforce
  from handler_refines_steps [OF list_driver_ok demo_stored_ok h] h show ?thesis by auto
qed

lemma unique_batch_view:
  assumes "unique_batches docs m" and "DocBatch b \<in> set (docs m batchesCollection)"
  shows "batch_view docs m (batch_ID b) = Some (batch_core b)"
proof -
  have "List.find (matches [(''batch_id'', BEq (batch_ID b))]) (docs m batchesCollection) \<noteq> None"
    using assms(2) by (auto simp: find_None_iff)
  then obtain d where d: "List.find (matches [(''batch_id'', BEq (batch_ID b))]) (docs m batchesCollection) = Some d"
    by blast
  then have "d \<in> set (docs m batchesCollection)" "matches [(''batch_id'', BEq (batch_ID b))] d"
    by (auto simp: find_Some_iff)
  with assms have "d = DocBatch b" unfolding unique_batches_def by (metis matches_batch_id)
  with d show ?thesis by (simp add: batch_view_def)
qed

lemma listed_stored:
  assumes "driver_ok drv docs" and "mongo_ListBatches drv c n m = (Inr bs, m')" and "b \<in> set bs"
  shows "DocBatch b \<in> set (docs m batchesCollection)"
proof -
  from mongo_list_mem [OF assms(2) [unfolded mongo_ListBatches_def] assms(3)] obtain cur m1 d where
    f: "Find drv (withTimeout c) batchesCollection [] (''created_at'', - 1) (list_limit n) m = (Inr cur, m1)"
    and d: "Inr d \<in> set (fst cur)" "as_batch d = Inr b" by blast
  have "d = DocBatch b" using d(2) by (cases d) simp_all
  with driver_find_docs [OF assms(1) f] d(1) show ?thesis by blast
qed

lemma picked_stored:
  assumes "driver_ok drv docs" and "unique_batches docs w"
    and "tick_pick (mongo_storage drv) c w = Some ((ag, b, i), s)"
  shows "batch_view docs w (batch_ID b) = Some (batch_core b)" and "eligible b = Some i"
proof -
  obtain bs s1 where l: "mongo_ListBatches drv c 0 w = (Inr bs, s1)" and f: "first_eligible bs = Some (b, i)"
    using assms(3) by (auto simp: tick_pick_def split: prod.splits sum.splits option.splits)
  from first_eligible_in [OF f] listed_stored [OF assms(1) l] unique_batch_view [OF assms(2)]
  show "batch_view docs w (batch_ID b) = Some (batch_core b)" and "eligible b = Some i" by auto
qed

lemma eligible_core: "eligible (batch_core b) = eligible b"
  by (simp add: eligible_def)

lemma claim_item_core: "batch_core (claim_item i b) = claim_item i (batch_core b)"
  by (simp add: claim_item_def set_item_status_def batch_core_update)

lemma complete_item_core: "batch_core (complete_item mr r i b) = complete_item mr r i (batch_core b)"
  by (simp add: complete_item_def set_item_status_def Let_def batch_core_update split: option.split)

text \<open>
  What a worker may do to the stored batches while it runs the item of a batch: steps of the system.
  The identifiers the service makes up have no white space at the ends, so the trimming of the
  worker does not change them.
\<close>

definition ids_trimmed :: "('m \<Rightarrow> string \<Rightarrow> doc list) \<Rightarrow> 'm \<Rightarrow> bool" where
  "ids_trimmed docs m \<longleftrightarrow> (\<forall>i. batch_view docs m i \<noteq> None \<longrightarrow> TrimSpace i = i)"

definition worker_steps :: "'m driver \<Rightarrow> ('m \<Rightarrow> string \<Rightarrow> doc list) \<Rightarrow> int \<Rightarrow> 'm work_fn \<Rightarrow> bool" where
  "worker_steps drv docs mr wk \<longleftrightarrow>
     (\<forall>c wi w r w2 b n ws. wk c wi w = (r, w2) \<longrightarrow> stored_ok mr docs (sw_rest w) \<longrightarrow>
        wi_BatchID wi = batch_ID b \<longrightarrow> TrimSpace (batch_ID b) = batch_ID b \<longrightarrow>
        (\<exists>wc ws'. sv_steps mr (sv_view docs (sw_rest w) (Running b n None) ws)
                              (sv_view docs (sw_rest w2) (Running b n wc) ws')))"

text \<open>A tick in pieces: the pick and the claim, a claim that failed, and a run with its completion.\<close>

definition claimed_view :: "('m \<Rightarrow> string \<Rightarrow> doc list) \<Rightarrow> 'm \<Rightarrow> batch \<Rightarrow> nat \<Rightarrow> batch list \<Rightarrow> service" where
  "claimed_view docs m b i ws =
     \<lparr>sv_stored = (batch_view docs m)(batch_ID b \<mapsto> batch_core (claim_item i b)),
      sv_run = Running (batch_core b) i None, sv_writes = ws\<rparr>"

lemma pick_claim_steps:
  assumes "batch_view docs m (batch_ID b) = Some (batch_core b)" and "eligible b = Some i"
  shows "sv_steps mr (sv_view docs m NotRunning ws) (sv_view docs m (Picked (batch_core b) i) ws)"
    and "sv_steps mr (sv_view docs m NotRunning ws) (claimed_view docs m b i ws)"
proof -
  have el: "eligible (batch_core b) = Some i" using assms(2) by (simp add: eligible_core)
  show s1: "sv_steps mr (sv_view docs m NotRunning ws) (sv_view docs m (Picked (batch_core b) i) ws)"
    using sv_pick [of "sv_view docs m NotRunning ws" "batch_ID b" "batch_core b" i mr] assms(1) el
    by (intro sv_steps_single) (simp add: sv_view_def)
  have "sv_step mr (sv_view docs m (Picked (batch_core b) i) ws) (claimed_view docs m b i ws)"
    using sv_claim [of "sv_view docs m (Picked (batch_core b) i) ws" "batch_core b" i mr]
    by (simp add: sv_view_def store_batch_def claim_item_core claimed_view_def)
  with s1 show "sv_steps mr (sv_view docs m NotRunning ws) (claimed_view docs m b i ws)" by (rule sv_trans)
qed

lemma failed_claim_steps:
  assumes b: "batch_view docs m (batch_ID b) = Some (batch_core b)" and el: "eligible b = Some i"
    and v: "v \<in> {batch_view docs m (batch_ID b), Some (batch_core (claim_item i b)),
             Some (batch_core (b\<lparr>batch_Status := BatchStatusPending\<rparr>))}"
    and m': "batch_view docs m' = (batch_view docs m)(batch_ID b := v)"
  shows "sv_steps mr (sv_view docs m NotRunning ws) (sv_view docs m' NotRunning ws)"
proof -
  let ?b = "batch_core b"
  note s1 = pick_claim_steps(1) [OF b el] and claim = pick_claim_steps(2) [OF b el]
  from v m' consider "batch_view docs m' = batch_view docs m"
    | "batch_view docs m' = (batch_view docs m)(batch_ID b \<mapsto> batch_core (claim_item i b))"
    | "batch_view docs m' = (batch_view docs m)(batch_ID b \<mapsto> ?b\<lparr>batch_Status := BatchStatusPending\<rparr>)"
    by (auto simp: batch_core_update)
  then show ?thesis
  proof cases
    case 1
    then show ?thesis using sv_trans [OF s1 sv_unpick [of _ ?b i]] by (simp add: sv_view_def)
  next
    case 2
    then show ?thesis
      using sv_trans [OF claim sv_abandon [of _ ?b i None]] by (simp add: sv_view_def claimed_view_def)
  next
    case 3
    then show ?thesis
      using sv_trans [OF claim sv_release [of _ ?b i]] by (simp add: sv_view_def store_batch_def claimed_view_def)
  qed
qed

lemma completion_steps:
  assumes steps: "sv_steps mr W (sv_view docs m2 (Running (batch_core b) i wc) ws)"
    and fin: "batch_view docs m' = (batch_view docs m2)(batch_ID b \<mapsto> batch_core (complete_item mr werr i (claim_item i b))) \<or>
      batch_view docs m' = batch_view docs m2"
  shows "sv_steps mr W (sv_view docs m' NotRunning ws)"
  using fin
proof
  assume "batch_view docs m' = (batch_view docs m2)(batch_ID b \<mapsto> batch_core (complete_item mr werr i (claim_item i b)))"
  then show ?thesis
    using sv_trans [OF steps sv_finish [where r = werr and b = "batch_core b" and n = i and wc = wc]]
    by (simp add: sv_view_def store_batch_def complete_item_core claim_item_core)
next
  assume "batch_view docs m' = batch_view docs m2"
  then show ?thesis using sv_trans [OF steps sv_abandon [of _ "batch_core b" i wc]] by (simp add: sv_view_def)
qed

lemma picked_attempts:
  assumes "batch_ok mr b" and "eligible b = Some i" and "in_int64 mr"
  shows "item_Attempts (batch_Items b ! i) < max_int"
proof -
  have "i < length (batch_Items b)" "item_Status (batch_Items b ! i) = ItemStatusPending"
    using assms(2) by (auto simp: eligible_iff)
  with assms(1) have "item_Attempts (batch_Items b ! i) < mr"
    by (auto simp: batch_ok_def list_all_length item_ok_def)
  then show ?thesis using assms(3) by (simp add: in_int64_def)
qed

lemma tick_steps:
  assumes ok: "driver_ok drv docs" and st: "dep_store d = Some (mongo_storage drv)"
    and wk: "dep_worker d = Some wk" and mr: "mr = sc_maxRetries (sw_sched w)" "in_int64 mr"
    and uniq: "unique_batches docs (sw_rest w)" and good: "stored_ok mr docs (sw_rest w)"
    and trim: "ids_trimmed docs (sw_rest w)"
    and work: "worker_steps drv docs mr wk" and tick: "Tick d c w = (r, w')"
  shows "\<exists>ws'. sv_steps mr (sv_view docs (sw_rest w) NotRunning ws) (sv_view docs (sw_rest w') NotRunning ws')"
proof (cases "sc_draining (sw_sched w) \<or> tick_pick (mongo_storage drv) c (sw_rest w) = None")
  case True
  then have "batch_view docs (sw_rest w') = batch_view docs (sw_rest w)"
    using sched_store.tick_idle [OF mongo_sched_store [OF ok] tick _ st] by auto
  then show ?thesis by (auto simp: sv_view_def intro: sv_refl)
next
  case False
  then obtain ag b i s where nd: "\<not> sc_draining (sw_sched w)"
    and pick: "tick_pick (mongo_storage drv) c (sw_rest w) = Some ((ag, b, i), s)" by auto
  note pk = picked_stored [OF ok uniq pick]
  have bok: "batch_ok mr b" using good pk(1) unfolding stored_ok_def by (metis batch_ok_core)
  have set: "items_set (batch_Items b)" using stored_ok_items [OF good pk(1)] by simp
  from mongo_tick_outcomes [OF ok tick nd st wk pick set picked_attempts [OF bok pk(2) mr(2)]]
  consider (failed) v where
      "v \<in> {batch_view docs (sw_rest w) (batch_ID b), Some (batch_core (claim_item i b)),
             Some (batch_core (b\<lparr>batch_Status := BatchStatusPending\<rparr>))}"
      "batch_view docs (sw_rest w') = (batch_view docs (sw_rest w))(batch_ID b := v)"
    | (ran) w1 werr w2 where "wk c (work_of b ag i) w1 = (werr, w2)"
      "batch_view docs (sw_rest w1) = (batch_view docs (sw_rest w))(batch_ID b \<mapsto> batch_core (claim_item i b))"
      "batch_view docs (sw_rest w') = (batch_view docs (sw_rest w2))(batch_ID b \<mapsto>
            batch_core (complete_item (sc_maxRetries (sw_sched w)) werr i (claim_item i b))) \<or>
          r \<noteq> None \<and> batch_view docs (sw_rest w') = batch_view docs (sw_rest w2)"
    by blast
  then show ?thesis
  proof cases
    case (failed v)
    from failed_claim_steps [OF pk this] show ?thesis by blast
  next
    case (ran w1 werr w2)
    note run = ran(1) and v1 = ran(2) and fin = ran(3)
    have "stored_ok mr docs (sw_rest w1)"
      using good claim_item_ok(1) [OF bok pk(2)] unfolding stored_ok_def v1 by simp
    moreover have "wi_BatchID (work_of b ag i) = batch_ID (batch_core b)" by (simp add: work_of_def)
    moreover have "TrimSpace (batch_ID (batch_core b)) = batch_ID (batch_core b)"
      using trim pk(1) by (simp add: ids_trimmed_def)
    ultimately obtain wc ws' where "sv_steps mr (sv_view docs (sw_rest w1) (Running (batch_core b) i None) ws)
        (sv_view docs (sw_rest w2) (Running (batch_core b) i wc) ws')"
      using work run unfolding worker_steps_def by metis
    moreover have "sv_view docs (sw_rest w1) (Running (batch_core b) i None) ws = claimed_view docs (sw_rest w) b i ws"
      by (simp add: sv_view_def v1 claimed_view_def)
    ultimately have "sv_steps mr (sv_view docs (sw_rest w) NotRunning ws)
        (sv_view docs (sw_rest w2) (Running (batch_core b) i wc) ws')"
      using sv_steps_append pick_claim_steps(2) [OF pk] by metis
    from completion_steps [OF this] fin mr(1) show ?thesis by blast
  qed
qed

text \<open>
  C20: \<^verbatim>\<open>Tick\<close> is a sequence of steps of the system, on every path: nothing to do, a failed listing, a
  failed claim with or without its rollback, a run that succeeds or fails, a completion that is
  written or lost, provided that what happens during the run is.
\<close>

theorem Tick_refines_steps:
  assumes "driver_ok drv docs" and "dep_store d = Some (mongo_storage drv)"
    and "dep_worker d = Some wk" and "mr = sc_maxRetries (sw_sched w)" and "in_int64 mr"
    and "unique_batches docs (sw_rest w)" and "stored_ok mr docs (sw_rest w)"
    and "ids_trimmed docs (sw_rest w)" and "worker_steps drv docs mr wk" and "Tick d c w = (r, w')"
  shows "\<exists>ws'. sv_steps mr (sv_view docs (sw_rest w) NotRunning ws) (sv_view docs (sw_rest w') NotRunning ws')"
  by (rule tick_steps [OF assms])

text \<open>A worker during whose run a pause request is served; it fails if the request is refused.\<close>

definition pause_wk :: "list_db work_fn" where
  "pause_wk c wi w =
     (let (r, m) = pauseBatchHandler (mongo_app list_driver) c ''repo-1'' ''batch-1'' (sw_rest w)
      in (if resp_status r = 200 then None else Some (Errorf ''pause refused''), w\<lparr>sw_rest := m\<rparr>))"

lemma pause_wk_steps: "worker_steps list_driver db_docs 5 pause_wk"
  unfolding worker_steps_def
proof (intro allI impI)
  fix c wi w r w2 b n ws
  assume run: "pause_wk c wi w = (r, w2)" and ok: "stored_ok 5 db_docs (sw_rest w)"
  obtain q m where h: "batchRequestHandler PauseRequest (mongo_app list_driver) c ''repo-1'' ''batch-1'' (sw_rest w) = (q, m)"
    by fastforce
  then have "sw_rest w2 = m" using run by (auto simp: pause_wk_def)
  then show "\<exists>wc ws'. sv_steps 5 (sv_view db_docs (sw_rest w) (Running b n None) ws)
                              (sv_view db_docs (sw_rest w2) (Running b n wc) ws')"
    using handler_steps [OF list_driver_ok ok h] by blast
qed

lemma pause_wk_tick:
  "fst (Tick (demo_deps pause_wk) (CtxBase 0) (demo_world (demo_db [demo_batch] [demo_agent]))) = None"
  by code_simp

lemma demo_ids_trimmed: "ids_trimmed db_docs (demo_db [demo_batch] ags)"
proof -
  have "TrimSpace ''batch-1'' = ''batch-1''" by code_simp
  then show ?thesis by (auto simp: ids_trimmed_def batch_view_def demo_db_def collections demo_simps split: if_splits)
qed

theorem Tick_refines_steps_witness:
  "\<exists>w' ws'. Tick (demo_deps pause_wk) (CtxBase 0) (demo_world (demo_db [demo_batch] [demo_agent])) = (None, w') \<and>
     sv_steps 5 (sv_view db_docs (demo_db [demo_batch] [demo_agent]) NotRunning []) (sv_view db_docs (sw_rest w') NotRunning ws')"
proof -
  let ?w = "demo_world (demo_db [demo_batch] [demo_agent])"
  obtain w' where t: "Tick (demo_deps pause_wk) (CtxBase 0) ?w = (None, w')"
    using pause_wk_tick by (metis prod.collapse)
  have "unique_batches db_docs (sw_rest ?w)" by (auto simp: unique_batches_def demo_db_def collections demo_simps)
  moreover have "in_int64 5" by code_simp
  ultimately show ?thesis
    using Tick_refines_steps [OF list_driver_ok demo_simps(4,5) demo_simps(6) [symmetric] _ _ _ _ pause_wk_steps t, of "[]"] t
      demo_stored_ok demo_ids_trimmed by (auto simp: demo_simps)
qed

text \<open>
  C32: A pause during a run is lost.  Whatever the stored status of the batch becomes while the worker
  runs, a pause that was acknowledged included, the tick that succeeds leaves the batch pending or
  done: it writes its own copy from before the run, so the scheduler goes on with the next item.
\<close>

theorem completion_overwrites_pause:
  assumes "driver_ok drv docs" and "\<not> sc_draining (sw_sched w)"
    and "dep_store d = Some (mongo_storage drv)" and "dep_worker d = Some wk"
    and "tick_pick (mongo_storage drv) c (sw_rest w) = Some ((ag, b, i), s)"
    and "items_set (batch_Items b)" and "item_Attempts (batch_Items b ! i) < max_int"
    and "Tick d c w = (None, w')"
  shows "\<exists>b'. batch_view docs (sw_rest w') (batch_ID b) = Some b' \<and>
    batch_Status b' = (if allItemsDone (batch_Items b') then BatchStatusDone else BatchStatusPending)"
proof -
  have el: "eligible b = Some i" by (rule tick_pick_dispatch(2) [OF assms(8,2-5)])
  from mongo_tick_success [OF assms(1,8,2-7)]
  have "batch_view docs (sw_rest w') (batch_ID b) =
      Some (batch_core (complete_item (sc_maxRetries (sw_sched w)) None i (claim_item i b)))" by auto
  then show ?thesis
    using attempt_status [OF el, of _ None] attempt_items [OF el, of _ None] by simp
qed

theorem completion_overwrites_pause_witness:
  "\<exists>w' b'. Tick (demo_deps pause_wk) (CtxBase 0) (demo_world (demo_db [demo_batch] [demo_agent])) = (None, w') \<and>
     batch_view db_docs (sw_rest w') ''batch-1'' = Some b' \<and> batch_Status b' \<noteq> BatchStatusPaused"
proof -
  let ?w = "demo_world (demo_db [demo_batch] [demo_agent])"
  obtain w' where t: "Tick (demo_deps pause_wk) (CtxBase 0) ?w = (None, w')"
    using pause_wk_tick by (metis prod.collapse)
  obtain s where pick: "tick_pick (mongo_storage list_driver) (CtxBase 0) (sw_rest ?w) = Some ((demo_agent, demo_batch, 0), s)"
    using demo_pick by auto
  from completion_overwrites_pause [OF list_driver_ok demo_simps(1,4,5) pick demo_simps(2,3) t] t
  show ?thesis by (auto simp: demo_simps split: if_splits)
qed

end
