(* ===== verification/Config.thy ===== *)
theory Config
  imports Go_Prelude
begin

text \<open>
  internal/config/config.go: where a configuration value comes from.  The environment, the file and
  the JSON decoder are arguments of the model: \<^verbatim>\<open>os.LookupEnv\<close>, \<^verbatim>\<open>os.ReadFile\<close> and \<^verbatim>\<open>json.Unmarshal\<close> into a
  \<^verbatim>\<open>map[string]string\<close>.  What loading logs is part of the result, since secrets must not be in it.
\<close>

section \<open>Keys and defaults\<close>

type_synonym config = "string \<Rightarrow> go_error + string"

definition MongoURIKey :: string where "MongoURIKey = ''YARALPHO_MONGODB_URI''"
definition MongoDBKey :: string where "MongoDBKey = ''YARALPHO_MONGODB_DB''"
definition RepoPathKey :: string where "RepoPathKey = ''YARALPHO_REPO_PATH''"
definition PortKey :: string where "PortKey = ''YARALPHO_PORT''"
definition SlackWebhookKey :: string where "SlackWebhookKey = ''YARALPHO_SLACK_WEBHOOK_URL''"
definition MaxRetriesKey :: string where "MaxRetriesKey = ''YARALPHO_MAX_RETRIES''"
definition SchedulerIntervalKey :: string where "SchedulerIntervalKey = ''YARALPHO_SCHEDULER_INTERVAL''"
definition RestartWaitTimeoutKey :: string where "RestartWaitTimeoutKey = ''YARALPHO_RESTART_WAIT_TIMEOUT''"
definition ExecutionTaskPromptKey :: string where "ExecutionTaskPromptKey = ''YARALPHO_EXECUTION_TASK_PROMPT''"
definition VerificationTaskPromptKey :: string where "VerificationTaskPromptKey = ''YARALPHO_VERIFICATION_TASK_PROMPT''"
definition TaskRunTimeoutKey :: string where "TaskRunTimeoutKey = ''YARALPHO_TASK_RUN_TIMEOUT''"
definition TaskExecTimeoutKey :: string where "TaskExecTimeoutKey = ''YARALPHO_TASK_EXEC_TIMEOUT''"
definition TaskVerifyTimeoutKey :: string where "TaskVerifyTimeoutKey = ''YARALPHO_TASK_VERIFY_TIMEOUT''"
definition ConfigPathOverride :: string where "ConfigPathOverride = ''RALPH_CONFIG''"

lemmas config_keys = MongoURIKey_def MongoDBKey_def RepoPathKey_def PortKey_def SlackWebhookKey_def
  MaxRetriesKey_def SchedulerIntervalKey_def RestartWaitTimeoutKey_def ExecutionTaskPromptKey_def
  VerificationTaskPromptKey_def TaskRunTimeoutKey_def TaskExecTimeoutKey_def TaskVerifyTimeoutKey_def

definition defaultConfigPath :: string where "defaultConfigPath = ''config.json''"
definition defaultMaxRetriesValue :: string where "defaultMaxRetriesValue = ''5''"
definition defaultSchedulerInterval :: string where "defaultSchedulerInterval = ''10s''"
definition defaultRestartWaitTimeoutValue :: string where "defaultRestartWaitTimeoutValue = ''20m''"
definition defaultTaskRunTimeout :: string where "defaultTaskRunTimeout = ''1h''"
definition defaultTaskExecTimeout :: string where "defaultTaskExecTimeout = ''1h''"
definition defaultTaskVerifyTimeout :: string where "defaultTaskVerifyTimeout = ''1h''"

definition defaultExecutionTaskPrompt :: string where
  "defaultExecutionTaskPrompt =
     Join
      [[],
       ''You are an execution agent. No human will answer questions. Finish the task end-to-end.'',
       [],
       ''Environment: shell access is available; use bd CLI for tracking.'',
       [],
       ''Protocol (do not skip steps):'',
       ''1) Read the task (and related tasks/epics if referenced) to understand scope/acceptance. If anything is missing, say exactly what is missing and stop.'',
       ''2) Write a short execution plan with concrete steps + planned verification.'',
       ''3) Claim the task: ensure status is in_progress (run '' @ [CHR 0x27] @ ''bd update <id> --status in_progress'' @ [CHR 0x27] @ '' unless already in that state).'',
       ''4) Gather only needed context (code/docs).'',
       ''5) Implement changes.'',
       ''6) Verification: run the relevant tests/checks; state what '' @ [CHR 0x22] @ ''done'' @ [CHR 0x22] @ '' means and show command outputs.'',
       [],
       ''7) Git hygiene before finalizing:'',
       ''   - ensure '' @ [CHR 0x27] @ ''git status'' @ [CHR 0x27] @ '' clean before commit'',
       ''   - commit message must mention the task ID/name'',
       ''   - avoid committing build caches, large data, secrets, temp files'',
       [],
       ''8) Finalization sequence (run in order):'',
       ''   - '' @ [CHR 0x27] @ ''git pull --rebase'' @ [CHR 0x27],
       ''   - '' @ [CHR 0x27] @ ''bd sync'' @ [CHR 0x27],
       ''   - '' @ [CHR 0x27] @ ''git push'' @ [CHR 0x27],
       ''   - confirm '' @ [CHR 0x27] @ ''git status'' @ [CHR 0x27] @ '' reports '' @ [CHR 0x22] @ ''up to date with origin'' @ [CHR 0x22],
       [],
       ''9) Close the task ONLY IF implementation and verification are complete and push succeeded:'',
       ''   - run '' @ [CHR 0x27] @ ''bd close <id>'' @ [CHR 0x27],
       ''   - confirm it succeeded'',
       ''   - if not complete, leave open and state what is pending/blocking'',
       [],
       ''10) Report concisely: what changed, tests run/results, git status, whether '' @ [CHR 0x27] @ ''bd close'' @ [CHR 0x27] @ '' executed (or why not).'',
       [],
       ''Rules:'',
       ''- Prefer correctness over speed; explain any deviations.'',
       ''- If blocked (missing access, failing tests you cannot fix), stop and state the block clearly.'',
       ''- Use staff-software-engineer for code; frontend-engineer for UI work.'',
       ''- Never end the session with unpushed commits; only close when truly done.'',
       [],
       [],
       ''Task to execute: %s'',
       [],
       []]
      [CHR 0x0A]"

definition defaultVerificationTaskPrompt :: string where
  "defaultVerificationTaskPrompt =
     Join
      [[],
       ''You are a verification agent. Verify the work of another coding agent and report a single JSON result.'',
       [],
       ''Checks (stop at first failure; otherwise continue):'',
       ''1) Working tree clean: run git status --short. If any tracked or untracked files appear, output:'',
       ''   {'',
       ''     '' @ [CHR 0x22] @ ''status'' @ [CHR 0x22] @ '': '' @ [CHR 0x22] @ ''failure'' @ [CHR 0x22] @ '','',
       ''     '' @ [CHR 0x22] @ ''reason'' @ [CHR 0x22] @ '': '' @ [CHR 0x22] @ ''working_tree_not_clean'' @ [CHR 0x22] @ '','',
       ''     '' @ [CHR 0x22] @ ''details'' @ [CHR 0x22] @ '': '' @ [CHR 0x22] @ ''Brief list of files and changes (escape quotes/backslashes)'' @ [CHR 0x22],
       ''   }'',
       [],
       ''2) Task closed: confirm the task is marked closed in the tracker. If not closed, output:'',
       ''   {'',
       ''     '' @ [CHR 0x22] @ ''status'' @ [CHR 0x22] @ '': '' @ [CHR 0x22] @ ''failure'' @ [CHR 0x22] @ '','',
       ''     '' @ [CHR 0x22] @ ''reason'' @ [CHR 0x22] @ '': '' @ [CHR 0x22] @ ''task_not_closed'' @ [CHR 0x22] @ '','',
       ''     '' @ [CHR 0x22] @ ''details'' @ [CHR 0x22] @ '': '' @ [CHR 0x22] @ ''Current task status'' @ [CHR 0x22],
       ''   }'',
       [],
       ''3) Commit requirement and last commit:'',
       ''   - Get last commit: git log -1 --oneline (hash and message).'',
       ''   - If the message mentions the task name/ID, summarize the last commit in plain words (no bullets) and output:'',
       ''     {'',
       ''       '' @ [CHR 0x22] @ ''status'' @ [CHR 0x22] @ '': '' @ [CHR 0x22] @ ''success'' @ [CHR 0x22] @ '','',
       ''       '' @ [CHR 0x22] @ ''reason'' @ [CHR 0x22] @ '': '' @ [CHR 0x22] @ ''<last commit hash>'' @ [CHR 0x22] @ '','',
       ''       '' @ [CHR 0x22] @ ''details'' @ [CHR 0x22] @ '': '' @ [CHR 0x22] @ ''<plain summary, escape quotes/backslashes>'' @ [CHR 0x22],
       ''     }'',
       ''   - If it does NOT mention the task:'',
       ''     * Read the task description. If the task required code/config/doc changes and no commit references it, output:'',
       ''       {'',
       ''         '' @ [CHR 0x22] @ ''status'' @ [CHR 0x22] @ '': '' @ [CHR 0x22] @ ''failure'' @ [CHR 0x22] @ '','',
       ''         '' @ [CHR 0x22] @ ''reason'' @ [CHR 0x22] @ '': '' @ [CHR 0x22] @ ''commit_missing'' @ [CHR 0x22] @ '','',
       ''         '' @ [CHR 0x22] @ ''details'' @ [CHR 0x22] @ '': '' @ [CHR 0x22] @ ''Task needs commit but none references it'' @ [CHR 0x22],
       ''       }'',
       ''     * If the task did not require a commit (pure verification/admin), output:'',
       ''       {'',
       ''         '' @ [CHR 0x22] @ ''status'' @ [CHR 0x22] @ '': '' @ [CHR 0x22] @ ''success'' @ [CHR 0x22] @ '','',
       ''         '' @ [CHR 0x22] @ ''reason'' @ [CHR 0x22] @ '': '' @ [CHR 0x22] @ ''no_commit_required'' @ [CHR 0x22] @ '','',
       ''         '' @ [CHR 0x22] @ ''details'' @ [CHR 0x22] @ '': '' @ [CHR 0x22] @ ''Task completed without commit'' @ [CHR 0x22],
       ''       }'',
       [],
       ''Rules:'',
       ''- Final assistant message must be exactly one JSON object, no code fences, no extra text.'',
       ''- Escape JSON specials: replace '' @ [CHR 0x22] @ '' with '' @ [CHR 0x5C] @ [CHR 0x22] @ '', '' @ [CHR 0x5C] @ '' with '' @ [CHR 0x5C] @ [CHR 0x5C] @ '', newlines with '' @ [CHR 0x5C] @ ''n.'',
       ''- Do not include Markdown. No extra keys. No trailing commas.'',
       [],
       ''Task name: %s'',
       [CHR 0x09]]
      [CHR 0x0A]"

definition requiredKeys :: "string list" where
  "requiredKeys = [MongoURIKey, MongoDBKey, RepoPathKey, PortKey]"

definition envOverrideKeys :: "string list" where
  "envOverrideKeys =
     [MongoURIKey, MongoDBKey, RepoPathKey, PortKey, SlackWebhookKey, MaxRetriesKey, SchedulerIntervalKey,
      RestartWaitTimeoutKey, ExecutionTaskPromptKey, VerificationTaskPromptKey, TaskRunTimeoutKey,
      TaskExecTimeoutKey, TaskVerifyTimeoutKey]"

definition secretKeys :: "string set" where
  "secretKeys = {SlackWebhookKey}"

definition LoggableKeys :: "string list" where
  "LoggableKeys =
     [MongoURIKey, MongoDBKey, RepoPathKey, PortKey, MaxRetriesKey, SchedulerIntervalKey, RestartWaitTimeoutKey,
      ExecutionTaskPromptKey, VerificationTaskPromptKey, TaskRunTimeoutKey, TaskExecTimeoutKey, TaskVerifyTimeoutKey]"

section \<open>Loading\<close>

definition lookupEnv :: "(string \<Rightarrow> string option) \<Rightarrow> string \<Rightarrow> string option" where
  "lookupEnv env key =
     (case env key of
        None \<Rightarrow> None
      | Some val \<Rightarrow> (let trimmed = TrimSpace val in if trimmed = [] then None else Some trimmed))"

text \<open>A missing file is an empty one; \<open>read\<close> reports it by an error that \<^verbatim>\<open>errors.Is(err, fs.ErrNotExist)\<close>.\<close>

definition loadJSON ::
    "(string \<Rightarrow> go_error + string) \<Rightarrow> (string \<Rightarrow> go_error + (string \<Rightarrow> string option)) \<Rightarrow> string \<Rightarrow>
       go_error + (string \<Rightarrow> string option)" where
  "loadJSON read unmarshal path =
     (if TrimSpace path = [] then Inr (\<lambda>_. None)
      else case read path of
          Inl e \<Rightarrow> (if err_is e ErrNotExist then Inr (\<lambda>_. None) else Inl (Wrapf ''read config file'' e))
        | Inr data \<Rightarrow>
            (case unmarshal data of
               Inl e \<Rightarrow> Inl (Wrapf ''parse config file'' e)
             | Inr parsed \<Rightarrow> Inr parsed))"

text \<open>\<^verbatim>\<open>values[key]\<close> of a Go map: the empty string where there is no entry.\<close>

definition value_at :: "(string \<Rightarrow> string option) \<Rightarrow> string \<Rightarrow> string" where
  "value_at values key = (case values key of None \<Rightarrow> [] | Some v \<Rightarrow> v)"

definition file_values :: "(string \<Rightarrow> string option) \<Rightarrow> string \<Rightarrow> string option" where
  "file_values json key =
     (case json key of
        None \<Rightarrow> None
      | Some v \<Rightarrow> (let trimmed = TrimSpace v in if trimmed \<noteq> [] then Some trimmed else None))"

definition isSecretKey :: "string \<Rightarrow> bool" where
  "isSecretKey key \<longleftrightarrow> key \<in> secretKeys"

text \<open>The fields of the warning: the key, and the two values unless the key is secret.\<close>

record override_log =
  ol_key :: string
  ol_values :: "(string \<times> string) option"

definition logEnvOverrideCollision :: "string \<Rightarrow> string \<Rightarrow> string \<Rightarrow> override_log" where
  "logEnvOverrideCollision key fileValue envValue =
     (if isSecretKey key then \<lparr>ol_key = key, ol_values = None\<rparr>
      else \<lparr>ol_key = key, ol_values = Some (fileValue, envValue)\<rparr>)"

fun env_overrides ::
    "(string \<Rightarrow> string option) \<Rightarrow> (string \<Rightarrow> string option) \<Rightarrow> string list \<Rightarrow> (string \<Rightarrow> string option) \<times> override_log list \<Rightarrow>
       (string \<Rightarrow> string option) \<times> override_log list" where
  "env_overrides env json [] s = s"
| "env_overrides env json (key # keys) (values, logs) =
     env_overrides env json keys
       (case lookupEnv env key of
          None \<Rightarrow> (values, logs)
        | Some val \<Rightarrow>
            (values(key \<mapsto> val),
             logs @ (case json key of
                 None \<Rightarrow> []
               | Some fileValue \<Rightarrow>
                   (if TrimSpace fileValue \<noteq> [] then [logEnvOverrideCollision key (TrimSpace fileValue) val] else []))))"

text \<open>The defaults, in the order of the code.\<close>

definition defaults :: "(string \<times> string) list" where
  "defaults =
     [(PortKey, ''8080''), (MaxRetriesKey, defaultMaxRetriesValue), (SchedulerIntervalKey, defaultSchedulerInterval),
      (RestartWaitTimeoutKey, defaultRestartWaitTimeoutValue), (TaskRunTimeoutKey, defaultTaskRunTimeout),
      (TaskExecTimeoutKey, defaultTaskExecTimeout), (TaskVerifyTimeoutKey, defaultTaskVerifyTimeout),
      (ExecutionTaskPromptKey, defaultExecutionTaskPrompt), (VerificationTaskPromptKey, defaultVerificationTaskPrompt)]"

fun add_defaults :: "(string \<times> string) list \<Rightarrow> (string \<Rightarrow> string option) \<Rightarrow> string \<Rightarrow> string option" where
  "add_defaults [] values = values"
| "add_defaults ((key, d) # ds) values =
     add_defaults ds (if TrimSpace (value_at values key) = [] then values(key \<mapsto> d) else values)"

definition missingKeys :: "(string \<Rightarrow> string option) \<Rightarrow> string list \<Rightarrow> string list" where
  "missingKeys values keys = filter (\<lambda>key. TrimSpace (value_at values key) = []) keys"

text \<open>A load panics with the missing keys, fails, or gives the values; what it logged comes with them.\<close>

datatype load_result =
    LoadPanics "string list"
  | LoadFails go_error
  | Loaded "string \<Rightarrow> string option" "override_log list"

definition config_path :: "(string \<Rightarrow> string option) \<Rightarrow> string \<Rightarrow> string" where
  "config_path env path =
     (let cfgPath = (case lookupEnv env ConfigPathOverride of Some p \<Rightarrow> p | None \<Rightarrow> TrimSpace path)
      in if cfgPath = [] then defaultConfigPath else cfgPath)"

definition LoadWithPath ::
    "(string \<Rightarrow> string option) \<Rightarrow> (string \<Rightarrow> go_error + string) \<Rightarrow> (string \<Rightarrow> go_error + (string \<Rightarrow> string option)) \<Rightarrow>
       string \<Rightarrow> load_result" where
  "LoadWithPath env read unmarshal path =
     (case loadJSON read unmarshal (config_path env path) of
        Inl e \<Rightarrow> LoadFails e
      | Inr json \<Rightarrow>
          (let (vs, logs) = env_overrides env json envOverrideKeys (file_values json, []);
               values = add_defaults defaults vs;
               missing = missingKeys values requiredKeys
           in if missing \<noteq> [] then LoadPanics missing else Loaded values logs))"

text \<open>\<^verbatim>\<open>Get\<close> of the loaded configuration.\<close>

definition Get :: "(string \<Rightarrow> string option) \<Rightarrow> config" where
  "Get values key =
     (case values key of
        Some val \<Rightarrow> (if TrimSpace val \<noteq> [] then Inr val else Inl (Errorf (''config key '' @ key @ '' not found'')))
      | None \<Rightarrow> Inl (Errorf (''config key '' @ key @ '' not found'')))"

section \<open>The three sources\<close>

lemma lookupEnv_nonblank: "lookupEnv env k = Some v \<Longrightarrow> v = TrimSpace v \<and> v \<noteq> []"
  by (auto simp: lookupEnv_def Let_def split: option.splits if_splits)

lemma file_values_nonblank: "file_values json k = Some v \<Longrightarrow> v = TrimSpace v \<and> v \<noteq> []"
  by (auto simp: file_values_def Let_def split: option.splits if_splits)

lemma env_overrides_values:
  "fst (env_overrides env json keys (vs, logs)) k =
     (if k \<in> set keys \<and> lookupEnv env k \<noteq> None then lookupEnv env k else vs k)"
proof (induction keys arbitrary: vs logs k)
  case Nil
  then show ?case by simp
next
  case (Cons key keys)
  show ?case by (cases "lookupEnv env key"; cases "k = key") (auto simp: Cons.IH)
qed

text \<open>What the overrides log, key by key.\<close>

definition override_entry :: "(string \<Rightarrow> string option) \<Rightarrow> (string \<Rightarrow> string option) \<Rightarrow> string \<Rightarrow> override_log list" where
  "override_entry env json k =
     (case (lookupEnv env k, file_values json k) of
        (Some ev, Some fv) \<Rightarrow> [logEnvOverrideCollision k fv ev]
      | _ \<Rightarrow> [])"

lemma env_overrides_logs:
  "snd (env_overrides env json keys (vs, logs)) = logs @ concat (map (override_entry env json) keys)"
proof (induction keys arbitrary: vs logs)
  case Nil
  then show ?case by simp
next
  case (Cons key keys)
  show ?case
    by (cases "lookupEnv env key"; cases "json key") (simp_all add: Cons.IH override_entry_def file_values_def Let_def)
qed

text \<open>A list of defaults with distinct keys that are not blank fills every gap.\<close>

lemma add_defaults_values:
  "distinct (map fst ds) \<Longrightarrow>
     add_defaults ds vs k = (if TrimSpace (value_at vs k) = [] \<and> k \<in> fst ` set ds then map_of ds k else vs k)"
proof (induction ds arbitrary: vs)
  case Nil
  then show ?case by simp
next
  case (Cons d ds)
  obtain key v where "d = (key, v)" by fastforce
  with Cons show ?case by (auto simp: value_at_def map_of_eq_None_iff image_iff split: option.splits)
qed

text \<open>The defaults are fit to fill gaps: their keys are distinct and none of them is blank.\<close>

lemma defaults_distinct: "distinct (map fst defaults)"
  by (simp add: defaults_def config_keys)

lemma default_short: "TrimSpace ''8080'' \<noteq> []" "TrimSpace defaultMaxRetriesValue \<noteq> []" "TrimSpace defaultSchedulerInterval \<noteq> []"
  "TrimSpace defaultRestartWaitTimeoutValue \<noteq> []" "TrimSpace defaultTaskRunTimeout \<noteq> []"
  "TrimSpace defaultTaskExecTimeout \<noteq> []" "TrimSpace defaultTaskVerifyTimeout \<noteq> []"
  by code_simp+

lemma Join_mem: "x \<in> set xs \<Longrightarrow> set x \<subseteq> set (Join xs sep)"
  by (induction xs sep rule: Join.induct) auto

lemma default_prompts: "TrimSpace defaultExecutionTaskPrompt \<noteq> []" "TrimSpace defaultVerificationTaskPrompt \<noteq> []"
proof -
  have y: "\<forall>r \<in> set space_runes. CHR ''Y'' \<notin> set r" by (simp add: space_runes_def)
  have "CHR ''Y'' \<in> set defaultExecutionTaskPrompt" "CHR ''Y'' \<in> set defaultVerificationTaskPrompt"
    by (simp_all add: defaultExecutionTaskPrompt_def defaultVerificationTaskPrompt_def)
  then show "TrimSpace defaultExecutionTaskPrompt \<noteq> []" "TrimSpace defaultVerificationTaskPrompt \<noteq> []"
    using not_blank y by blast+
qed

lemma defaults_nonblank: "(k, d) \<in> set defaults \<Longrightarrow> TrimSpace d \<noteq> []"
  using default_short default_prompts by (auto simp: defaults_def)

text \<open>The value of a key from the environment and the file alone, and with the defaults.\<close>

definition configured :: "(string \<Rightarrow> string option) \<Rightarrow> (string \<Rightarrow> string option) \<Rightarrow> string \<Rightarrow> string option" where
  "configured env json k =
     (if k \<in> set envOverrideKeys \<and> lookupEnv env k \<noteq> None then lookupEnv env k else file_values json k)"

definition effective :: "(string \<Rightarrow> string option) \<Rightarrow> (string \<Rightarrow> string option) \<Rightarrow> string \<Rightarrow> string option" where
  "effective env json k = (case configured env json k of Some v \<Rightarrow> Some v | None \<Rightarrow> map_of defaults k)"

lemma configured_nonblank: "configured env json k = Some v \<Longrightarrow> TrimSpace v \<noteq> []"
  by (auto simp: configured_def split: if_splits dest: lookupEnv_nonblank file_values_nonblank)

lemma effective_nonblank: "effective env json k = Some v \<Longrightarrow> TrimSpace v \<noteq> []"
  by (auto simp: effective_def split: option.splits dest: configured_nonblank defaults_nonblank map_of_SomeD)

lemma loaded_values:
  "add_defaults defaults (fst (env_overrides env json envOverrideKeys (file_values json, logs))) k = effective env json k"
proof -
  let ?vs = "fst (env_overrides env json envOverrideKeys (file_values json, logs))"
  have vs: "?vs k = configured env json k" by (simp add: env_overrides_values configured_def)
  then have "TrimSpace (value_at ?vs k) = [] \<longleftrightarrow> configured env json k = None"
    using configured_nonblank [of env json k] by (auto simp: value_at_def split: option.splits)
  moreover have "k \<notin> fst ` set defaults \<Longrightarrow> map_of defaults k = None" by (simp add: map_of_eq_None_iff)
  ultimately show ?thesis
    by (auto simp: add_defaults_values [OF defaults_distinct] effective_def vs split: option.splits)
qed

lemma Get_effective:
  assumes "vs = effective env json"
  shows "Get vs k = (case effective env json k of Some v \<Rightarrow> Inr v | None \<Rightarrow> Inl (Errorf (''config key '' @ k @ '' not found'')))"
  using assms effective_nonblank [of env json k] by (auto simp: Get_def split: option.splits)

lemma Load_cases:
  assumes "loadJSON read unmarshal (config_path env path) = Inr json"
  shows "LoadWithPath env read unmarshal path =
    (let missing = filter (\<lambda>k. effective env json k = None) requiredKeys
     in if missing \<noteq> [] then LoadPanics missing
        else Loaded (effective env json) (concat (map (override_entry env json) envOverrideKeys)))"
proof -
  have "add_defaults defaults (fst (env_overrides env json envOverrideKeys (file_values json, []))) = effective env json"
    by (rule ext) (rule loaded_values)
  moreover have "missingKeys (effective env json) ks = filter (\<lambda>k. effective env json k = None) ks" for ks
    unfolding missingKeys_def
    by (rule filter_cong) (auto simp: value_at_def dest: effective_nonblank split: option.splits)
  ultimately show ?thesis
    using assms env_overrides_logs [of env json envOverrideKeys "file_values json" "[]"]
    by (simp add: LoadWithPath_def split_beta Let_def)
qed

lemma loaded_complete:
  assumes "LoadWithPath env read unmarshal path = Loaded vs logs" and "k \<in> set requiredKeys"
  shows "\<exists>v. Get vs k = Inr v \<and> TrimSpace v \<noteq> []"
proof -
  from assms(1) obtain json where json: "loadJSON read unmarshal (config_path env path) = Inr json"
    by (auto simp: LoadWithPath_def split: sum.splits)
  with Load_cases [OF json] assms(1) have vs: "vs = effective env json"
    and m: "filter (\<lambda>k. effective env json k = None) requiredKeys = []"
    by (auto simp: Let_def split: if_splits)
  from m assms(2) have "effective env json k \<noteq> None" by (auto simp: filter_empty_conv)
  with effective_nonblank [of env json k] Get_effective [OF vs, of k] show ?thesis by auto
qed

section \<open>Properties\<close>

text \<open>
  C33: Where a value comes from.  After a load that succeeded the value of a key is the one of the
  environment if the key may be set there and is not blank, else the one of the file if it is not blank,
  both trimmed, else the default if there is one, and otherwise an error.
\<close>

theorem config_precedence:
  assumes "LoadWithPath env read unmarshal path = Loaded vs logs"
  shows "\<exists>json. loadJSON read unmarshal (config_path env path) = Inr json \<and>
    (\<forall>k. Get vs k =
      (case (if k \<in> set envOverrideKeys then lookupEnv env k else None) of
         Some v \<Rightarrow> Inr v
       | None \<Rightarrow>
           (case file_values json k of
              Some v \<Rightarrow> Inr v
            | None \<Rightarrow>
                (case map_of defaults k of
                   Some d \<Rightarrow> Inr d
                 | None \<Rightarrow> Inl (Errorf (''config key '' @ k @ '' not found''))))))"
proof -
  from assms obtain json where json: "loadJSON read unmarshal (config_path env path) = Inr json"
    by (auto simp: LoadWithPath_def split: sum.splits)
  with Load_cases [OF json] assms have "vs = effective env json" by (auto simp: Let_def split: if_splits)
  from Get_effective [OF this] json show ?thesis
    by (auto simp: effective_def configured_def split: option.splits)
qed

text \<open>
  C34: A configuration that was loaded is complete.  Every required key and every key with a default
  has a value that is not blank.  A load that panics names the required keys, the port not
  among them, that neither the environment nor the file sets.
\<close>

theorem config_complete:
  "case LoadWithPath env read unmarshal path of
     LoadFails e \<Rightarrow> loadJSON read unmarshal (config_path env path) = Inl e
   | LoadPanics ms \<Rightarrow>
       \<exists>json. loadJSON read unmarshal (config_path env path) = Inr json \<and> ms \<noteq> [] \<and>
         set ms = {k \<in> {MongoURIKey, MongoDBKey, RepoPathKey}. lookupEnv env k = None \<and> file_values json k = None}
   | Loaded vs logs \<Rightarrow>
       \<forall>k \<in> set requiredKeys \<union> fst ` set defaults. \<exists>v. Get vs k = Inr v \<and> TrimSpace v \<noteq> []"
proof (cases "loadJSON read unmarshal (config_path env path)")
  case (Inl e)
  then show ?thesis by (simp add: LoadWithPath_def)
next
  case (Inr json)
  have port: "effective env json PortKey \<noteq> None" by (simp add: effective_def defaults_def split: option.splits)
  have req: "effective env json k = None \<longleftrightarrow> lookupEnv env k = None \<and> file_values json k = None"
    if "k \<in> {MongoURIKey, MongoDBKey, RepoPathKey}" for k
    using that by (auto simp: effective_def configured_def envOverrideKeys_def defaults_def config_keys split: option.splits if_splits)
  have all: "effective env json k \<noteq> None" if "k \<in> fst ` set defaults" for k
    using that map_of_eq_None_iff [of defaults k] by (auto simp: effective_def split: option.splits)
  have missing: "set (filter (\<lambda>k. effective env json k = None) requiredKeys) =
      {k \<in> {MongoURIKey, MongoDBKey, RepoPathKey}. lookupEnv env k = None \<and> file_values json k = None}"
  proof (rule set_eqI)
    fix k
    have "k \<in> set requiredKeys \<longleftrightarrow> k \<in> {MongoURIKey, MongoDBKey, RepoPathKey} \<or> k = PortKey"
      by (simp add: requiredKeys_def disj_assoc)
    moreover have "PortKey \<notin> {MongoURIKey, MongoDBKey, RepoPathKey}" by (simp add: config_keys)
    ultimately show "k \<in> set (filter (\<lambda>k. effective env json k = None) requiredKeys) \<longleftrightarrow>
        k \<in> {k \<in> {MongoURIKey, MongoDBKey, RepoPathKey}. lookupEnv env k = None \<and> file_values json k = None}"
      using port req [of k] by (cases "k \<in> {MongoURIKey, MongoDBKey, RepoPathKey}"; cases "k = PortKey") (simp_all del: insert_iff)
  qed
  have get: "\<exists>v. Get (effective env json) k = Inr v \<and> TrimSpace v \<noteq> []" if "effective env json k \<noteq> None" for k
    using that effective_nonblank [of env json k] Get_effective [OF refl, of env json k] by auto
  show ?thesis
  proof (cases "filter (\<lambda>k. effective env json k = None) requiredKeys = []")
    case True
    then have "\<forall>k \<in> set requiredKeys \<union> fst ` set defaults. effective env json k \<noteq> None"
      using all by (auto simp: filter_empty_conv)
    with get True Load_cases [OF Inr] show ?thesis by (simp add: Let_def)
  next
    case False
    with missing Load_cases [OF Inr] Inr show ?thesis by (simp add: Let_def)
  qed
qed

text \<open>
  The secret is not logged.  Loading logs nothing that depends on the webhook address, and
  neither do the values of the keys that are logged at the start: with another address in the
  environment or the file, the same load logs the same.
\<close>

theorem secret_not_logged:
  assumes "LoadWithPath env read unmarshal path = Loaded vs logs"
    and "loadJSON read unmarshal (config_path env path) = Inr json"
    and "loadJSON read' unmarshal' (config_path env' path) = Inr json'"
    and "\<forall>k. k \<noteq> SlackWebhookKey \<longrightarrow> env' k = env k \<and> json' k = json k"
    and "lookupEnv env' SlackWebhookKey = None \<longleftrightarrow> lookupEnv env SlackWebhookKey = None"
    and "file_values json' SlackWebhookKey = None \<longleftrightarrow> file_values json SlackWebhookKey = None"
  shows "\<exists>vs'. LoadWithPath env' read' unmarshal' path = Loaded vs' logs \<and>
    (\<forall>k \<in> set LoggableKeys. Get vs' k = Get vs k)"
proof -
  have same: "lookupEnv env' k = lookupEnv env k \<and> file_values json' k = file_values json k" if "k \<noteq> SlackWebhookKey" for k
    using assms(4) that by (simp add: lookupEnv_def file_values_def)
  have eff: "effective env' json' k = effective env json k" if "k \<noteq> SlackWebhookKey" for k
    unfolding effective_def configured_def using same [OF that] by presburger
  have "override_entry env' json' k = override_entry env json k" for k
  proof (cases "k = SlackWebhookKey")
    case True
    with assms(5,6) show ?thesis
      by (auto simp: override_entry_def logEnvOverrideCollision_def isSecretKey_def secretKeys_def split: option.split)
  next
    case False
    with same show ?thesis by (simp add: override_entry_def)
  qed
  then have logs: "override_entry env' json' = override_entry env json" by (rule ext)
  have "filter (\<lambda>k. effective env' json' k = None) requiredKeys = filter (\<lambda>k. effective env json k = None) requiredKeys"
    by (rule filter_cong) (auto simp: eff requiredKeys_def config_keys)
  with assms(1) logs Load_cases [OF assms(2)] Load_cases [OF assms(3)]
  have vs: "vs = effective env json" and "LoadWithPath env' read' unmarshal' path = Loaded (effective env' json') logs"
    by (auto simp: Let_def split: if_splits)
  moreover have "Get (effective env' json') k = Get vs k" if "k \<in> set LoggableKeys" for k
  proof -
    have "k \<noteq> SlackWebhookKey" using that by (auto simp: LoggableKeys_def config_keys)
    with eff show ?thesis by (simp add: Get_effective [OF refl] vs)
  qed
  ultimately show ?thesis by blast
qed

text \<open>An environment with a webhook and the three required keys, and a file that sets some of them.\<close>

definition demo_vars :: "string \<Rightarrow> string \<Rightarrow> string option" where
  "demo_vars hook k =
     (if k = MongoURIKey then Some '' mongodb://db '' else if k = RepoPathKey then Some ''/r''
      else if k = SlackWebhookKey then Some hook else if k = PortKey then Some ''  '' else None)"

definition demo_file :: "string \<Rightarrow> string option" where
  "demo_file k =
     (if k = MongoURIKey then Some ''mongodb://file'' else if k = MongoDBKey then Some ''ralph''
      else if k = PortKey then Some ''9090'' else None)"

lemma demo_vars_values:
  "lookupEnv (demo_vars hook) MongoURIKey = Some ''mongodb://db''" "lookupEnv (demo_vars hook) MongoDBKey = None"
  "lookupEnv (demo_vars hook) RepoPathKey = Some ''/r''" "lookupEnv (demo_vars hook) PortKey = None"
  "lookupEnv (demo_vars hook) SlackWebhookKey = (if TrimSpace hook = [] then None else Some (TrimSpace hook))"
  "lookupEnv (demo_vars hook) ConfigPathOverride = None" "lookupEnv (demo_vars hook) MaxRetriesKey = None"
proof -
  have t: "TrimSpace '' mongodb://db '' = ''mongodb://db''" "TrimSpace ''/r'' = ''/r''" "TrimSpace ''  '' = []"
    by code_simp+
  show "lookupEnv (demo_vars hook) MongoURIKey = Some ''mongodb://db''" "lookupEnv (demo_vars hook) MongoDBKey = None"
    "lookupEnv (demo_vars hook) RepoPathKey = Some ''/r''" "lookupEnv (demo_vars hook) PortKey = None"
    "lookupEnv (demo_vars hook) SlackWebhookKey = (if TrimSpace hook = [] then None else Some (TrimSpace hook))"
    "lookupEnv (demo_vars hook) ConfigPathOverride = None" "lookupEnv (demo_vars hook) MaxRetriesKey = None"
    by (simp_all add: lookupEnv_def demo_vars_def config_keys ConfigPathOverride_def t Let_def)
qed

lemma demo_file_values:
  "file_values demo_file MongoDBKey = Some ''ralph''" "file_values demo_file PortKey = Some ''9090''"
  "file_values demo_file SlackWebhookKey = None" "file_values demo_file MaxRetriesKey = None"
  by code_simp+

definition demo_load :: "string \<Rightarrow> load_result" where
  "demo_load hook = LoadWithPath (demo_vars hook) (\<lambda>p. Inr p) (\<lambda>d. Inr demo_file) '' ''"

lemma demo_json: "loadJSON (\<lambda>p. Inr p) (\<lambda>d. Inr demo_file) (config_path (demo_vars hook) '' '') = Inr demo_file"
proof -
  have t: "TrimSpace '' '' = []" "TrimSpace ''config.json'' = ''config.json''" by code_simp+
  show ?thesis by (simp add: loadJSON_def config_path_def demo_vars_values defaultConfigPath_def t)
qed

lemma demo_loaded: "\<exists>vs logs. demo_load hook = Loaded vs logs"
proof -
  have "effective (demo_vars hook) demo_file k \<noteq> None" if "k \<in> set requiredKeys" for k
    using that demo_vars_values demo_file_values
    by (auto simp: requiredKeys_def effective_def configured_def envOverrideKeys_def)
  then have "filter (\<lambda>k. effective (demo_vars hook) demo_file k = None) requiredKeys = []" by (simp add: filter_empty_conv)
  with Load_cases [OF demo_json, of hook] show ?thesis by (simp add: demo_load_def Let_def)
qed

theorem config_precedence_witness:
  "\<exists>vs logs. demo_load ''x'' = Loaded vs logs \<and> Get vs MongoURIKey = Inr ''mongodb://db'' \<and>
     Get vs PortKey = Inr ''9090'' \<and> Get vs MaxRetriesKey = Inr ''5'' \<and>
     Get vs ''OTHER'' = Inl (Errorf ''config key OTHER not found'')"
proof -
  obtain vs logs where l: "demo_load ''x'' = Loaded vs logs" using demo_loaded by blast
  have o: "file_values demo_file ''OTHER'' = None" "''OTHER'' \<notin> set envOverrideKeys" "map_of defaults ''OTHER'' = None"
    and m: "map_of defaults MaxRetriesKey = Some ''5''" and e: "MongoURIKey \<in> set envOverrideKeys"
    by (simp_all add: file_values_def demo_file_def envOverrideKeys_def defaults_def config_keys defaultMaxRetriesValue_def)
  from config_precedence [OF l [unfolded demo_load_def]] l demo_json [of "''x''"] demo_vars_values demo_file_values show ?thesis
    by (simp add: o m e)
qed

theorem config_complete_witness:
  "\<exists>vs logs v. demo_load ''x'' = Loaded vs logs \<and> Get vs TaskRunTimeoutKey = Inr v \<and> TrimSpace v \<noteq> []"
proof -
  obtain vs logs where l: "demo_load ''x'' = Loaded vs logs" using demo_loaded by blast
  have "TaskRunTimeoutKey \<in> set requiredKeys \<union> fst ` set defaults" by (simp add: defaults_def)
  with config_complete [where env = "demo_vars ''x''" and read = "\<lambda>p. Inr p" and unmarshal = "\<lambda>d. Inr demo_file" and path = "'' ''"] l
  show ?thesis by (simp add: demo_load_def)
qed

theorem secret_not_logged_witness:
  "\<exists>vs vs' logs. demo_load ''https://hooks/a'' = Loaded vs logs \<and> demo_load ''https://hooks/b'' = Loaded vs' logs"
proof -
  obtain vs logs where l: "demo_load ''https://hooks/a'' = Loaded vs logs" using demo_loaded by blast
  have t: "TrimSpace ''https://hooks/a'' = ''https://hooks/a''" "TrimSpace ''https://hooks/b'' = ''https://hooks/b''"
    by code_simp+
  have "demo_vars ''https://hooks/b'' k = demo_vars ''https://hooks/a'' k" if "k \<noteq> SlackWebhookKey" for k
    using that by (simp add: demo_vars_def)
  with secret_not_logged [OF l [unfolded demo_load_def] demo_json demo_json, of "''https://hooks/b''"]
  have "\<exists>vs'. demo_load ''https://hooks/b'' = Loaded vs' logs" by (auto simp: demo_load_def demo_vars_values t)
  with l show ?thesis by blast
qed

end
