(* ===== verification/Task_Runner.thy ===== *)
theory Task_Runner
  imports Store_Interface Config
begin

text \<open>
  Running one task as a Copilot session: internal/consumer/task_helpers.go, execution_task.go,
  verification_task.go and response.go.  The store, the session client, the notifier, the tracker,
  the bus and the clock are the interfaces the code takes, fields of \<open>task_env\<close>, acting on a world
  \<open>'w\<close>.  A session may send events for ever and its context may never end, so the event loop is a
  partial function: \<^const>\<open>None\<close> is a run that does not return.  Logging is left out.
\<close>

section \<open>The interfaces\<close>

record comment =
  cm_ID :: string
  cm_Author :: string
  cm_Text :: string
  cm_CreatedAt :: go_time
  cm_UpdatedAt :: go_time

record 'w tracker =
  AddComment :: "ctx \<Rightarrow> string \<Rightarrow> string \<Rightarrow> string \<Rightarrow> ('w, go_error option) act"
  FetchComments :: "ctx \<Rightarrow> string \<Rightarrow> string \<Rightarrow> ('w, comment list) reader"
  GetTitle :: "ctx \<Rightarrow> string \<Rightarrow> string \<Rightarrow> ('w, string) reader"

record notify_event =
  ne_Type :: string
  ne_BatchID :: string
  ne_RunID :: string
  ne_TaskRef :: string
  ne_TaskName :: string
  ne_ParentTaskRef :: string
  ne_Status :: string
  ne_Details :: string
  ne_Attempt :: int
  ne_MaxAttempts :: int
  ne_CommitHash :: string

text \<open>\<open>NotifyTaskFinished\<close> takes batch, run, task, title, status and commit; \<open>NotifyError\<close> batch, run and task.\<close>

record 'w notifier =
  NotifyEvent :: "ctx \<Rightarrow> notify_event \<Rightarrow> ('w, go_error option) act"
  NotifyTaskFinished ::
    "ctx \<Rightarrow> string \<Rightarrow> string \<Rightarrow> string \<Rightarrow> string \<Rightarrow> string \<Rightarrow> string \<Rightarrow> ('w, go_error option) act"
  NotifyBatchIdle :: "ctx \<Rightarrow> string \<Rightarrow> ('w, go_error option) act"
  NotifyError :: "ctx \<Rightarrow> string \<Rightarrow> string \<Rightarrow> string \<Rightarrow> go_error \<Rightarrow> ('w, go_error option) act"

definition noop_notifier :: "'w notifier" where
  "noop_notifier =
     \<lparr>NotifyEvent = (\<lambda>c e w. (None, w)),
      NotifyTaskFinished = (\<lambda>c b r t n s h w. (None, w)),
      NotifyBatchIdle = (\<lambda>c b w. (None, w)),
      NotifyError = (\<lambda>c b r t e w. (None, w))\<rparr>"

text \<open>
  What the \<^verbatim>\<open>select\<close> of the event loop takes: the end of the context with \<^verbatim>\<open>ctx.Err()\<close>, the closed
  channel, or an event.  A session is its identifier and a handle for its channel and stop function.
\<close>

datatype select_result = SelDone go_error | SelClosed | SelEvent raw_event

record 'w copilot_client =
  StartSession :: "ctx \<Rightarrow> string \<Rightarrow> string \<Rightarrow> ('w, string \<times> nat) reader"
  SelectEvent :: "ctx \<Rightarrow> nat \<Rightarrow> ('w, select_result) act"
  StopSession :: "nat \<Rightarrow> 'w \<Rightarrow> 'w"

record 'w task_env =
  te_store :: "'w storage"
  te_tracker :: "'w tracker option"
  te_notifier :: "'w notifier"
  te_bus :: "(ctx \<Rightarrow> string \<Rightarrow> session_event \<Rightarrow> ('w, go_error option) act) option"
  te_now :: "('w, go_time) act"
  te_metric :: "string \<Rightarrow> 'w \<Rightarrow> 'w"

text \<open>The structured answer of the verification prompt.\<close>

record agent_response =
  ar_Status :: string
  ar_Reason :: string
  ar_Details :: string

definition no_response :: agent_response where
  "no_response = \<lparr>ar_Status = [], ar_Reason = [], ar_Details = []\<rparr>"

section \<open>Timeout metadata of a context\<close>

definition withTimeoutMetadata :: "ctx \<Rightarrow> string \<Rightarrow> int \<Rightarrow> ctx" where
  "withTimeoutMetadata c phase t = CtxTimeout t (if phase \<noteq> [] then CtxPhase phase c else c)"

text \<open>\<^verbatim>\<open>ctx.Value\<close> for the two keys: the innermost value.\<close>

fun ctx_phase :: "ctx \<Rightarrow> string option" where
  "ctx_phase (CtxBase n) = None"
| "ctx_phase (CtxWithoutCancel c) = ctx_phase c"
| "ctx_phase (CtxWithCancel c) = ctx_phase c"
| "ctx_phase (CtxWithTimeout d c) = ctx_phase c"
| "ctx_phase (CtxPhase p c) = Some p"
| "ctx_phase (CtxTimeout t c) = ctx_phase c"

fun ctx_timeout :: "ctx \<Rightarrow> int option" where
  "ctx_timeout (CtxBase n) = None"
| "ctx_timeout (CtxWithoutCancel c) = ctx_timeout c"
| "ctx_timeout (CtxWithCancel c) = ctx_timeout c"
| "ctx_timeout (CtxWithTimeout d c) = ctx_timeout c"
| "ctx_timeout (CtxPhase p c) = ctx_timeout c"
| "ctx_timeout (CtxTimeout t c) = Some t"

definition timeoutPhase :: "ctx \<Rightarrow> string" where
  "timeoutPhase c = (case ctx_phase c of Some v \<Rightarrow> (if v \<noteq> [] then v else ''execute'') | None \<Rightarrow> ''execute'')"

definition timeoutValue :: "ctx \<Rightarrow> int" where
  "timeoutValue c = (case ctx_timeout c of Some t \<Rightarrow> t | None \<Rightarrow> 0)"

definition logTimeoutEvent :: "'w task_env \<Rightarrow> ctx \<Rightarrow> 'w \<Rightarrow> 'w" where
  "logTimeoutEvent env c w = te_metric env (timeoutPhase c) w"

section \<open>Batch status and session events\<close>

definition setBatchStatus :: "'w storage \<Rightarrow> ctx \<Rightarrow> batch \<Rightarrow> batch_status \<Rightarrow> ('w, batch) act" where
  "setBatchStatus st c b s w =
     (if batch_Status b = s then (b, w)
      else (case UpdateBatch st c (b\<lparr>batch_Status := s\<rparr>) w of ((e, b'), w') \<Rightarrow> (b', w')))"

definition isSessionIdleEvent :: "raw_event \<Rightarrow> bool" where
  "isSessionIdleEvent evt =
     (case map_of evt ''type'' of
        None \<Rightarrow> False
      | Some v \<Rightarrow> (case v of JString t \<Rightarrow> EqualFold t ''session.idle'' | _ \<Rightarrow> False))"

text \<open>One turn of the loop of \<^verbatim>\<open>assistantMessageContents\<close>.\<close>

definition message_content :: "session_event \<Rightarrow> string option" where
  "message_content e =
     (case map_of (ev_Event e) ''type'' of
        Some (JString t) \<Rightarrow>
          (if t \<noteq> ''assistant.message'' then None
           else case map_of (ev_Event e) ''data'' of
               Some (JObject data) \<Rightarrow>
                 (case map_of data ''content'' of Some (JString s) \<Rightarrow> Some s | _ \<Rightarrow> None)
             | _ \<Rightarrow> None)
      | _ \<Rightarrow> None)"

definition assistantMessageContents :: "session_event list \<Rightarrow> string list" where
  "assistantMessageContents evs = List.map_filter message_content evs"

definition latestAssistantMessageContent :: "session_event list \<Rightarrow> string" where
  "latestAssistantMessageContent evs =
     (let msgs = assistantMessageContents evs in if msgs = [] then [] else last msgs)"

section \<open>One run\<close>

definition session_event_of :: "batch \<Rightarrow> string \<Rightarrow> string \<Rightarrow> raw_event \<Rightarrow> go_time \<Rightarrow> session_event" where
  "session_event_of b rid sid evt t =
     \<lparr>ev_BatchID = batch_ID b, ev_RunID = rid, ev_SessionID = sid, ev_Event = evt, ev_IngestedAt = t\<rparr>"

definition publish_event ::
    "'w task_env \<Rightarrow> ctx \<Rightarrow> batch \<Rightarrow> string \<Rightarrow> string \<Rightarrow> string \<Rightarrow> session_event \<Rightarrow> 'w \<Rightarrow> 'w" where
  "publish_event env c b rid ref sid e w =
     (case te_bus env of
        None \<Rightarrow> w
      | Some publish \<Rightarrow>
          (case publish c sid e w of
             (None, w1) \<Rightarrow> w1
           | (Some err, w1) \<Rightarrow>
               snd (NotifyError (te_notifier env) c (batch_ID b) rid ref (Wrapf ''publish session event'' err) w1)))"

partial_function (option) event_loop ::
    "'w task_env \<Rightarrow> 'w copilot_client \<Rightarrow> ctx \<Rightarrow> batch \<Rightarrow> string \<Rightarrow> string \<Rightarrow> string \<Rightarrow> nat \<Rightarrow> 'w \<Rightarrow>
       ((task_run_status \<times> go_error option) \<times> 'w) option" where
  "event_loop env cp c b rid ref sid h w =
     (case SelectEvent cp c h w of (sel, w1) \<Rightarrow>
        (case sel of
           SelDone e \<Rightarrow>
             Some ((if err_is e CtxDeadlineExceeded then TaskRunStatusTimedOut else TaskRunStatusStopped, Some e), w1)
         | SelClosed \<Rightarrow> Some ((TaskRunStatusSucceeded, None), w1)
         | SelEvent evt \<Rightarrow>
             (case te_now env w1 of (t, w2) \<Rightarrow>
                (case InsertSessionEvent (te_store env) c (session_event_of b rid sid evt t) w2 of (ins, w3) \<Rightarrow>
                   (case ins of
                      Some e \<Rightarrow> Some ((TaskRunStatusFailed, Some e), w3)
                    | None \<Rightarrow>
                        (if isSessionIdleEvent evt
                         then Some ((TaskRunStatusSucceeded, None),
                                publish_event env c b rid ref sid (session_event_of b rid sid evt t) w3)
                         else event_loop env cp c b rid ref sid h
                                (publish_event env c b rid ref sid (session_event_of b rid sid evt t) w3)))))))"

text \<open>The run document at the start, and what follows the event loop.\<close>

definition run_of :: "batch \<Rightarrow> string \<Rightarrow> string \<Rightarrow> string \<Rightarrow> go_time \<Rightarrow> go_time option \<Rightarrow> task_run_status \<Rightarrow> task_run" where
  "run_of b rid ref sid started finished status =
     \<lparr>run_ID = rid, run_BatchID = batch_ID b, run_RepositoryID = batch_RepositoryID b, run_TaskRef = ref,
      run_SessionID = sid, run_StartedAt = started, run_FinishedAt = finished, run_Status = status, run_Result = None\<rparr>"

definition finish_run ::
    "'w task_env \<Rightarrow> ctx \<Rightarrow> batch \<Rightarrow> task_run \<Rightarrow> string \<Rightarrow> task_run_status \<Rightarrow> go_error option \<Rightarrow> 'w \<Rightarrow>
       (task_run_status \<times> go_error option) \<times> batch \<times> 'w" where
  "finish_run env c b run taskName status ferr w =
     (let st = te_store env; nt = te_notifier env; pc = CtxWithoutCancel c;
          (finished, w1) = te_now env w;
          run1 = run\<lparr>run_Status := status, run_FinishedAt := Some finished\<rparr>;
          w2 = (if status = TaskRunStatusTimedOut then logTimeoutEvent env c w1 else w1);
          ((e, run2), w3) = UpdateTaskRun st pc run1 w2
      in if status = TaskRunStatusSucceeded then
           ((status, ferr), b,
            snd (NotifyTaskFinished nt pc (batch_ID b) (run_ID run2) (run_TaskRef run2) taskName
              (task_run_status_str (run_Status run2)) [] w3))
         else if status = TaskRunStatusStopped then
           (let w4 = snd (NotifyBatchIdle nt pc (batch_ID b) w3);
                (b1, w5) = setBatchStatus st pc b BatchStatusPending w4
            in ((status, ferr), b1, w5))
         else
           (let err = (case ferr of None \<Rightarrow> Errorf ''task run failed'' | Some e' \<Rightarrow> e');
                w4 = snd (NotifyError nt pc (batch_ID b) (run_ID run2) (run_TaskRef run2) err w3);
                (b1, w5) = setBatchStatus st pc b BatchStatusFailed w4
            in ((status, Some err), b1, w5)))"

definition fetch_title :: "'w task_env \<Rightarrow> ctx \<Rightarrow> string \<Rightarrow> string \<Rightarrow> ('w, string) act" where
  "fetch_title env c repoPath ref w =
     (case te_tracker env of
        None \<Rightarrow> ([], w)
      | Some tr \<Rightarrow>
          (case GetTitle tr c repoPath ref w of
             (Inl e, w1) \<Rightarrow> ([], w1)
           | (Inr name, w1) \<Rightarrow> (TrimSpace name, w1)))"

text \<open>The branch of a session that does not start.\<close>

definition start_failed ::
    "'w task_env \<Rightarrow> ctx \<Rightarrow> batch \<Rightarrow> string \<Rightarrow> string \<Rightarrow> go_error \<Rightarrow> 'w \<Rightarrow>
       (task_run_status \<times> go_error option) \<times> batch \<times> 'w" where
  "start_failed env c b rid ref err w =
     (let st = te_store env;
          (finished, w1) = te_now env w;
          (started, w2) = te_now env w1;
          (created, w3) = CreateTaskRun st c (run_of b rid ref [] started (Some finished) TaskRunStatusFailed) w2;
          (b1, w4) = setBatchStatus st c b BatchStatusFailed w3;
          w5 = snd (NotifyError (te_notifier env) c (batch_ID b1) rid ref err w4)
      in ((TaskRunStatusFailed, Some (Wrapf ''start copilot session'' err)), b1, w5))"

definition executeTask ::
    "'w task_env \<Rightarrow> 'w copilot_client \<Rightarrow> ctx \<Rightarrow> string \<Rightarrow> ('w, string) act \<Rightarrow> batch \<Rightarrow> string \<Rightarrow> string \<Rightarrow> 'w \<Rightarrow>
       ((task_run_status \<times> go_error option) \<times> batch \<times> 'w) option" where
  "executeTask env cp c repoPath newRunID b ref prompt w =
     (let st = te_store env;
          (rid, w1) = newRunID w;
          (taskName, w2) = fetch_title env c repoPath ref w1
      in case StartSession cp c prompt repoPath w2 of
           (Inl err, w3) \<Rightarrow> Some (start_failed env c b rid ref err w3)
         | (Inr (sid, h), w3) \<Rightarrow>
             (let (started, w4) = te_now env w3;
                  ((created, run), w5) = CreateTaskRun st c (run_of b rid ref sid started None TaskRunStatusRunning) w4
              in case created of
                   Some err \<Rightarrow>
                     (let (b1, w6) = setBatchStatus st c b BatchStatusFailed w5;
                          w7 = snd (NotifyError (te_notifier env) c (batch_ID b1) rid ref err w6)
                      in Some ((TaskRunStatusFailed, Some (Wrapf ''create task run'' err)), b1, StopSession cp h w7))
                 | None \<Rightarrow>
                     (case event_loop env cp c b (run_ID run) ref sid h w5 of
                        None \<Rightarrow> None
                      | Some ((status, ferr), w6) \<Rightarrow>
                          (case finish_run env c b run taskName status ferr w6 of
                             (r, b1, w7) \<Rightarrow> Some (r, b1, StopSession cp h w7)))))"

section \<open>The output of a run\<close>

text \<open>What both wrappers do after the run: read the run and its session's events back.\<close>

definition read_output ::
    "'w task_env \<Rightarrow> ctx \<Rightarrow> string \<Rightarrow> (session_event list \<Rightarrow> string) \<Rightarrow> ('w, string) act" where
  "read_output env c rid extract w =
     (if rid = [] then ([], w)
      else case GetTaskRun (te_store env) c rid w of
          (Inl e, w1) \<Rightarrow> ([], w1)
        | (Inr run, w1) \<Rightarrow>
            (if run_SessionID run = [] then ([], w1)
             else case ListSessionEvents (te_store env) c (run_SessionID run) w1 of
                 (Inl e, w2) \<Rightarrow> ([], w2)
               | (Inr evs, w2) \<Rightarrow> (extract evs, w2)))"

type_synonym 'w task_result = "((task_run_status \<times> string \<times> go_error option) \<times> batch \<times> 'w) option"

definition execute_with_output ::
    "(session_event list \<Rightarrow> string) \<Rightarrow> 'w task_env \<Rightarrow> 'w copilot_client \<Rightarrow> ctx \<Rightarrow> string \<Rightarrow> ('w, string) act \<Rightarrow>
       batch \<Rightarrow> string \<Rightarrow> string \<Rightarrow> 'w \<Rightarrow> 'w task_result" where
  "execute_with_output extract env cp c repoPath newRunID b ref prompt w =
     (let (rid, w1) = newRunID w
      in case executeTask env cp c repoPath (\<lambda>w'. (rid, w')) b ref prompt w1 of
           None \<Rightarrow> None
         | Some ((status, err), b1, w2) \<Rightarrow>
             (let (out, w3) = read_output env c rid extract w2 in Some ((status, out, err), b1, w3)))"

definition executeTaskWithStructuredOutput ::
    "'w task_env \<Rightarrow> 'w copilot_client \<Rightarrow> ctx \<Rightarrow> string \<Rightarrow> ('w, string) act \<Rightarrow> batch \<Rightarrow> string \<Rightarrow> string \<Rightarrow> 'w \<Rightarrow>
       'w task_result" where
  "executeTaskWithStructuredOutput = execute_with_output latestAssistantMessageContent"

definition executeTaskWithAssistantMessages ::
    "'w task_env \<Rightarrow> 'w copilot_client \<Rightarrow> ctx \<Rightarrow> string \<Rightarrow> ('w, string) act \<Rightarrow> batch \<Rightarrow> string \<Rightarrow> string \<Rightarrow> 'w \<Rightarrow>
       'w task_result" where
  "executeTaskWithAssistantMessages =
     execute_with_output (\<lambda>evs. Join (assistantMessageContents evs) [CHR 0x0A])"

section \<open>The two tasks\<close>

definition buildPrompt :: "string \<Rightarrow> string \<Rightarrow> string" where
  "buildPrompt basePrompt fallback =
     (let bp = TrimSpace basePrompt; fb = TrimSpace fallback
      in if bp \<noteq> [] \<and> fb \<noteq> [] then bp @ [CHR 0x0A, CHR 0x0A] @ fb
         else if bp \<noteq> [] then bp
         else fb)"

text \<open>
  The fields of \<^verbatim>\<open>ExecutionTask\<close> that are not in the environment.  \<open>Sprintf f a\<close> is
  \<^verbatim>\<open>fmt.Sprintf(f, a)\<close> for a format that comes from the configuration.
\<close>

record 'w execution_task =
  et_cfg :: "config option"
  et_repoPath :: string
  et_instruction :: string
  et_newRunID :: "('w, string) act"

definition NewExecutionTask :: "config option \<Rightarrow> string \<Rightarrow> string \<Rightarrow> ('w, string) act \<Rightarrow> 'w execution_task" where
  "NewExecutionTask cfg repoPath instruction newRunID =
     \<lparr>et_cfg = cfg, et_repoPath = TrimSpace repoPath, et_instruction = TrimSpace instruction,
      et_newRunID = newRunID\<rparr>"

definition comment_line :: "comment \<Rightarrow> string" where
  "comment_line cm =
     ''- '' @ (if cm_Author cm \<noteq> [] then cm_Author cm @ '': '' else []) @ cm_Text cm @ [CHR 0x0A]"

definition with_comments :: "string \<Rightarrow> comment list \<Rightarrow> string" where
  "with_comments prompt cms =
     (if cms = [] then prompt
      else TrimSpace (prompt @ [CHR 0x0A, CHR 0x0A] @ ''Tracker comments:'' @ [CHR 0x0A] @
             concat (map comment_line cms)))"

definition ExecutionTask_Execute ::
    "(string \<Rightarrow> string \<Rightarrow> string) \<Rightarrow> 'w task_env \<Rightarrow> 'w tracker \<Rightarrow> 'w copilot_client \<Rightarrow> 'w execution_task \<Rightarrow>
       ctx \<Rightarrow> batch \<Rightarrow> string \<Rightarrow> 'w \<Rightarrow> 'w task_result" where
  "ExecutionTask_Execute Sprintf env tr cp t c b taskID w =
     (case et_cfg t of
        None \<Rightarrow> Some ((TaskRunStatusFailed, [], Some (Errorf ''config is nil'')), b, w)
      | Some cfg \<Rightarrow>
          (case cfg ExecutionTaskPromptKey of
             Inl err \<Rightarrow> Some ((TaskRunStatusFailed, [], Some (Wrapf ''get execution task prompt'' err)), b, w)
           | Inr base \<Rightarrow>
               (let base' = (if Contains base ''%s'' then Sprintf base taskID else base)
                in case FetchComments tr c (et_repoPath t) taskID w of
                     (Inl err, w1) \<Rightarrow>
                       Some ((TaskRunStatusFailed, [], Some (Wrapf ''fetch tracker comments'' err)), b, w1)
                   | (Inr cms, w1) \<Rightarrow>
                       executeTaskWithAssistantMessages env cp c (et_repoPath t) (et_newRunID t) b taskID
                         (with_comments (buildPrompt base' (et_instruction t)) cms) w1)))"

text \<open>A \<^verbatim>\<open>VerificationTask\<close> shares the execution task's dependencies.\<close>

definition VerificationTask_Execute ::
    "(string \<Rightarrow> string \<Rightarrow> string) \<Rightarrow> 'w task_env \<Rightarrow> 'w copilot_client \<Rightarrow> config option \<Rightarrow> 'w execution_task option \<Rightarrow>
       string \<Rightarrow> ctx \<Rightarrow> batch \<Rightarrow> string \<Rightarrow> 'w \<Rightarrow> 'w task_result" where
  "VerificationTask_Execute Sprintf env cp cfg et instruction c b taskID w =
     (case et of
        None \<Rightarrow> Some ((TaskRunStatusFailed, [], Some (Errorf ''execution task reference is nil'')), b, w)
      | Some t \<Rightarrow>
          (case cfg of
             None \<Rightarrow> Some ((TaskRunStatusFailed, [], Some (Errorf ''config is nil'')), b, w)
           | Some get \<Rightarrow>
               (case get VerificationTaskPromptKey of
                  Inl err \<Rightarrow> Some ((TaskRunStatusFailed, [], Some (Wrapf ''get verification task prompt'' err)), b, w)
                | Inr base \<Rightarrow>
                    (let prompt = buildPrompt base (TrimSpace instruction);
                         prompt' = (if Contains prompt ''%s'' then Sprintf prompt taskID else prompt)
                     in executeTaskWithStructuredOutput env cp c (TrimSpace (et_repoPath t)) (et_newRunID t) b taskID
                          prompt' w))))"

end
