(* ===== verification/Worker.thy ===== *)
theory Worker
  imports Task_Runner Mongo_Refinement
begin

text \<open>
  The worker of internal/consumer/worker.go: what \<^verbatim>\<open>Process\<close> does with a work item, from the lookup of
  the batch to the loop that executes and verifies the task until the verification agrees or the
  attempts are used up.  The worker's own state is its title cache and its two session clients,
  kept beside the world.  The tracker, the notifier and the configuration are never nil in a worker
  that \<^verbatim>\<open>NewWorker\<close> built for the service, so the guards for a nil one have no counterpart.
\<close>

section \<open>The worker\<close>

text \<open>
  The functions of the standard library whose results the worker only passes on: \<^verbatim>\<open>fmt.Sprintf\<close> with a
  configured format and one string, the verb \<^verbatim>\<open>%q\<close>, \<^verbatim>\<open>time.ParseDuration\<close> in nanoseconds, and the
  response that \<^verbatim>\<open>json.Unmarshal\<close> leaves behind, whether it reports an error or not.
\<close>

record go_lib =
  lib_Sprintf :: "string \<Rightarrow> string \<Rightarrow> string"
  lib_Quote :: "string \<Rightarrow> string"
  lib_ParseDuration :: "string \<Rightarrow> int option"
  lib_UnmarshalResponse :: "string \<Rightarrow> agent_response"

record 'w worker =
  wk_lib :: go_lib
  wk_cfg :: config
  wk_tracker :: "'w tracker"
  wk_store :: "'w storage"
  wk_notifier :: "'w notifier"
  wk_bus :: "(ctx \<Rightarrow> string \<Rightarrow> session_event \<Rightarrow> ('w, go_error option) act) option"
  wk_now :: "('w, go_time) act"
  wk_newRunID :: "('w, string) act"
  wk_metric :: "string \<Rightarrow> 'w \<Rightarrow> 'w"
  wk_newCodex :: "'w copilot_client"
  wk_newGitHub :: "'w copilot_client"

record 'w wstate =
  ws_titleMap :: "string \<Rightarrow> string option"
  ws_codexClient :: "'w copilot_client option"
  ws_githubClient :: "'w copilot_client option"
  ws_world :: 'w

text \<open>The state of a new worker, given the client it was handed, and its default run identifiers.\<close>

definition NewWorker :: "'w worker \<Rightarrow> 'w copilot_client option \<Rightarrow> 'w \<Rightarrow> 'w wstate" where
  "NewWorker wk cp w =
     \<lparr>ws_titleMap = (\<lambda>_. None), ws_codexClient = Some (case cp of Some c \<Rightarrow> c | None \<Rightarrow> wk_newCodex wk),
      ws_githubClient = None, ws_world = w\<rparr>"

definition default_newRunID :: "('w, go_time) act \<Rightarrow> ('w, string) act" where
  "default_newRunID now w = (case now w of (t, w') \<Rightarrow> (''run-'' @ FormatInt (unix_nano t), w'))"

definition env_of :: "'w worker \<Rightarrow> 'w task_env" where
  "env_of wk =
     \<lparr>te_store = wk_store wk, te_tracker = Some (wk_tracker wk), te_notifier = wk_notifier wk,
      te_bus = wk_bus wk, te_now = wk_now wk, te_metric = wk_metric wk\<rparr>"

definition on_world :: "('w, 'a) act \<Rightarrow> 'w wstate \<Rightarrow> 'a \<times> 'w wstate" where
  "on_world f s = (case f (ws_world s) of (a, w) \<Rightarrow> (a, s\<lparr>ws_world := w\<rparr>))"

section \<open>Text\<close>

definition newline :: string where
  "newline = [CHR 0x0A]"

definition formatAgentResponseText :: "agent_response \<Rightarrow> string \<Rightarrow> string" where
  "formatAgentResponseText resp rawOutput =
     (let reason = TrimSpace (ar_Reason resp);
          details = TrimSpace (ar_Details resp);
          ls = (if reason \<noteq> [] then [''Reason: '' @ reason] else []) @
               (if details \<noteq> [] then [''Details: '' @ details] else []);
          raw = TrimSpace rawOutput
      in if ls \<noteq> [] then Join ls newline
         else if raw \<noteq> [] then ''Response: '' @ raw
         else ''Agent response unavailable.'')"

definition appendDetailLine :: "string \<Rightarrow> string \<Rightarrow> string" where
  "appendDetailLine base line =
     (let l = TrimSpace line
      in if l = [] then base else if TrimSpace base = [] then l else base @ newline @ l)"

section \<open>Configuration\<close>

definition parseMaxRetries :: "config \<Rightarrow> int \<times> bool" where
  "parseMaxRetries cfg =
     (case cfg MaxRetriesKey of
        Inl e \<Rightarrow> (0, False)
      | Inr v \<Rightarrow> (case Atoi v of None \<Rightarrow> (3, True) | Some n \<Rightarrow> (n, True)))"

definition withRunTimeout :: "(string \<Rightarrow> int option) \<Rightarrow> ctx \<Rightarrow> config option \<Rightarrow> ctx" where
  "withRunTimeout ParseDuration c cfg =
     (case cfg of
        None \<Rightarrow> withTimeoutMetadata c ''run'' 0
      | Some get \<Rightarrow>
          (case get TaskRunTimeoutKey of
             Inl e \<Rightarrow> withTimeoutMetadata c ''run'' 0
           | Inr v \<Rightarrow>
               (case ParseDuration (TrimSpace v) of
                  None \<Rightarrow> withTimeoutMetadata c ''run'' 0
                | Some d \<Rightarrow> withTimeoutMetadata (if 0 < d then CtxWithTimeout d c else c) ''run'' d)))"

text \<open>The context of one phase; the code spells it out for the execution and for the verification.\<close>

definition phase_context :: "(string \<Rightarrow> int option) \<Rightarrow> config \<Rightarrow> string \<Rightarrow> string \<Rightarrow> ctx \<Rightarrow> ctx" where
  "phase_context ParseDuration cfg key phase c =
     (let (pc, t) =
        (case cfg key of
           Inl e \<Rightarrow> (c, 0)
         | Inr v \<Rightarrow>
             (case ParseDuration (TrimSpace v) of
                None \<Rightarrow> (c, 0)
              | Some d \<Rightarrow> (if 0 < d then CtxWithTimeout d c else c, d)));
          parent = timeoutValue pc;
          t' = (if 0 < parent \<and> (t \<le> 0 \<or> parent < t) then parent else t)
      in withTimeoutMetadata pc phase t')"

section \<open>Notifications and titles\<close>

definition notifyTaskEvent :: "'w worker \<Rightarrow> ctx \<Rightarrow> notify_event \<Rightarrow> 'w wstate \<Rightarrow> 'w wstate" where
  "notifyTaskEvent wk c ev s =
     snd (on_world (NotifyEvent (wk_notifier wk) c
       (if ne_Type ev = [] then ev\<lparr>ne_Type := ''task_event''\<rparr> else ev)) s)"

definition task_event :: "string \<Rightarrow> string \<Rightarrow> string \<Rightarrow> string \<Rightarrow> string \<Rightarrow> int \<Rightarrow> int \<Rightarrow> string \<Rightarrow> notify_event" where
  "task_event typ bid ref title status attempt maxAttempts details =
     \<lparr>ne_Type = typ, ne_BatchID = bid, ne_RunID = [], ne_TaskRef = ref, ne_TaskName = title,
      ne_ParentTaskRef = [], ne_Status = status, ne_Details = details, ne_Attempt = attempt,
      ne_MaxAttempts = maxAttempts, ne_CommitHash = []\<rparr>"

definition taskTitle :: "'w worker \<Rightarrow> ctx \<Rightarrow> string \<Rightarrow> string \<Rightarrow> 'w wstate \<Rightarrow> string \<times> 'w wstate" where
  "taskTitle wk c repoPath taskRef s =
     (let ref = TrimSpace taskRef
      in if ref = [] then ([], s)
         else case ws_titleMap s ref of
             Some title \<Rightarrow> (title, s)
           | None \<Rightarrow>
               (case on_world (GetTitle (wk_tracker wk) c repoPath ref) s of
                  (Inl e, s1) \<Rightarrow> ([], s1)
                | (Inr t, s1) \<Rightarrow>
                    (let title = TrimSpace t
                     in (title, s1\<lparr>ws_titleMap := (ws_titleMap s1)(ref \<mapsto> title)\<rparr>))))"

text \<open>Every notification of the worker looks the title up first.\<close>

definition announce ::
    "'w worker \<Rightarrow> ctx \<Rightarrow> string \<Rightarrow> string \<Rightarrow> string \<Rightarrow> string \<Rightarrow> string \<Rightarrow> int \<Rightarrow> int \<Rightarrow> string \<Rightarrow> 'w wstate \<Rightarrow> 'w wstate" where
  "announce wk c repoPath bid ref typ status attempt maxAttempts details s =
     (case taskTitle wk c repoPath ref s of
        (title, s1) \<Rightarrow> notifyTaskEvent wk c (task_event typ bid ref title status attempt maxAttempts details) s1)"

definition clientForRuntime ::
    "'w worker \<Rightarrow> string \<Rightarrow> 'w wstate \<Rightarrow> (go_error + 'w copilot_client) \<times> 'w wstate" where
  "clientForRuntime wk runtime s =
     (let rt = ToLower (TrimSpace runtime)
      in if rt = [] \<or> rt = ''codex'' then
           (case ws_codexClient s of
              Some cp \<Rightarrow> (Inr cp, s)
            | None \<Rightarrow> (Inr (wk_newCodex wk), s\<lparr>ws_codexClient := Some (wk_newCodex wk)\<rparr>))
         else if rt = ''copilot'' \<or> rt = ''github'' then
           (case ws_githubClient s of
              Some cp \<Rightarrow> (Inr cp, s)
            | None \<Rightarrow> (Inr (wk_newGitHub wk), s\<lparr>ws_githubClient := Some (wk_newGitHub wk)\<rparr>))
         else (Inl (Errorf (''unknown agent runtime '' @ lib_Quote (wk_lib wk) runtime)), s))"

section \<open>One attempt\<close>

text \<open>Status, response, assistant output, verification output and error.\<close>

type_synonym attempt_outcome = "task_run_status \<times> agent_response \<times> string \<times> string \<times> go_error option"

definition executeAndVerify ::
    "'w worker \<Rightarrow> ctx \<Rightarrow> batch \<Rightarrow> string \<Rightarrow> string \<Rightarrow> string \<Rightarrow> string \<Rightarrow> 'w copilot_client \<Rightarrow> 'w \<Rightarrow>
       (attempt_outcome \<times> batch \<times> 'w) option" where
  "executeAndVerify wk c b repoPath taskRef execInstruction verifyInstruction cp w =
     (let lib = wk_lib wk; env = env_of wk; cfg = wk_cfg wk;
          execCtx = phase_context (lib_ParseDuration lib) cfg TaskExecTimeoutKey ''execute'' c;
          execTask = NewExecutionTask (Some cfg) repoPath execInstruction (wk_newRunID wk)
      in case ExecutionTask_Execute (lib_Sprintf lib) env (wk_tracker wk) cp execTask execCtx b taskRef w of
           None \<Rightarrow> None
         | Some ((status, assistantOutput, finalErr), b1, w1) \<Rightarrow>
             (if status \<noteq> TaskRunStatusSucceeded
              then Some ((status, no_response, assistantOutput, [], finalErr), b1, w1)
              else
                let verifyCtx = phase_context (lib_ParseDuration lib) cfg TaskVerifyTimeoutKey ''verify'' c
                in case VerificationTask_Execute (lib_Sprintf lib) env cp (Some cfg) (Some execTask) verifyInstruction
                          verifyCtx b1 taskRef w1 of
                     None \<Rightarrow> None
                   | Some ((verifyStatus, out, verifyErr), b2, w2) \<Rightarrow>
                       (case verifyErr of
                          Some e \<Rightarrow> Some ((verifyStatus, no_response, assistantOutput, out, Some e), b2, w2)
                        | None \<Rightarrow>
                            Some ((verifyStatus, lib_UnmarshalResponse lib out, assistantOutput, out, None), b2, w2))))"

definition shouldRetry ::
    "'w worker \<Rightarrow> ctx \<Rightarrow> batch \<Rightarrow> string \<Rightarrow> string \<Rightarrow> string \<Rightarrow> agent_response \<Rightarrow> string \<Rightarrow> int \<Rightarrow> int \<Rightarrow> bool \<Rightarrow>
       'w wstate \<Rightarrow> bool \<times> batch \<times> 'w wstate" where
  "shouldRetry wk c b repoPath bid ref resp assistantOutput attempts retries hasRetries s =
     (let (cerr, s1) = on_world (AddComment (wk_tracker wk) c repoPath ref
            (''Verification failed: '' @ ar_Reason resp @ newline @ ''Details: '' @ ar_Details resp @ newline @
             ''Assistant output: '' @ assistantOutput)) s;
          base = formatAgentResponseText resp [];
          s2 = announce wk c repoPath bid ref ''verification_failed'' ''failed'' attempts retries base s1
      in if \<not> hasRetries then (False, b, s2)
         else if retries \<le> attempts then
           (let (b1, s3) = on_world (setBatchStatus (wk_store wk) c b BatchStatusFailed) s2;
                s4 = announce wk c repoPath bid ref ''verification_failed_max_retries'' ''failed'' attempts retries
                       (appendDetailLine base ''Next: no retries remaining'') s3;
                (nerr, s5) = on_world (NotifyError (wk_notifier wk) c bid [] ref
                       (Errorf (''verification failed after '' @ FormatInt attempts @ '' attempts: '' @ ar_Reason resp))) s4
            in (False, b1, s5))
         else
           (True, b,
            announce wk c repoPath bid ref ''verification_failed_retrying'' ''retrying'' attempts retries
              (appendDetailLine base
                (''Next: retrying ('' @ FormatInt (retries - attempts) @ '' attempts remaining)'')) s2))"

datatype attempt_result = AttemptDone "go_error option" | AttemptRetry

text \<open>The body of the loop of \<^verbatim>\<open>handleSingleTask\<close>: \<^const>\<open>AttemptRetry\<close> is its \<^verbatim>\<open>continue\<close>.\<close>

definition single_attempt ::
    "'w worker \<Rightarrow> ctx \<Rightarrow> ctx \<Rightarrow> string \<Rightarrow> work_item \<Rightarrow> 'w copilot_client \<Rightarrow> int \<times> bool \<Rightarrow> int \<Rightarrow> batch \<Rightarrow> 'w wstate \<Rightarrow>
       (attempt_result \<times> batch \<times> 'w wstate) option" where
  "single_attempt wk c runCtx repoPath item cp lim attempts b s =
     (let bid = wi_BatchID item; ref = wi_TaskRef item; retries = fst lim; hasRetries = snd lim;
          s1 = announce wk runCtx repoPath bid ref ''attempt_started'' ''in_progress'' attempts 0 [] s
      in case executeAndVerify wk runCtx b repoPath ref (''Work on task '' @ ref) (''Verify task '' @ ref) cp (ws_world s1) of
           None \<Rightarrow> None
         | Some ((verifyStatus, resp, assistantOutput, out, err), b1, w1) \<Rightarrow>
             (let s2 = s1\<lparr>ws_world := w1\<rparr>
              in if err \<noteq> None then Some (AttemptDone err, b1, s2)
                 else if ar_Status resp = ''failure'' then
                   (case shouldRetry wk runCtx b1 repoPath bid ref resp assistantOutput attempts retries hasRetries s2 of
                      (again, b2, s3) \<Rightarrow>
                        if again then Some (AttemptRetry, b2, s3)
                        else Some (AttemptDone (Some (Errorf (''verification failed: '' @ formatAgentResponseText resp out))), b2, s3))
                 else if verifyStatus = TaskRunStatusSucceeded then
                   (let s3 = announce wk runCtx repoPath bid ref ''verification_succeeded'' ''succeeded'' attempts 0
                               (formatAgentResponseText resp out) s2;
                        (b2, s4) = on_world (setBatchStatus (wk_store wk) c b1 BatchStatusPending) s3
                    in Some (AttemptDone None, b2, s4))
                 else Some (AttemptDone (Some (Errorf (''verification task did not succeed: '' @ out))), b1, s2)))"

lemma shouldRetry_continues:
  "shouldRetry wk c b repo bid ref resp ao n retries has s = (True, b', s') \<Longrightarrow> has \<and> n < retries \<and> b' = b"
  by (auto simp: shouldRetry_def Let_def split: if_splits prod.splits)

lemma single_attempt_retry:
  assumes "single_attempt wk c rc repo item cp lim n b s = Some (AttemptRetry, b', s')"
  shows "snd lim" and "n < fst lim"
  using assms
  by (auto simp: single_attempt_def Let_def split: option.splits prod.splits if_splits dest: shouldRetry_continues)

section \<open>The retry loop\<close>

text \<open>
  \<open>attempts\<close> is the number of attempts made.  A retry needs an attempt below the limit, so the loop
  ends and the counter, which starts at zero, does not wrap.
\<close>

function attempt_loop ::
    "'w worker \<Rightarrow> ctx \<Rightarrow> ctx \<Rightarrow> string \<Rightarrow> work_item \<Rightarrow> 'w copilot_client \<Rightarrow> int \<times> bool \<Rightarrow> int \<Rightarrow> batch \<Rightarrow> 'w wstate \<Rightarrow>
       (go_error option \<times> batch \<times> 'w wstate) option" where
  "attempt_loop wk c rc repo item cp lim attempts b s =
     (case single_attempt wk c rc repo item cp lim (attempts + 1) b s of
        None \<Rightarrow> None
      | Some (AttemptDone r, b1, s1) \<Rightarrow> Some (r, b1, s1)
      | Some (AttemptRetry, b1, s1) \<Rightarrow> attempt_loop wk c rc repo item cp lim (attempts + 1) b1 s1)"
  by pat_completeness auto
termination
  by (relation "measure (\<lambda>(wk, c, rc, repo, item, cp, lim, n, b, s). nat (fst lim - n))")
    (auto dest: single_attempt_retry)

declare attempt_loop.simps [simp del]

definition handleSingleTask ::
    "'w worker \<Rightarrow> ctx \<Rightarrow> batch \<Rightarrow> string \<Rightarrow> work_item \<Rightarrow> 'w copilot_client \<Rightarrow> 'w wstate \<Rightarrow>
       (go_error option \<times> batch \<times> 'w wstate) option" where
  "handleSingleTask wk c b repoPath item cp s =
     attempt_loop wk c (withRunTimeout (lib_ParseDuration (wk_lib wk)) c (Some (wk_cfg wk))) repoPath item cp
       (parseMaxRetries (wk_cfg wk)) 0 b s"

section \<open>Process\<close>

text \<open>The item with its two references trimmed.\<close>

definition trim_item :: "work_item \<Rightarrow> work_item" where
  "trim_item item =
     item\<lparr>wi_BatchID := TrimSpace (wi_BatchID item), wi_TaskRef := TrimSpace (wi_TaskRef item)\<rparr>"

text \<open>From the batch and the repository's path on.\<close>

definition process_task ::
    "'w worker \<Rightarrow> ctx \<Rightarrow> work_item \<Rightarrow> batch \<Rightarrow> string \<Rightarrow> 'w wstate \<Rightarrow> (go_error option \<times> 'w wstate) option" where
  "process_task wk c item b repoPath s =
     (let bid = wi_BatchID item; ref = wi_TaskRef item;
          (taskName, s1) = taskTitle wk c repoPath ref s;
          s2 = notifyTaskEvent wk c (task_event ''task_received'' bid ref taskName ''pending'' 0 0 []) s1;
          (b1, s3) = on_world (setBatchStatus (wk_store wk) c b BatchStatusInProgress) s2;
          s4 = notifyTaskEvent wk c (task_event ''task_started'' bid ref taskName ''running'' 0 0 []) s3
      in case clientForRuntime wk (wi_Runtime item) s4 of
           (Inl err, s5) \<Rightarrow> Some (Some err, s5)
         | (Inr cp, s5) \<Rightarrow>
             (case handleSingleTask wk c b1 repoPath item cp s5 of
                None \<Rightarrow> None
              | Some (r, b2, s6) \<Rightarrow> Some (r, s6)))"

definition worker_Process ::
    "'w worker \<Rightarrow> ctx \<Rightarrow> work_item \<Rightarrow> 'w wstate \<Rightarrow> (go_error option \<times> 'w wstate) option" where
  "worker_Process wk c work s =
     (let item = trim_item work; st = wk_store wk;
          report = (\<lambda>err s'. snd (on_world (NotifyError (wk_notifier wk) c (wi_BatchID item) [] (wi_TaskRef item) err) s'))
      in if wi_BatchID item = [] \<or> wi_TaskRef item = []
         then Some (Some (Errorf ''work item missing batch_id or task_ref''), s)
         else case on_world (GetBatch st c (wi_BatchID item)) s of
             (Inl err, s1) \<Rightarrow> Some (Some (Wrapf (''get batch '' @ wi_BatchID item) err), report err s1)
           | (Inr b, s1) \<Rightarrow>
               (case on_world (GetRepository st c (batch_RepositoryID b)) s1 of
                  (Inl err, s2) \<Rightarrow> Some (Some (Wrapf (''get repository '' @ batch_RepositoryID b) err), report err s2)
                | (Inr repo, s2) \<Rightarrow>
                    (if TrimSpace (repo_Path repo) = []
                     then Some (Some (Errorf (''repository path is empty for '' @ batch_RepositoryID b)), s2)
                     else process_task wk c item b (TrimSpace (repo_Path repo)) s2)))"

end
