(* ===== verification/Session_Run.thy ===== *)
theory Session_Run
  imports Task_Runner Mongo_Refinement
begin

text \<open>
  What one Copilot session leaves behind: the event loop returns when the session ends, every event
  it took is stored in order, and the run, the returned status and the batch agree.
\<close>

section \<open>The event loop by cases\<close>

inductive session_end :: "'w task_env \<Rightarrow> 'w copilot_client \<Rightarrow> ctx \<Rightarrow> batch \<Rightarrow> string \<Rightarrow> string \<Rightarrow> string \<Rightarrow> nat \<Rightarrow> 'w \<Rightarrow>
    raw_event list \<Rightarrow> task_run_status \<times> go_error option \<Rightarrow> 'w \<Rightarrow> bool"
  for env :: "'w task_env" and cp :: "'w copilot_client" and c :: ctx and b :: batch
    and rid ref sid :: string and h :: nat where
  end_done: "SelectEvent cp c h w = (SelDone e, w') \<Longrightarrow>
     session_end env cp c b rid ref sid h w []
       (if err_is e CtxDeadlineExceeded then TaskRunStatusTimedOut else TaskRunStatusStopped, Some e) w'"
| end_closed: "SelectEvent cp c h w = (SelClosed, w') \<Longrightarrow>
     session_end env cp c b rid ref sid h w [] (TaskRunStatusSucceeded, None) w'"
| end_insert: "SelectEvent cp c h w = (SelEvent evt, w1) \<Longrightarrow> te_now env w1 = (t, w2) \<Longrightarrow>
     InsertSessionEvent (te_store env) c (session_event_of b rid sid evt t) w2 = (Some e, w3) \<Longrightarrow>
     session_end env cp c b rid ref sid h w [evt] (TaskRunStatusFailed, Some e) w3"
| end_idle: "SelectEvent cp c h w = (SelEvent evt, w1) \<Longrightarrow> te_now env w1 = (t, w2) \<Longrightarrow>
     InsertSessionEvent (te_store env) c (session_event_of b rid sid evt t) w2 = (None, w3) \<Longrightarrow>
     isSessionIdleEvent evt \<Longrightarrow>
     session_end env cp c b rid ref sid h w [evt] (TaskRunStatusSucceeded, None)
       (publish_event env c b rid ref sid (session_event_of b rid sid evt t) w3)"
| end_more: "SelectEvent cp c h w = (SelEvent evt, w1) \<Longrightarrow> te_now env w1 = (t, w2) \<Longrightarrow>
     InsertSessionEvent (te_store env) c (session_event_of b rid sid evt t) w2 = (None, w3) \<Longrightarrow>
     \<not> isSessionIdleEvent evt \<Longrightarrow>
     session_end env cp c b rid ref sid h
       (publish_event env c b rid ref sid (session_event_of b rid sid evt t) w3) evs r w' \<Longrightarrow>
     session_end env cp c b rid ref sid h w (evt # evs) r w'"

text \<open>The loop returns exactly the results of finished sessions.\<close>

lemma event_loop_ends:
  assumes "event_loop env cp c b rid ref sid h w = Some (r, w')"
  shows "\<exists>evs. session_end env cp c b rid ref sid h w evs r w'"
proof -
  have "event_loop env cp c b rid ref sid h w = Some y \<Longrightarrow>
      \<exists>evs. session_end env cp c b rid ref sid h w evs (fst y) (snd y)" for y
  proof (erule event_loop.raw_induct [rotated, where P = "\<lambda>env cp c b rid ref sid h w y.
        \<exists>evs. session_end env cp c b rid ref sid h w evs (fst y) (snd y)"])
    fix loop env cp c b rid ref sid h w y
    assume 1: "\<And>env cp c b rid ref sid h w y. loop env cp c b rid ref sid h w = Some y \<Longrightarrow>
        \<exists>evs. session_end env cp c b rid ref sid h w evs (fst y) (snd y)"
      "(case SelectEvent cp c h w of (sel, w1) \<Rightarrow>
        (case sel of
           SelDone e \<Rightarrow>
             Some ((if err_is e CtxDeadlineExceeded then TaskRunStatusTimedOut else TaskRunStatusStopped, Some e), w1)
         | SelClosed \<Rightarrow> Some ((TaskRunStatusSucceeded, None), w1)
         | SelEvent evt \<Rightarrow>
             (case te_now env w1 of (t, w2) \<Rightarrow>
                (case InsertSessionEvent (te_store env) c (session_event_of b rid sid evt t) w2 of (ins, w3) \<Rightarrow>
                   (case ins of
                      Some e \<Rightarrow> Some ((TaskRunStatusFailed, Some e), w3)
                    | None \<Rightarrow>
                        (if isSessionIdleEvent evt
                         then Some ((TaskRunStatusSucceeded, None),
                                publish_event env c b rid ref sid (session_event_of b rid sid evt t) w3)
                         else loop env cp c b rid ref sid h
                                (publish_event env c b rid ref sid (session_event_of b rid sid evt t) w3))))))) = Some y"
    obtain sel w1 where sel: "SelectEvent cp c h w = (sel, w1)" by fastforce
    show "\<exists>evs. session_end env cp c b rid ref sid h w evs (fst y) (snd y)"
    proof (cases sel)
      case (SelEvent evt)
      obtain t w2 where now: "te_now env w1 = (t, w2)" by fastforce
      obtain ins w3 where ins: "InsertSessionEvent (te_store env) c (session_event_of b rid sid evt t) w2 = (ins, w3)"
        by fastforce
      show ?thesis
      proof (cases "ins = None \<and> \<not> isSessionIdleEvent evt")
        case True
        with 1(2) sel SelEvent now ins
        have "loop env cp c b rid ref sid h (publish_event env c b rid ref sid (session_event_of b rid sid evt t) w3) = Some y"
          by simp
        from 1(1) [OF this] obtain evs where "session_end env cp c b rid ref sid h
            (publish_event env c b rid ref sid (session_event_of b rid sid evt t) w3) evs (fst y) (snd y)" by blast
        with sel SelEvent now ins True show ?thesis by (blast intro: end_more)
      next
        case False
        with 1(2) sel SelEvent now ins show ?thesis
          by (cases ins) (auto intro!: exI [of _ "[evt]"] end_insert end_idle)
      qed
    next
      case (SelDone e)
      with 1(2) sel show ?thesis using end_done [of cp c h w e w1] by fastforce
    next
      case SelClosed
      with 1(2) sel show ?thesis by (auto intro!: exI [of _ "[]"] end_closed)
    qed
  qed
  from this [OF assms] show ?thesis by simp
qed

lemma session_end_status:
  "session_end env cp c b rid ref sid h w evs (s, e) w' \<Longrightarrow>
     s \<in> {TaskRunStatusSucceeded, TaskRunStatusFailed, TaskRunStatusStopped, TaskRunStatusTimedOut} \<and>
     (e = None \<longleftrightarrow> s = TaskRunStatusSucceeded)"
  by (induction w evs "(s, e)" w' rule: session_end.induct) (auto split: if_splits)

section \<open>Termination\<close>

text \<open>
  A session that sends finitely many events: a number that every event taken decreases, and that
  nothing the loop does in between increases.
\<close>

definition drains :: "('w \<Rightarrow> nat) \<Rightarrow> 'w task_env \<Rightarrow> 'w copilot_client \<Rightarrow> bool" where
  "drains left env cp \<longleftrightarrow>
     (\<forall>c h w evt w'. SelectEvent cp c h w = (SelEvent evt, w') \<longrightarrow> left w' < left w) \<and>
     (\<forall>w. left (snd (te_now env w)) \<le> left w) \<and>
     (\<forall>c e w. left (snd (InsertSessionEvent (te_store env) c e w)) \<le> left w) \<and>
     (\<forall>publish c sid e w. te_bus env = Some publish \<longrightarrow> left (snd (publish c sid e w)) \<le> left w) \<and>
     (\<forall>c b r t e w. left (snd (NotifyError (te_notifier env) c b r t e w)) \<le> left w)"

lemma publish_event_left:
  assumes "drains left env cp"
  shows "left (publish_event env c b rid ref sid e w) \<le> left w"
proof (cases "te_bus env")
  case (Some publish)
  have "left (snd (publish c sid e w)) \<le> left w" using assms Some unfolding drains_def by blast
  moreover have nt: "left (snd (NotifyError (te_notifier env) c x r t err v)) \<le> left v" for x r t err v
    using assms unfolding drains_def by blast
  ultimately show ?thesis
    using Some by (auto simp: publish_event_def split: prod.splits option.splits intro: order.trans [OF nt])
qed (simp add: publish_event_def)

lemma event_loop_returns:
  assumes "drains left env cp"
  shows "\<exists>r. event_loop env cp c b rid ref sid h w = Some r"
proof (induction "left w" arbitrary: w rule: less_induct)
  case less
  obtain sel w1 where sel: "SelectEvent cp c h w = (sel, w1)" by fastforce
  show ?case
  proof (cases sel)
    case (SelEvent evt)
    obtain t w2 where now: "te_now env w1 = (t, w2)" by fastforce
    obtain ins w3 where ins: "InsertSessionEvent (te_store env) c (session_event_of b rid sid evt t) w2 = (ins, w3)"
      by fastforce
    let ?w = "publish_event env c b rid ref sid (session_event_of b rid sid evt t) w3"
    have "left w1 < left w" using assms sel SelEvent unfolding drains_def by blast
    moreover have "left w2 \<le> left w1" "left w3 \<le> left w2"
      using assms now ins unfolding drains_def by (metis snd_conv)+
    ultimately have "left ?w < left w"
      using publish_event_left [OF assms, of c b rid ref sid "session_event_of b rid sid evt t" w3] by linarith
    then obtain r where "event_loop env cp c b rid ref sid h ?w = Some r" using less by blast
    with sel SelEvent now ins show ?thesis
      by (cases r) (subst event_loop.simps, auto split: option.splits)
  qed (use sel in \<open>subst event_loop.simps, simp\<close>)+
qed

lemma executeTask_returns:
  assumes "drains left env cp"
  shows "executeTask env cp c repoPath newRunID b ref prompt w \<noteq> None"
proof -
  have "event_loop env cp c b rid ref sid h w \<noteq> None" for c b rid sid h w
    using event_loop_returns [OF assms] by force
  then show ?thesis by (simp add: executeTask_def Let_def del: not_None_eq split: prod.split sum.split option.split)
qed

lemma execute_with_output_returns:
  assumes "drains left env cp"
  shows "execute_with_output ex env cp c repoPath newRunID b ref prompt w \<noteq> None"
  using executeTask_returns [OF assms]
  by (simp add: execute_with_output_def Let_def del: not_None_eq split: prod.split option.split)

lemma tasks_return:
  assumes "drains left env cp"
  shows "ExecutionTask_Execute fmt env tr cp t c b taskID w \<noteq> None"
    and "VerificationTask_Execute fmt env cp cfg et ins c b taskID w \<noteq> None"
  using execute_with_output_returns [OF assms]
  by (simp_all add: ExecutionTask_Execute_def VerificationTask_Execute_def executeTaskWithAssistantMessages_def
      executeTaskWithStructuredOutput_def Let_def del: not_None_eq split: option.split sum.split prod.split)

section \<open>The returned status and the batch\<close>

text \<open>The status the run leaves the batch with, in the worker's copy.\<close>

definition status_after :: "task_run_status \<Rightarrow> batch_status \<Rightarrow> batch_status" where
  "status_after s old =
     (if s = TaskRunStatusSucceeded then old
      else if s = TaskRunStatusStopped then BatchStatusPending
      else BatchStatusFailed)"

text \<open>
  What a run that returned has done to its batch: the error tells success, the worker's copy of the
  batch has the status that goes with it, and the stored batch is that copy or as it was.
\<close>

definition settled ::
    "('w \<Rightarrow> string \<Rightarrow> batch option) \<Rightarrow> batch \<Rightarrow> 'w \<Rightarrow> task_run_status \<times> go_error option \<Rightarrow> batch \<Rightarrow> 'w \<Rightarrow> bool" where
  "settled at b w r b' w' \<longleftrightarrow>
     fst r \<in> {TaskRunStatusSucceeded, TaskRunStatusFailed, TaskRunStatusStopped, TaskRunStatusTimedOut} \<and>
     (snd r = None \<longleftrightarrow> fst r = TaskRunStatusSucceeded) \<and>
     batch_core b' = batch_core (b\<lparr>batch_Status := status_after (fst r) (batch_Status b)\<rparr>) \<and>
     (at w' = at w \<or> fst r \<noteq> TaskRunStatusSucceeded \<and> at w' = (at w)(batch_ID b \<mapsto> batch_core b'))"

lemma settled_from: "at w = at w0 \<Longrightarrow> settled at b w r b' w' \<Longrightarrow> settled at b w0 r b' w'"
  unfolding settled_def by (elim conjE, intro conjI) (assumption | simp only:)+

lemma settled_to: "at w'' = at w' \<Longrightarrow> settled at b w r b' w' \<Longrightarrow> settled at b w r b' w''"
  unfolding settled_def by (elim conjE, intro conjI) (assumption | simp only:)+

text \<open>The calls beside the store, and what they leave alone.\<close>

definition keeps_view :: "('w \<Rightarrow> 'v) \<Rightarrow> 'w task_env \<Rightarrow> 'w copilot_client \<Rightarrow> bool" where
  "keeps_view v env cp \<longleftrightarrow>
     (\<forall>c p r w. v (snd (StartSession cp c p r w)) = v w) \<and>
     (\<forall>c h w. v (snd (SelectEvent cp c h w)) = v w) \<and>
     (\<forall>h w. v (StopSession cp h w) = v w) \<and>
     (\<forall>w. v (snd (te_now env w)) = v w) \<and>
     (\<forall>p w. v (te_metric env p w) = v w) \<and>
     (\<forall>publish c sid e w. te_bus env = Some publish \<longrightarrow> v (snd (publish c sid e w)) = v w) \<and>
     (\<forall>c b r t e w. v (snd (NotifyError (te_notifier env) c b r t e w)) = v w) \<and>
     (\<forall>c b r t n s k w. v (snd (NotifyTaskFinished (te_notifier env) c b r t n s k w)) = v w) \<and>
     (\<forall>c b w. v (snd (NotifyBatchIdle (te_notifier env) c b w)) = v w) \<and>
     (\<forall>tr c r t w. te_tracker env = Some tr \<longrightarrow> v (snd (GetTitle tr c r t w)) = v w)"

lemma keeps_viewD:
  assumes "keeps_view v env cp"
  shows "StartSession cp c p r w = (x, w') \<Longrightarrow> v w' = v w"
    and "SelectEvent cp c h w = (y, w') \<Longrightarrow> v w' = v w"
    and "v (StopSession cp h w) = v w"
    and "te_now env w = (t, w') \<Longrightarrow> v w' = v w"
    and "v (te_metric env ph w) = v w"
    and "v (snd (NotifyError (te_notifier env) c i j k e w)) = v w"
    and "v (snd (NotifyTaskFinished (te_notifier env) c i j k n q u w)) = v w"
    and "v (snd (NotifyBatchIdle (te_notifier env) c i w)) = v w"
  using assms unfolding keeps_view_def by (metis snd_conv)+

lemma keeps_view_publish:
  assumes "keeps_view v env cp"
  shows "v (publish_event env c b rid ref sid e w) = v w"
proof (cases "te_bus env")
  case (Some publish)
  obtain r w1 where p: "publish c sid e w = (r, w1)" by fastforce
  have "v w1 = v w" using assms Some p unfolding keeps_view_def by (metis snd_conv)
  with p Some show ?thesis
    by (auto simp: publish_event_def keeps_viewD(6) [OF assms] split: option.split)
qed (simp add: publish_event_def)

lemma keeps_view_title:
  assumes "keeps_view v env cp" and "fetch_title env c repoPath ref w = (t, w')"
  shows "v w' = v w"
proof (cases "te_tracker env")
  case (Some tr)
  have "v (snd (GetTitle tr c repoPath ref w)) = v w" using assms(1) Some unfolding keeps_view_def by blast
  with assms(2) Some show ?thesis by (auto simp: fetch_title_def split: prod.splits sum.splits)
qed (use assms(2) in \<open>simp add: fetch_title_def\<close>)

section \<open>The store of runs\<close>

text \<open>The operations on runs and events leave the stored batches alone.\<close>

locale run_store = batch_store +
  assumes create_run_batches: "CreateTaskRun st c r w = (x, w') \<Longrightarrow> batch_at w' = batch_at w"
    and update_run_batches: "UpdateTaskRun st c r w = (x, w') \<Longrightarrow> batch_at w' = batch_at w"
    and insert_event_batches: "InsertSessionEvent st c e w = (y, w') \<Longrightarrow> batch_at w' = batch_at w"
begin

text \<open>A status change writes the whole batch over the stored one, or nothing.\<close>

lemma setBatchStatus_batch:
  assumes "setBatchStatus st c b s w = (b', w')" and "items_set (batch_Items b)"
  shows "batch_core b' = batch_core (b\<lparr>batch_Status := s\<rparr>)"
    and "batch_at w' = batch_at w \<or> batch_at w' = (batch_at w)(batch_ID b \<mapsto> batch_core b')"
proof -
  have "batch_core b' = batch_core (b\<lparr>batch_Status := s\<rparr>) \<and>
      (batch_at w' = batch_at w \<or> batch_at w' = (batch_at w)(batch_ID b \<mapsto> batch_core b'))"
  proof (cases "batch_Status b = s")
    case True
    then have "b\<lparr>batch_Status := s\<rparr> = b" by simp
    moreover have "b' = b" "w' = w" using True assms(1) by (simp_all add: setBatchStatus_def)
    ultimately show ?thesis by metis
  next
    case False
    with assms(1) obtain e where u: "UpdateBatch st c (b\<lparr>batch_Status := s\<rparr>) w = ((e, b'), w')"
      by (auto simp: setBatchStatus_def split: prod.splits)
    have "batch_core b' = batch_core (b\<lparr>batch_Status := s\<rparr>)"
      using update_batch_doc [OF u] assms(2) by simp
    moreover have "batch_at w' = batch_at w \<or> batch_at w' = (batch_at w)(batch_ID b \<mapsto> batch_core b')"
      using u update_batch_ok [of c "b\<lparr>batch_Status := s\<rparr>" w b' w']
        update_batch_err [of c "b\<lparr>batch_Status := s\<rparr>" w _ b' w'] by (cases e) auto
    ultimately show ?thesis by blast
  qed
  then show "batch_core b' = batch_core (b\<lparr>batch_Status := s\<rparr>)"
    and "batch_at w' = batch_at w \<or> batch_at w' = (batch_at w)(batch_ID b \<mapsto> batch_core b')" by blast+
qed

lemma session_batches:
  assumes "session_end env cp c b rid ref sid h w evs r w'" and "te_store env = st" and "keeps_view batch_at env cp"
  shows "batch_at w' = batch_at w"
  using assms(1)
proof (induction rule: session_end.induct)
  case (end_more w evt w1 t w2 w3 evs r w')
  then show ?case
    using assms(2) keeps_viewD(2,4) [OF assms(3)] keeps_view_publish [OF assms(3)] insert_event_batches by metis
next
  case (end_idle w evt w1 t w2 w3)
  then show ?case
    using assms(2) keeps_viewD(2,4) [OF assms(3)] keeps_view_publish [OF assms(3)] insert_event_batches by metis
next
  case (end_insert w evt w1 t w2 e w3)
  then show ?case using assms(2) keeps_viewD(2,4) [OF assms(3)] insert_event_batches by metis
qed (use keeps_viewD(2) [OF assms(3)] in auto)

lemma start_failed_settles:
  assumes "start_failed env c b rid ref err w = (r, b', w')" and "te_store env = st"
    and "keeps_view batch_at env cp" and "items_set (batch_Items b)"
  shows "settled batch_at b w r b' w'"
proof -
  obtain t1 w1 where n1: "te_now env w = (t1, w1)" by fastforce
  obtain t2 w2 where n2: "te_now env w1 = (t2, w2)" by fastforce
  obtain x w3 where cr: "CreateTaskRun st c (run_of b rid ref [] t2 (Some t1) TaskRunStatusFailed) w2 = (x, w3)"
    by fastforce
  obtain b1 w4 where sb: "setBatchStatus st c b BatchStatusFailed w3 = (b1, w4)" by fastforce
  have r: "r = (TaskRunStatusFailed, Some (Wrapf ''start copilot session'' err))" "b' = b1"
    "w' = snd (NotifyError (te_notifier env) c (batch_ID b1) rid ref err w4)"
    using assms(1,2) n1 n2 cr sb by (auto simp: start_failed_def Let_def)
  have "batch_at w3 = batch_at w"
    using create_run_batches [OF cr] keeps_viewD(4) [OF assms(3)] n1 n2 by metis
  with setBatchStatus_batch [OF sb assms(4)] keeps_viewD(6) [OF assms(3)] show ?thesis
    unfolding r settled_def by (simp add: status_after_def)
qed

lemma finish_run_settles:
  assumes "finish_run env c b run title s e w = (r, b', w')" and "te_store env = st"
    and "keeps_view batch_at env cp" and "items_set (batch_Items b)"
    and "s \<in> {TaskRunStatusSucceeded, TaskRunStatusFailed, TaskRunStatusStopped, TaskRunStatusTimedOut}"
    and "e = None \<longleftrightarrow> s = TaskRunStatusSucceeded"
  shows "settled batch_at b w r b' w' \<and> fst r = s"
proof -
  let ?pc = "CtxWithoutCancel c" and ?nt = "te_notifier env"
  obtain t1 w1 where n1: "te_now env w = (t1, w1)" by fastforce
  define w2 where "w2 = (if s = TaskRunStatusTimedOut then logTimeoutEvent env c w1 else w1)"
  obtain u run2 w3 where up: "UpdateTaskRun st ?pc (run\<lparr>run_Status := s, run_FinishedAt := Some t1\<rparr>) w2 = ((u, run2), w3)"
    by (metis prod.collapse)
  have w3: "batch_at w3 = batch_at w"
    using update_run_batches [OF up] keeps_viewD(4) [OF assms(3) n1] keeps_viewD(5) [OF assms(3)]
    by (simp add: w2_def logTimeoutEvent_def)
  note fin = assms(1) [unfolded finish_run_def Let_def assms(2) n1 prod.case w2_def [symmetric] up]
  note keep = keeps_viewD(6-8) [OF assms(3)]
  show ?thesis
  proof (cases "s = TaskRunStatusSucceeded")
    case True
    with fin keep w3 assms(6) show ?thesis by (auto simp: settled_def status_after_def)
  next
    case ns: False
    show ?thesis
    proof (cases "s = TaskRunStatusStopped")
      case True
      obtain b1 w5 where sb: "setBatchStatus st ?pc b BatchStatusPending (snd (NotifyBatchIdle ?nt ?pc (batch_ID b) w3)) = (b1, w5)"
        by fastforce
      with fin True have "r = (s, e)" "b' = b1" "w' = w5" by auto
      with setBatchStatus_batch [OF sb assms(4)] keep w3 assms(6) True show ?thesis
        by (simp add: settled_def status_after_def)
    next
      case False
      let ?err = "case e of None \<Rightarrow> Errorf ''task run failed'' | Some e' \<Rightarrow> e'"
      obtain b1 w5 where sb: "setBatchStatus st ?pc b BatchStatusFailed
          (snd (NotifyError ?nt ?pc (batch_ID b) (run_ID run2) (run_TaskRef run2) ?err w3)) = (b1, w5)" by fastforce
      with fin False ns have "r = (s, Some ?err)" "b' = b1" "w' = w5" by auto
      with setBatchStatus_batch [OF sb assms(4)] keep w3 assms(5) ns False show ?thesis
        by (auto simp: settled_def status_after_def)
    qed
  qed
qed

lemma executeTask_settled:
  assumes "executeTask env cp c repoPath newRunID b ref prompt w = Some (r, b', w')" and st: "te_store env = st"
    and kv: "keeps_view batch_at env cp" and "\<And>w. batch_at (snd (newRunID w)) = batch_at w"
    and set: "items_set (batch_Items b)"
  shows "settled batch_at b w r b' w'"
proof -
  obtain rid w1 where n: "newRunID w = (rid, w1)" by fastforce
  obtain title w2 where ti: "fetch_title env c repoPath ref w1 = (title, w2)" by fastforce
  obtain x w3 where ss: "StartSession cp c prompt repoPath w2 = (x, w3)" by fastforce
  have w3: "batch_at w3 = batch_at w"
    using n ti ss assms(4) [of w] keeps_view_title [OF kv ti] keeps_viewD(1) [OF kv ss] by simp
  note ex = assms(1) [unfolded executeTask_def Let_def st n prod.case ti ss]
  show ?thesis
  proof (cases x)
    case (Inl err)
    with ex have "start_failed env c b rid ref err w3 = (r, b', w')" by simp
    from start_failed_settles [OF this st kv set] w3 show ?thesis by (rule settled_from [rotated])
  next
    case (Inr y)
    obtain sid h where y: "y = (sid, h)" by fastforce
    obtain t w4 where n2: "te_now env w3 = (t, w4)" by fastforce
    obtain created run w5 where cr: "CreateTaskRun st c (run_of b rid ref sid t None TaskRunStatusRunning) w4 = ((created, run), w5)"
      by (metis prod.collapse)
    have w5: "batch_at w5 = batch_at w"
      using create_run_batches [OF cr] keeps_viewD(4) [OF kv n2] w3 by simp
    note ex2 = ex [unfolded Inr y sum.case prod.case n2 cr]
    show ?thesis
    proof (cases created)
      case (Some err)
      obtain b1 w6 where sb: "setBatchStatus st c b BatchStatusFailed w5 = (b1, w6)" by fastforce
      with ex2 Some have "r = (TaskRunStatusFailed, Some (Wrapf ''create task run'' err))" "b' = b1"
        "w' = StopSession cp h (snd (NotifyError (te_notifier env) c (batch_ID b1) rid ref err w6))" by auto
      with setBatchStatus_batch [OF sb set] w5 keeps_viewD(3,6) [OF kv] show ?thesis
        by (simp add: settled_def status_after_def)
    next
      case None
      with ex2 obtain s e w6 r1 b1 w7 where lp: "event_loop env cp c b (run_ID run) ref sid h w5 = Some ((s, e), w6)"
        and fin: "finish_run env c b run title s e w6 = (r1, b1, w7)" and res: "r = r1" "b' = b1" "w' = StopSession cp h w7"
        by (auto split: option.splits prod.splits)
      obtain evs where se: "session_end env cp c b (run_ID run) ref sid h w5 evs (s, e) w6"
        using event_loop_ends [OF lp] by blast
      have w6: "batch_at w6 = batch_at w" using session_batches [OF se st kv] w5 by simp
      from finish_run_settles [OF fin st kv set] session_end_status [OF se]
      have "settled batch_at b w6 r1 b1 w7" by blast
      then have "settled batch_at b w r1 b1 w7" by (rule settled_from [where at = batch_at, OF w6])
      then show ?thesis unfolding res
        by (rule settled_to [where at = batch_at, rotated]) (rule keeps_viewD(3) [OF kv])
    qed
  qed
qed

end

section \<open>The Mongo client as a store of runs\<close>

lemma backfill_docs:
  assumes "driver_ok drv docs" and "backfill_repository drv c r m = (r', m')"
  shows "docs m' = docs m"
  using assms(2) mongo_get_docs [OF assms(1)]
  by (fastforce simp: backfill_repository_def mongo_GetBatch_def split: if_splits prod.splits sum.splits)

lemma batch_view_other:
  "docs m' = (docs m)(k := xs) \<Longrightarrow> k \<noteq> batchesCollection \<Longrightarrow> batch_view docs m' = batch_view docs m"
  by (simp add: batch_view_def fun_eq_iff)

lemma mongo_run_store:
  assumes ok: "driver_ok drv docs"
  shows "run_store (mongo_storage drv) (batch_view docs)"
proof (intro run_store.intro mongo_batch_store [OF ok] run_store_axioms.intro)
  fix c r w x w'
  assume "CreateTaskRun (mongo_storage drv) c r w = (x, w')"
  then obtain r1 m1 r2 m2 e where a: "(if run_StartedAt r = 0 then (let (now, m') = Now drv w in (r\<lparr>run_StartedAt := now\<rparr>, m'))
        else (r, w)) = (r1, m1)" and bf: "backfill_repository drv c r1 m1 = (r2, m2)"
    and i: "mongo_insert drv c taskRunsCollection ''task run'' False (DocRun r2) m2 = (e, w')"
    by (auto simp: mongo_storage_def mongo_CreateTaskRun_def Let_def split: prod.splits)
  have "docs m1 = docs w" using a driver_now [OF ok] by (auto simp: Let_def split: if_splits prod.splits)
  with backfill_docs [OF ok bf] mongo_insert_docs [OF ok i] show "batch_view docs w' = batch_view docs w"
    by (auto intro: batch_view_other view_frames simp: collections)
next
  fix c r w x w'
  assume "UpdateTaskRun (mongo_storage drv) c r w = (x, w')"
  then obtain r1 m1 r2 m2 e where a: "(if run_FinishedAt r = None \<and>
        run_Status r \<in> {TaskRunStatusSucceeded, TaskRunStatusFailed, TaskRunStatusStopped}
      then (let (now, m') = Now drv w in (r\<lparr>run_FinishedAt := Some now\<rparr>, m')) else (r, w)) = (r1, m1)"
    and bf: "backfill_repository drv c r1 m1 = (r2, m2)"
    and u: "mongo_update drv c taskRunsCollection ''task run'' False [(''run_id'', BEq (run_ID r2))] (DocRun r2) m2 = (e, w')"
    by (auto simp: mongo_storage_def mongo_UpdateTaskRun_def Let_def split: prod.splits)
  have "docs m1 = docs w" using a driver_now [OF ok] by (auto simp: Let_def split: if_splits prod.splits)
  with backfill_docs [OF ok bf] mongo_update_docs [OF ok u] show "batch_view docs w' = batch_view docs w"
    by (auto intro: batch_view_other view_frames simp: collections)
next
  fix c e w y w'
  assume "InsertSessionEvent (mongo_storage drv) c e w = (y, w')"
  then have "mongo_insert drv c sessionEventsCollection ''session event'' False (DocEvent e) w = (y, w')"
    by (simp add: mongo_storage_def mongo_InsertSessionEvent_def)
  from mongo_insert_docs [OF ok this] show "batch_view docs w' = batch_view docs w"
    by (auto intro: batch_view_other view_frames simp: collections)
qed

interpretation mongo_runs: run_store "mongo_storage list_driver" "batch_view db_docs"
  by (rule mongo_run_store [OF list_driver_ok])

section \<open>Every event is stored\<close>

text \<open>A record of what a client has delivered, which nothing else touches.\<close>

definition logs :: "('w \<Rightarrow> raw_event list) \<Rightarrow> 'w task_env \<Rightarrow> 'w copilot_client \<Rightarrow> bool" where
  "logs lg env cp \<longleftrightarrow>
     (\<forall>c h w sel w'. SelectEvent cp c h w = (sel, w') \<longrightarrow>
        lg w' = lg w @ (case sel of SelEvent evt \<Rightarrow> [evt] | _ \<Rightarrow> [])) \<and>
     (\<forall>w. lg (snd (te_now env w)) = lg w) \<and>
     (\<forall>c e w. lg (snd (InsertSessionEvent (te_store env) c e w)) = lg w) \<and>
     (\<forall>publish c sid e w. te_bus env = Some publish \<longrightarrow> lg (snd (publish c sid e w)) = lg w) \<and>
     (\<forall>c b r t e w. lg (snd (NotifyError (te_notifier env) c b r t e w)) = lg w)"

lemma logsD:
  assumes "logs lg env cp"
  shows "SelectEvent cp c h w = (SelEvent evt, w') \<Longrightarrow> lg w' = lg w @ [evt]"
    and "SelectEvent cp c h w = (SelClosed, w') \<Longrightarrow> lg w' = lg w"
    and "SelectEvent cp c h w = (SelDone e, w') \<Longrightarrow> lg w' = lg w"
    and "te_now env w = (t, w') \<Longrightarrow> lg w' = lg w"
    and "InsertSessionEvent (te_store env) c ev w = (y, w') \<Longrightarrow> lg w' = lg w"
    and "lg (snd (NotifyError (te_notifier env) c i j k e w)) = lg w"
  using assms unfolding logs_def by (auto split: select_result.splits) (metis snd_conv)+

lemma logs_publish:
  assumes "logs lg env cp"
  shows "lg (publish_event env c b rid ref sid e w) = lg w"
proof (cases "te_bus env")
  case (Some publish)
  obtain r w1 where p: "publish c sid e w = (r, w1)" by fastforce
  have "lg w1 = lg w" using assms Some p unfolding logs_def by (metis snd_conv)
  with p Some show ?thesis by (auto simp: publish_event_def logsD(6) [OF assms] split: option.split)
qed (simp add: publish_event_def)

lemma session_log:
  assumes "session_end env cp c b rid ref sid h w evs r w'" and "logs lg env cp"
  shows "lg w' = lg w @ evs"
  using assms(1)
proof (induction rule: session_end.induct)
  case (end_more w evt w1 t w2 w3 evs r w')
  with logsD(1,4,5) [OF assms(2)] logs_publish [OF assms(2)] show ?case by (metis append.assoc append_Cons append_Nil)
next
  case (end_idle w evt w1 t w2 w3)
  with logsD(1,4,5) [OF assms(2)] logs_publish [OF assms(2)] show ?case by metis
next
  case (end_insert w evt w1 t w2 e w3)
  with logsD(1,4,5) [OF assms(2)] show ?case by metis
qed (use logsD(2,3) [OF assms(2)] in simp_all)

text \<open>The documents of a list of events.\<close>

definition event_docs :: "batch \<Rightarrow> string \<Rightarrow> string \<Rightarrow> raw_event list \<Rightarrow> go_time list \<Rightarrow> doc list" where
  "event_docs b rid sid evs ts = map2 (\<lambda>e t. bson_doc (DocEvent (session_event_of b rid sid e t))) evs ts"

lemma session_docs:
  assumes "session_end env cp c b rid ref sid h w evs r w'" and "driver_ok drv docs"
    and "te_store env = mongo_storage drv" and "keeps_view docs env cp"
  shows "\<exists>ts n. length ts = length evs \<and>
      docs w' = (docs w)(sessionEventsCollection := docs w sessionEventsCollection @ take n (event_docs b rid sid evs ts)) \<and>
      (fst r \<noteq> TaskRunStatusFailed \<longrightarrow> length evs \<le> n) \<and> length evs \<le> Suc n"
  using assms(1)
proof (induction rule: session_end.induct)
  case (end_more w evt w1 t w2 w3 evs r w')
  have "mongo_insert drv c sessionEventsCollection ''session event'' False
      (DocEvent (session_event_of b rid sid evt t)) w2 = (None, w3)"
    using end_more(3) assms(3) by (simp add: mongo_storage_def mongo_InsertSessionEvent_def)
  from mongo_insert_docs [OF assms(2) this]
  have d3: "docs w3 = (docs w)(sessionEventsCollection :=
      docs w sessionEventsCollection @ [bson_doc (DocEvent (session_event_of b rid sid evt t))])"
    using keeps_viewD(2,4) [OF assms(4)] end_more(1,2) by metis
  from end_more.IH [unfolded keeps_view_publish [OF assms(4)]] obtain ts n where ts: "length ts = length evs"
    "docs w' = (docs w3)(sessionEventsCollection := docs w3 sessionEventsCollection @ take n (event_docs b rid sid evs ts))"
    "fst r \<noteq> TaskRunStatusFailed \<longrightarrow> length evs \<le> n" "length evs \<le> Suc n"
    by blast
  then show ?case
    by (intro exI [of _ "t # ts"] exI [of _ "Suc n"]) (simp add: d3 event_docs_def)
next
  case (end_idle w evt w1 t w2 w3)
  have "mongo_insert drv c sessionEventsCollection ''session event'' False
      (DocEvent (session_event_of b rid sid evt t)) w2 = (None, w3)"
    using end_idle(3) assms(3) by (simp add: mongo_storage_def mongo_InsertSessionEvent_def)
  from mongo_insert_docs [OF assms(2) this]
  have d3: "docs w3 = (docs w)(sessionEventsCollection :=
      docs w sessionEventsCollection @ [bson_doc (DocEvent (session_event_of b rid sid evt t))])"
    using keeps_viewD(2,4) [OF assms(4)] end_idle(1,2) by metis
  then show ?case
    by (intro exI [of _ "[t]"] exI [of _ "1"]) (simp add: event_docs_def keeps_view_publish [OF assms(4)])
next
  case (end_insert w evt w1 t w2 e w3)
  have "mongo_insert drv c sessionEventsCollection ''session event'' False
      (DocEvent (session_event_of b rid sid evt t)) w2 = (Some e, w3)"
    using end_insert(3) assms(3) by (simp add: mongo_storage_def mongo_InsertSessionEvent_def)
  from mongo_insert_docs [OF assms(2) this] have d3: "docs w3 = (docs w)(sessionEventsCollection :=
      docs w sessionEventsCollection @ [bson_doc (DocEvent (session_event_of b rid sid evt t))]) \<or> docs w3 = docs w"
    using keeps_viewD(2,4) [OF assms(4)] end_insert(1,2) by metis
  then show ?case
  proof
    assume "docs w3 = (docs w)(sessionEventsCollection :=
        docs w sessionEventsCollection @ [bson_doc (DocEvent (session_event_of b rid sid evt t))])"
    then show ?thesis by (intro exI [of _ "[t]"] exI [of _ "1"]) (simp add: event_docs_def)
  next
    assume "docs w3 = docs w"
    then show ?thesis by (intro exI [of _ "[t]"] exI [of _ "0"]) (simp add: event_docs_def)
  qed
qed (use keeps_viewD(2) [OF assms(4)] in \<open>fastforce simp: event_docs_def\<close>)+

lemma session_idle:
  "session_end env cp c b rid ref sid h w evs r w' \<Longrightarrow> \<forall>e \<in> set (butlast evs). \<not> isSessionIdleEvent e"
  by (induction rule: session_end.induct) auto

end
