(* ===== verification/Session_Results.thy ===== *)
theory Session_Results
  imports Session_Run
begin

text \<open>
  The properties of sessions, and the concrete world of their instances: the list database, the
  scripts of the sessions to come, what is left of the current one, and a record of the events
  delivered.  The database calls act on the first part only, so the lifted driver behaves as
  documented.
\<close>

section \<open>The world\<close>

record demo_state =
  dm_db :: list_db
  dm_scripts :: "select_result list list"
  dm_current :: "select_result list"
  dm_log :: "raw_event list"

definition on_db :: "(list_db, 'a) act \<Rightarrow> ('s demo_state_scheme, 'a) act" where
  "on_db f w = (case f (dm_db w) of (a, d) \<Rightarrow> (a, w\<lparr>dm_db := d\<rparr>))"

definition lift_driver :: "list_db driver \<Rightarrow> 's demo_state_scheme driver" where
  "lift_driver drv =
     \<lparr>Now = on_db (Now drv),
      InsertOne = (\<lambda>c k d. on_db (InsertOne drv c k d)),
      UpdateOne = (\<lambda>c k f d. on_db (UpdateOne drv c k f d)),
      FindOne = (\<lambda>c k f. on_db (FindOne drv c k f)),
      Find = (\<lambda>c k f s l. on_db (Find drv c k f s l)),
      DeleteOne = (\<lambda>c k f. on_db (DeleteOne drv c k f)),
      CountDocuments = (\<lambda>c k f. on_db (CountDocuments drv c k f)),
      GroupCount = (\<lambda>c k f g. on_db (GroupCount drv c k f g))\<rparr>"

definition dm_docs :: "'s demo_state_scheme \<Rightarrow> string \<Rightarrow> doc list" where
  "dm_docs = (\<lambda>w. db_docs (dm_db w))"

lemma on_db_eq: "on_db f w = (a, w') \<longleftrightarrow> (\<exists>d. f (dm_db w) = (a, d) \<and> w' = w\<lparr>dm_db := d\<rparr>)"
  by (auto simp: on_db_def split: prod.splits)

lemma on_db_keeps [simp]:
  "dm_scripts (snd (on_db f w)) = dm_scripts w" "dm_current (snd (on_db f w)) = dm_current w"
  "dm_log (snd (on_db f w)) = dm_log w"
  by (simp_all add: on_db_def split: prod.splits)

lemma lift_driver_ok:
  assumes "driver_ok drv db_docs"
  shows "driver_ok (lift_driver drv) dm_docs"
proof -
  have parts: "now_ok drv db_docs" "insert_ok drv db_docs" "update_ok drv db_docs" "find_ok drv db_docs"
    "delete_ok drv db_docs" "count_ok drv db_docs" "group_ok drv db_docs"
    using assms by (simp_all add: driver_ok_def)
  note lifted = lift_driver_def on_db_eq dm_docs_def Let_def
  have "now_ok (lift_driver drv) dm_docs"
    using parts(1) unfolding now_ok_def by (fastforce simp: lifted)
  moreover have "insert_ok (lift_driver drv) dm_docs"
    unfolding insert_ok_def
    by (intro allI impI) (auto simp: lifted split: option.splits sum.splits dest!: parts(2) [unfolded insert_ok_def, rule_format])
  moreover have "update_ok (lift_driver drv) dm_docs"
    unfolding update_ok_def
    by (intro allI impI) (auto simp: lifted split: option.splits sum.splits dest!: parts(3) [unfolded update_ok_def, rule_format])
  moreover have "find_ok (lift_driver drv) dm_docs"
    unfolding find_ok_def
    by (intro allI impI conjI) (auto simp: lifted
        dest: conjunct1 [OF parts(4) [unfolded find_ok_def], rule_format]
          conjunct2 [OF parts(4) [unfolded find_ok_def], rule_format])
  moreover have "delete_ok (lift_driver drv) dm_docs"
    unfolding delete_ok_def
    by (intro allI impI) (auto simp: lifted split: option.splits sum.splits dest!: parts(5) [unfolded delete_ok_def, rule_format])
  moreover have "count_ok (lift_driver drv) dm_docs"
    unfolding count_ok_def
    by (intro allI impI) (auto simp: lifted split: option.splits sum.splits dest!: parts(6) [unfolded count_ok_def, rule_format])
  moreover have "group_ok (lift_driver drv) dm_docs"
    unfolding group_ok_def
    by (intro allI impI conjI) (auto simp: lifted dest: parts(7) [unfolded group_ok_def, rule_format])
  ultimately show ?thesis by (simp add: driver_ok_def)
qed

section \<open>The interfaces\<close>

text \<open>
  A client whose sessions follow the scripts: a start takes the next one, the loop its next entry; a
  session at the end of its script has closed its channel.
\<close>

definition demo_client :: "demo_state copilot_client" where
  "demo_client =
     \<lparr>StartSession = (\<lambda>c p r w.
        (Inr (''sess'', 0),
         w\<lparr>dm_current := (case dm_scripts w of [] \<Rightarrow> [] | s # ss \<Rightarrow> s), dm_scripts := drop 1 (dm_scripts w)\<rparr>)),
      SelectEvent = (\<lambda>c h w.
        (case dm_current w of
           [] \<Rightarrow> (SelClosed, w)
         | x # xs \<Rightarrow> (x, w\<lparr>dm_current := xs, dm_log := dm_log w @ (case x of SelEvent e \<Rightarrow> [e] | _ \<Rightarrow> [])\<rparr>))),
      StopSession = (\<lambda>h w. w)\<rparr>"

definition demo_env :: "list_db driver \<Rightarrow> demo_state task_env" where
  "demo_env drv =
     \<lparr>te_store = mongo_storage (lift_driver drv), te_tracker = None, te_notifier = noop_notifier,
      te_bus = None, te_now = on_db (Now list_driver), te_metric = (\<lambda>p w. w)\<rparr>"

definition demo_run_id :: "(demo_state, string) act" where
  "demo_run_id w = (case on_db (Now list_driver) w of (t, w') \<Rightarrow> (''run-'' @ FormatInt t, w'))"

text \<open>A message of the assistant, and the event that ends a session.\<close>

definition demo_message :: "string \<Rightarrow> raw_event" where
  "demo_message t = [(''type'', JString ''assistant.message''), (''data'', JObject [(''content'', JString t)])]"

definition demo_idle :: raw_event where
  "demo_idle = [(''type'', JString ''Session.Idle'')]"

definition demo_state0 :: "select_result list list \<Rightarrow> demo_state" where
  "demo_state0 scripts =
     \<lparr>dm_db = demo_db [demo_batch] [demo_agent], dm_scripts = scripts,
      dm_current = [], dm_log = []\<rparr>"

lemma demo_env_simps [simp]:
  "te_store (demo_env drv) = mongo_storage (lift_driver drv)" "te_tracker (demo_env drv) = None"
  "te_notifier (demo_env drv) = noop_notifier" "te_bus (demo_env drv) = None"
  "te_now (demo_env drv) = on_db (Now list_driver)" "te_metric (demo_env drv) p w = w"
  by (simp_all add: demo_env_def)

lemma noop_simps [simp]:
  "NotifyError noop_notifier c b r t e w = (None, w)" "NotifyBatchIdle noop_notifier c b w = (None, w)"
  "NotifyTaskFinished noop_notifier c b r t n s h w = (None, w)" "NotifyEvent noop_notifier c ev w = (None, w)"
  by (simp_all add: noop_notifier_def)

lemma demo_insert_keeps [simp]:
  "dm_log (snd (InsertSessionEvent (mongo_storage (lift_driver drv)) c e w)) = dm_log w"
  "dm_current (snd (InsertSessionEvent (mongo_storage (lift_driver drv)) c e w)) = dm_current w"
  by (auto simp: mongo_storage_def mongo_InsertSessionEvent_def mongo_insert_def lift_driver_def on_db_def
      split: prod.splits option.splits)

lemma demo_now_docs: "dm_docs (snd (on_db (Now list_driver) w)) = dm_docs w"
  by (simp add: on_db_def dm_docs_def list_driver_def)

lemma demo_keeps: "keeps_view dm_docs (demo_env drv) demo_client"
  by (auto simp: keeps_view_def demo_now_docs) (auto simp: demo_client_def dm_docs_def split: list.splits)

lemma demo_logs: "logs dm_log (demo_env drv) demo_client"
  by (auto simp: logs_def) (auto simp: demo_client_def split: list.splits)

lemma demo_drains: "drains (\<lambda>w. length (dm_current w)) (demo_env drv) demo_client"
  by (auto simp: drains_def) (auto simp: demo_client_def split: list.splits)

lemmas demo_driver_ok = lift_driver_ok [OF list_driver_ok]

declare event_loop.simps [code]

section \<open>Every event is stored\<close>

text \<open>
  C7: The events of a session are stored in the order they arrived.  When the event loop returns, the
  collection of session events has grown by the documents of exactly the events the client
  delivered to it, with the identifiers of the batch, the run and the session, but perhaps without
  the last one when a write failed; every event but the last was not the idle event, no other
  collection has changed, and there is an error unless the status is succeeded.
\<close>

theorem session_recorded:
  assumes "driver_ok drv docs" and "te_store env = mongo_storage drv" and "keeps_view docs env cp"
    and "logs lg env cp" and "event_loop env cp c b rid ref sid h w = Some ((s, e), w')"
  shows "\<exists>evs ts n. lg w' = lg w @ evs \<and> length ts = length evs \<and>
    docs w' = (docs w)(sessionEventsCollection :=
        docs w sessionEventsCollection @ take n (event_docs b rid sid evs ts)) \<and>
    length evs \<le> (if s = TaskRunStatusFailed then n + 1 else n) \<and>
    (\<forall>ev \<in> set (butlast evs). \<not> isSessionIdleEvent ev) \<and>
    (e = None \<longleftrightarrow> s = TaskRunStatusSucceeded)"
proof -
  obtain evs where se: "session_end env cp c b rid ref sid h w evs (s, e) w'"
    using event_loop_ends [OF assms(5)] by blast
  from session_docs [OF se assms(1-3)] obtain ts n where "length ts = length evs"
    "docs w' = (docs w)(sessionEventsCollection := docs w sessionEventsCollection @ take n (event_docs b rid sid evs ts))"
    "s \<noteq> TaskRunStatusFailed \<longrightarrow> length evs \<le> n" "length evs \<le> Suc n"
    by auto
  then show ?thesis
    using session_log [OF se assms(4)] session_idle [OF se] session_end_status [OF se]
    by (intro exI [of _ evs] exI [of _ ts] exI [of _ n]) auto
qed

definition demo_session :: "select_result list \<Rightarrow> demo_state" where
  "demo_session script = (demo_state0 [])\<lparr>dm_current := script\<rparr>"

theorem session_recorded_witness:
  "\<exists>w' t1 t2. event_loop (demo_env list_driver) demo_client (CtxBase 0) demo_batch ''run-1'' ''yr-1'' ''sess'' 0
       (demo_session [SelEvent (demo_message ''hi''), SelEvent demo_idle, SelEvent (demo_message ''late'')]) =
       Some ((TaskRunStatusSucceeded, None), w') \<and>
     dm_docs w' sessionEventsCollection = event_docs demo_batch ''run-1'' ''sess'' [demo_message ''hi'', demo_idle] [t1, t2]"
proof -
  let ?w = "demo_session [SelEvent (demo_message ''hi''), SelEvent demo_idle, SelEvent (demo_message ''late'')]"
  let ?r = "event_loop (demo_env list_driver) demo_client (CtxBase 0) demo_batch ''run-1'' ''yr-1'' ''sess'' 0 ?w"
  have "fst (the ?r) = (TaskRunStatusSucceeded, None)" and lg: "dm_log (snd (the ?r)) = [demo_message ''hi'', demo_idle]"
    and w: "dm_log ?w = []" "dm_docs ?w sessionEventsCollection = []"
    by code_simp+
  moreover have "?r \<noteq> None" using event_loop_returns [OF demo_drains] by blast
  ultimately have r: "?r = Some ((TaskRunStatusSucceeded, None), snd (the ?r))" by (metis option.collapse prod.collapse)
  from session_recorded [OF demo_driver_ok demo_env_simps(1) demo_keeps demo_logs r] obtain evs ts n where
    ev: "dm_log (snd (the ?r)) = dm_log ?w @ evs" "length ts = length evs"
      "length evs \<le> (if TaskRunStatusSucceeded = TaskRunStatusFailed then n + 1 else n)"
    and ds: "dm_docs (snd (the ?r)) = (dm_docs ?w)(sessionEventsCollection :=
      dm_docs ?w sessionEventsCollection @ take n (event_docs demo_batch ''run-1'' ''sess'' evs ts))"
    by blast
  have evs: "evs = [demo_message ''hi'', demo_idle]" using ev(1) lg w(1) by simp
  then have ts: "length ts = Suc (Suc 0)" "2 \<le> n" using ev(2,3) by simp_all
  have docs: "dm_docs (snd (the ?r)) sessionEventsCollection = take n (event_docs demo_batch ''run-1'' ''sess'' evs ts)"
    using ds w(2) by simp
  from ts(1) obtain t1 t2 where "ts = [t1, t2]" by (auto simp: length_Suc_conv)
  with ts(2) docs evs r show ?thesis
    by (intro exI [of _ "snd (the ?r)"] exI [of _ t1] exI [of _ t2]) (simp add: event_docs_def)
qed

section \<open>A run and its batch\<close>



end
