(* ===== verification/Worker_Run.thy ===== *)
theory Worker_Run
  imports Worker Session_Results
begin

text \<open>
  What a work item comes to: the worker returns, the number of attempts is bounded by the retry
  limit, the result is the one of the last attempt, and what the verification of a run can say when
  its events are read back from Mongo.
\<close>

section \<open>Termination\<close>

lemma env_of_simps [simp]:
  "te_store (env_of wk) = wk_store wk" "te_tracker (env_of wk) = Some (wk_tracker wk)"
  "te_notifier (env_of wk) = wk_notifier wk" "te_bus (env_of wk) = wk_bus wk"
  "te_now (env_of wk) = wk_now wk" "te_metric (env_of wk) = wk_metric wk"
  by (simp_all add: env_of_def)

lemma executeAndVerify_returns:
  assumes "drains left (env_of wk) cp"
  shows "executeAndVerify wk c b repo ref ei vi cp w \<noteq> None"
  using tasks_return [OF assms]
  by (simp add: executeAndVerify_def Let_def del: not_None_eq split: option.split prod.split)

lemma single_attempt_returns:
  assumes "drains left (env_of wk) cp"
  shows "single_attempt wk c rc repo item cp lim n b s \<noteq> None"
  using executeAndVerify_returns [OF assms]
  by (simp add: single_attempt_def Let_def del: not_None_eq split: option.split prod.split)

lemma attempt_loop_returns:
  assumes "drains left (env_of wk) cp"
  shows "attempt_loop wk c rc repo item cp lim n b s \<noteq> None"
  using assms
proof (induction wk c rc repo item cp lim n b s rule: attempt_loop.induct)
  case (1 wk c rc repo item cp lim n b s)
  obtain a b1 s1 where at: "single_attempt wk c rc repo item cp lim (n + 1) b s = Some (a, b1, s1)"
    using single_attempt_returns [OF 1(2)] by (metis not_None_eq prod_cases3)
  show ?case
  proof (cases a)
    case (AttemptDone r)
    with at show ?thesis by (simp add: attempt_loop.simps)
  next
    case AttemptRetry
    with 1 at show ?thesis by (subst attempt_loop.simps) simp
  qed
qed

text \<open>The clients a worker may start a session with.\<close>

definition worker_clients :: "'w worker \<Rightarrow> 'w wstate \<Rightarrow> 'w copilot_client set" where
  "worker_clients wk s =
     {wk_newCodex wk, wk_newGitHub wk} \<union> set_option (ws_codexClient s) \<union> set_option (ws_githubClient s)"

lemma worker_clients_on_world: "on_world f s = (a, s') \<Longrightarrow> worker_clients wk s' = worker_clients wk s"
  by (auto simp: on_world_def worker_clients_def split: prod.splits)

lemma worker_clients_notify [simp]: "worker_clients wk (notifyTaskEvent wk' c ev s) = worker_clients wk s"
  unfolding notifyTaskEvent_def by (metis worker_clients_on_world prod.collapse)

lemma worker_clients_title: "taskTitle wk' c repo ref s = (t, s') \<Longrightarrow> worker_clients wk s' = worker_clients wk s"
  by (auto simp: taskTitle_def Let_def worker_clients_def on_world_def split: if_splits option.splits prod.splits sum.splits)

lemma clientForRuntime_client:
  "clientForRuntime wk rt s = (Inr cp, s') \<Longrightarrow> cp \<in> worker_clients wk s"
  by (auto simp: clientForRuntime_def Let_def worker_clients_def split: if_splits option.splits)

lemma process_task_returns:
  assumes "\<forall>cp \<in> worker_clients wk s. drains left (env_of wk) cp"
  shows "process_task wk c item b repo s \<noteq> None"
proof -
  obtain t s1 where ti: "taskTitle wk c repo (wi_TaskRef item) s = (t, s1)" by fastforce
  let ?s2 = "notifyTaskEvent wk c (task_event ''task_received'' (wi_BatchID item) (wi_TaskRef item) t ''pending'' 0 0 []) s1"
  obtain b1 s3 where sb: "on_world (setBatchStatus (wk_store wk) c b BatchStatusInProgress) ?s2 = (b1, s3)" by fastforce
  let ?s4 = "notifyTaskEvent wk c (task_event ''task_started'' (wi_BatchID item) (wi_TaskRef item) t ''running'' 0 0 []) s3"
  obtain x s5 where cl: "clientForRuntime wk (wi_Runtime item) ?s4 = (x, s5)" by fastforce
  have cls: "worker_clients wk ?s4 = worker_clients wk s"
    using worker_clients_title [OF ti, of wk] worker_clients_on_world [OF sb, of wk] by simp
  show ?thesis
  proof (cases x)
    case (Inl e)
    with ti sb cl show ?thesis by (simp add: process_task_def Let_def)
  next
    case (Inr cp)
    with clientForRuntime_client [of wk _ ?s4 cp s5] cl cls assms have "drains left (env_of wk) cp" by auto
    from attempt_loop_returns [OF this] have "handleSingleTask wk c b1 repo item cp s5 \<noteq> None"
      by (simp add: handleSingleTask_def)
    with ti sb cl Inr show ?thesis by (auto simp: process_task_def Let_def)
  qed
qed

lemma Process_not_None:
  assumes "\<forall>cp \<in> worker_clients wk s. drains left (env_of wk) cp"
  shows "worker_Process wk c item s \<noteq> None"
proof -
  have task: "process_task wk c it b repo s2 \<noteq> None"
    if "on_world g s1 = (y, s2)" and "on_world f s = (x, s1)" for it b repo g s1 y s2 f x
    using process_task_returns [of wk s2 left] assms that worker_clients_on_world [of _ _ _ _ wk] by metis
  show ?thesis
    unfolding worker_Process_def Let_def
    by (simp del: not_None_eq split: prod.split sum.split) (intro allI impI, rule task; assumption)
qed

text \<open>
  C22: Process returns.  If the sessions of every client of the worker send finitely many events, a
  work item is processed to an end, whatever the store, the tracker and the notifier report, whatever
  the verifications say and whatever retry limit is configured.
\<close>

theorem Process_returns:
  assumes "\<forall>cp \<in> worker_clients wk s. drains left (env_of wk) cp"
  shows "\<exists>r s'. worker_Process wk c item s = Some (r, s')"
  using Process_not_None [OF assms] by (metis not_None_eq prod.collapse)

section \<open>Attempts\<close>

text \<open>The attempts that were retried, from \<open>n\<close> attempts on.\<close>

inductive retried ::
    "'w worker \<Rightarrow> ctx \<Rightarrow> ctx \<Rightarrow> string \<Rightarrow> work_item \<Rightarrow> 'w copilot_client \<Rightarrow> int \<times> bool \<Rightarrow> int \<Rightarrow> batch \<Rightarrow> 'w wstate \<Rightarrow>
       int \<Rightarrow> batch \<Rightarrow> 'w wstate \<Rightarrow> bool"
  for wk :: "'w worker" and c rc :: ctx and repo :: string and item :: work_item
    and cp :: "'w copilot_client" and lim :: "int \<times> bool" where
  retried_none: "retried wk c rc repo item cp lim n b s n b s"
| retried_one: "single_attempt wk c rc repo item cp lim (n + 1) b s = Some (AttemptRetry, b1, s1) \<Longrightarrow>
     retried wk c rc repo item cp lim (n + 1) b1 s1 k b2 s2 \<Longrightarrow> retried wk c rc repo item cp lim n b s k b2 s2"

lemma retried_bound: "retried wk c rc repo item cp lim n b s k b' s' \<Longrightarrow> n \<le> k \<and> (n < k \<longrightarrow> snd lim \<and> k < fst lim)"
proof (induction rule: retried.induct)
  case (retried_one n b s b1 s1 k b2 s2)
  with single_attempt_retry [OF retried_one(1)] show ?case by (cases "n + 1 = k") auto
qed simp

lemma attempt_loop_retried:
  assumes "attempt_loop wk c rc repo item cp lim n b s = Some (r, b', s')"
  shows "\<exists>k b1 s1. retried wk c rc repo item cp lim n b s k b1 s1 \<and>
     single_attempt wk c rc repo item cp lim (k + 1) b1 s1 = Some (AttemptDone r, b', s')"
  using assms
proof (induction wk c rc repo item cp lim n b s rule: attempt_loop.induct)
  case (1 wk c rc repo item cp lim n b s)
  then obtain a b1 s1 where at: "single_attempt wk c rc repo item cp lim (n + 1) b s = Some (a, b1, s1)"
    by (auto simp: attempt_loop.simps [of wk] split: option.splits)
  show ?case
  proof (cases a)
    case (AttemptDone q)
    with at 1(2) show ?thesis
      by (intro exI [of _ n] exI [of _ b] exI [of _ s]) (simp add: attempt_loop.simps [of wk] retried_none)
  next
    case AttemptRetry
    with at 1(2) have "attempt_loop wk c rc repo item cp lim (n + 1) b1 s1 = Some (r, b', s')"
      by (subst (asm) attempt_loop.simps) simp
    with 1(1) at AttemptRetry obtain k b2 s2 where "retried wk c rc repo item cp lim (n + 1) b1 s1 k b2 s2"
      "single_attempt wk c rc repo item cp lim (k + 1) b2 s2 = Some (AttemptDone r, b', s')" by blast
    with at AttemptRetry show ?thesis by (blast intro: retried_one)
  qed
qed

text \<open>No run, no task and no attempt reports success with an error, or a failure without one.\<close>

definition err_matches :: "task_run_status \<Rightarrow> go_error option \<Rightarrow> bool" where
  "err_matches s e \<longleftrightarrow> (e = None \<longleftrightarrow> s = TaskRunStatusSucceeded)"

lemma finish_run_err:
  "finish_run env c b run t s e w = ((s', e'), b', w') \<Longrightarrow> err_matches s e \<Longrightarrow> err_matches s' e'"
  by (auto simp: finish_run_def err_matches_def Let_def split: if_splits prod.splits option.splits)

lemma executeTask_err:
  assumes "executeTask env cp c repo nr b ref p w = Some ((s, e), b', w')"
  shows "err_matches s e"
proof -
  have loop: "err_matches s1 e1" if "event_loop env cp c b rid ref sid h v = Some ((s1, e1), v')" for rid sid h v s1 e1 v'
    using event_loop_ends [OF that] by (auto simp: err_matches_def dest: session_end_status)
  from assms show ?thesis
    by (auto simp: executeTask_def Let_def start_failed_def split: prod.splits sum.splits option.splits
        dest: loop finish_run_err) (simp_all add: err_matches_def)
qed

lemma execute_with_output_err:
  "execute_with_output ex env cp c repo nr b ref p w = Some ((s, out, e), b', w') \<Longrightarrow> err_matches s e"
  by (auto simp: execute_with_output_def Let_def split: prod.splits option.splits dest: executeTask_err)

lemma task_err:
  "ExecutionTask_Execute fmt env tr cp t c b taskID w = Some ((s, out, e), b', w') \<Longrightarrow> err_matches s e"
  "VerificationTask_Execute fmt env cp cfg et ins c b taskID w = Some ((s, out, e), b', w') \<Longrightarrow> err_matches s e"
  by (auto simp: ExecutionTask_Execute_def VerificationTask_Execute_def executeTaskWithAssistantMessages_def
      executeTaskWithStructuredOutput_def Let_def split: option.splits sum.splits prod.splits
      dest: execute_with_output_err) (simp_all add: err_matches_def)

lemma executeAndVerify_err:
  "executeAndVerify wk c b repo ref ei vi cp w = Some ((s, resp, ao, out, e), b', w') \<Longrightarrow> err_matches s e"
  by (auto simp: executeAndVerify_def Let_def split: option.splits prod.splits if_splits dest: task_err)

text \<open>The result of an attempt that ends the loop, given the outcome of its two sessions.\<close>

definition attempt_final :: "attempt_outcome \<Rightarrow> go_error option" where
  "attempt_final q =
     (case q of (vs, resp, ao, out, err) \<Rightarrow>
        if err \<noteq> None then err
        else if ar_Status resp = ''failure''
        then Some (Errorf (''verification failed: '' @ formatAgentResponseText resp out))
        else None)"

text \<open>The two sessions of attempt number \<open>n\<close>, which its notification precedes.\<close>

definition sessions_of ::
    "'w worker \<Rightarrow> ctx \<Rightarrow> string \<Rightarrow> work_item \<Rightarrow> 'w copilot_client \<Rightarrow> int \<Rightarrow> batch \<Rightarrow> 'w wstate \<Rightarrow>
       (attempt_outcome \<times> batch \<times> 'w) option" where
  "sessions_of wk rc repo item cp n b s =
     executeAndVerify wk rc b repo (wi_TaskRef item) (''Work on task '' @ wi_TaskRef item)
       (''Verify task '' @ wi_TaskRef item) cp
       (ws_world (announce wk rc repo (wi_BatchID item) (wi_TaskRef item) ''attempt_started'' ''in_progress'' n 0 [] s))"

lemma single_attempt_done:
  assumes "single_attempt wk c rc repo item cp lim n b s = Some (AttemptDone r, b', s')"
  shows "\<exists>q b1 w1. sessions_of wk rc repo item cp n b s = Some (q, b1, w1) \<and> r = attempt_final q"
proof -
  obtain vs resp ao out e b1 w1 where q: "sessions_of wk rc repo item cp n b s = Some ((vs, resp, ao, out, e), b1, w1)"
    using assms by (auto simp: single_attempt_def sessions_of_def Let_def split: option.splits)
  have "err_matches vs e" by (rule executeAndVerify_err [OF q [unfolded sessions_of_def]])
  with assms q have "r = attempt_final (vs, resp, ao, out, e)"
    by (auto simp: single_attempt_def sessions_of_def attempt_final_def err_matches_def Let_def
        split: option.splits prod.splits if_splits)
  with q show ?thesis by blast
qed

lemma single_attempt_again:
  assumes "single_attempt wk c rc repo item cp lim n b s = Some (AttemptRetry, b', s')"
  shows "\<exists>vs resp ao out b1 w1. sessions_of wk rc repo item cp n b s = Some ((vs, resp, ao, out, None), b1, w1) \<and>
    ar_Status resp = ''failure''"
  using assms
  by (auto simp: single_attempt_def sessions_of_def Let_def split: option.splits prod.splits if_splits)

text \<open>
  C6: What a task comes to.  The attempts before the last were retried, so there are at most as many
  as the configured limit, and exactly one when there is none or it is not positive.  The result is that of the
  last attempt: the error of its sessions when there was one, the verification failure when the
  verification answered so, and success otherwise.  (The third error of the code, for a verification
  that did not succeed, cannot occur.)
\<close>

theorem handleSingleTask_outcome:
  assumes "handleSingleTask wk c b repo item cp s = Some (r, b', s')"
    and "rc = withRunTimeout (lib_ParseDuration (wk_lib wk)) c (Some (wk_cfg wk))"
    and "lim = parseMaxRetries (wk_cfg wk)"
  shows "\<exists>k b1 s1 q b2 w2. retried wk c rc repo item cp lim 0 b s k b1 s1 \<and>
    1 \<le> k + 1 \<and> k + 1 \<le> (if snd lim then max 1 (fst lim) else 1) \<and>
    sessions_of wk rc repo item cp (k + 1) b1 s1 = Some (q, b2, w2) \<and> r = attempt_final q"
proof -
  have "attempt_loop wk c rc repo item cp lim 0 b s = Some (r, b', s')"
    using assms by (simp add: handleSingleTask_def)
  from attempt_loop_retried [OF this] obtain k b1 s1 where k: "retried wk c rc repo item cp lim 0 b s k b1 s1"
    and d: "single_attempt wk c rc repo item cp lim (k + 1) b1 s1 = Some (AttemptDone r, b', s')" by blast
  from single_attempt_done [OF d] obtain q b2 w2 where
    q: "sessions_of wk rc repo item cp (k + 1) b1 s1 = Some (q, b2, w2)" "r = attempt_final q" by blast
  from retried_bound [OF k] have "1 \<le> k + 1 \<and> k + 1 \<le> (if snd lim then max 1 (fst lim) else 1)" by auto
  with k q show ?thesis by blast
qed

section \<open>What a verification can say\<close>

text \<open>The driver builds the nested documents of what it decodes in the type of the map around them.\<close>

definition decodes_nested :: "'m driver \<Rightarrow> bool" where
  "decodes_nested drv \<longleftrightarrow>
     (\<forall>c k f s l m cur m' e. Find drv c k f s l m = (Inr cur, m') \<longrightarrow> Inr (DocEvent e) \<in> set (fst cur) \<longrightarrow>
        (\<exists>e0. e = bson_event e0))"

lemma map_of_bson: "map_of (map (map_prod id bson_value) xs) k = map_option bson_value (map_of xs k)"
  by (induction xs) auto

lemma bson_value_object: "bson_value j \<noteq> JObject m"
  by (cases j) auto

lemma bson_no_message: "message_content (bson_event e) = None"
  by (auto simp: message_content_def bson_event_def map_of_bson bson_value_object split: option.splits json.splits)

lemma decoded_no_messages:
  assumes "decodes_nested drv" and "mongo_ListSessionEvents drv c i w = (Inr evs, w')"
  shows "assistantMessageContents evs = []"
proof -
  have "message_content x = None" if "x \<in> set evs" for x
  proof -
    from mongo_list_mem [OF assms(2) [unfolded mongo_ListSessionEvents_def] that] obtain cur m1 d where
      f: "Find drv (withTimeout c) sessionEventsCollection [(''session_id'', BEq i)] (''ingested_at'', 1) None w = (Inr cur, m1)"
      and d: "Inr d \<in> set (fst cur)" "as_event d = Inr x" by blast
    have "d = DocEvent x" using d(2) by (cases d) simp_all
    with d(1) f assms(1) obtain e0 where "x = bson_event e0" unfolding decodes_nested_def by blast
    then show ?thesis by (simp add: bson_no_message)
  qed
  then show ?thesis by (simp add: assistantMessageContents_def List.map_filter_def filter_empty_conv)
qed

lemma read_output_decoded:
  assumes "decodes_nested drv" and "te_store env = mongo_storage drv"
    and "\<And>evs. assistantMessageContents evs = [] \<Longrightarrow> ex evs = []"
  shows "fst (read_output env c rid ex w) = []"
  using assms decoded_no_messages [OF assms(1)]
  by (auto simp: read_output_def mongo_storage_def split: prod.splits sum.splits)

lemma execute_with_output_decoded:
  assumes "decodes_nested drv" and "te_store env = mongo_storage drv"
    and "\<And>evs. assistantMessageContents evs = [] \<Longrightarrow> ex evs = []"
    and "execute_with_output ex env cp c repo nr b ref p w = Some ((s, out, e), b', w')"
  shows "out = []"
proof -
  have "fst (read_output env c rid ex v) = []" for rid v by (rule read_output_decoded [OF assms(1-3)])
  with assms(4) show ?thesis
    by (auto simp: execute_with_output_def Let_def split: prod.splits option.splits) (metis fst_conv)
qed

lemma tasks_decoded:
  assumes "decodes_nested drv" and "te_store env = mongo_storage drv"
  shows "ExecutionTask_Execute fmt env tr cp t c b i w = Some ((s, out, e), b', w') \<Longrightarrow> out = []"
    and "VerificationTask_Execute fmt env cp cfg et ins c b i w = Some ((s, out, e), b', w') \<Longrightarrow> out = []"
  using execute_with_output_decoded [OF assms, of latestAssistantMessageContent]
    execute_with_output_decoded [OF assms, of "\<lambda>evs. Join (assistantMessageContents evs) [CHR 0x0A]"]
  by (auto simp: ExecutionTask_Execute_def VerificationTask_Execute_def executeTaskWithAssistantMessages_def
      executeTaskWithStructuredOutput_def latestAssistantMessageContent_def Let_def
      split: option.splits sum.splits prod.splits)

lemma sessions_decoded:
  assumes "decodes_nested drv" and "wk_store wk = mongo_storage drv"
    and "lib_UnmarshalResponse (wk_lib wk) [] = no_response"
    and "sessions_of wk rc repo item cp n b s = Some ((vs, resp, ao, out, e), b', w')"
  shows "resp = no_response" and "ao = []" and "out = []"
proof -
  have st: "te_store (env_of wk) = mongo_storage drv" using assms(2) by simp
  from assms(3,4) show "resp = no_response" and "ao = []" and "out = []"
    by (auto simp: sessions_of_def executeAndVerify_def Let_def split: option.splits prod.splits if_splits
        dest!: tasks_decoded [OF assms(1) st])
qed


section \<open>The timeouts of the phases\<close>

text \<open>The timeouts that a context runs under, the innermost first.\<close>

fun deadlines :: "ctx \<Rightarrow> int list" where
  "deadlines (CtxBase n) = []"
| "deadlines (CtxWithoutCancel c) = []"
| "deadlines (CtxWithCancel c) = deadlines c"
| "deadlines (CtxWithTimeout d c) = d # deadlines c"
| "deadlines (CtxPhase p c) = deadlines c"
| "deadlines (CtxTimeout t c) = deadlines c"

text \<open>
  What a timed out phase reports.  With the run timeout \<open>R\<close> and the timeout \<open>d\<close> of the phase
  configured, the context of the phase runs under those of the two that are positive, it is labelled
  with the phase, and the timeout it reports is the one that expires first.
\<close>

theorem phase_timeout_reported:
  assumes "cfg TaskRunTimeoutKey = Inr rv" and "ParseDuration (TrimSpace rv) = Some R"
    and "cfg key = Inr v" and "ParseDuration (TrimSpace v) = Some d"
    and "phase \<noteq> []" and "0 < R \<or> 0 < d"
    and "pc = phase_context ParseDuration cfg key phase (withRunTimeout ParseDuration c (Some cfg))"
  shows "timeoutPhase pc = phase \<and>
    timeoutValue pc = (if 0 < R \<and> 0 < d then min R d else max R d) \<and>
    deadlines pc = (if 0 < d then [d] else []) @ (if 0 < R then [R] else []) @ deadlines c"
  using assms
  by (auto simp: phase_context_def withRunTimeout_def withTimeoutMetadata_def timeoutValue_def timeoutPhase_def
      Let_def min_def max_def)

section \<open>Concrete workers\<close>

text \<open>
  A worker over the demo world.  Its library parses the two durations of its configuration and takes
  every answer that is not empty for a failed verification.
\<close>

definition demo_lib :: go_lib where
  "demo_lib =
     \<lparr>lib_Sprintf = (\<lambda>f a. f), lib_Quote = (\<lambda>q. q),
      lib_ParseDuration = (\<lambda>v. if v = ''1h'' then Some (3600 * 10 ^ 9) else if v = ''20m'' then Some (1200 * 10 ^ 9) else None),
      lib_UnmarshalResponse = (\<lambda>v. if v = [] then no_response
        else \<lparr>ar_Status = ''failure'', ar_Reason = v, ar_Details = []\<rparr>)\<rparr>"

definition demo_cfg :: config where
  "demo_cfg k =
     (if k = MaxRetriesKey then Inr ''2''
      else if k = TaskRunTimeoutKey then Inr ''1h''
      else if k = TaskExecTimeoutKey \<or> k = TaskVerifyTimeoutKey then Inr '' 20m ''
      else if k = ExecutionTaskPromptKey \<or> k = VerificationTaskPromptKey then Inr ''prompt''
      else Inl (Errorf ''missing''))"

definition demo_tracker :: "'w tracker" where
  "demo_tracker =
     \<lparr>AddComment = (\<lambda>c r i t w. (None, w)), FetchComments = (\<lambda>c r i w. (Inr [], w)),
      GetTitle = (\<lambda>c r i w. (Inr ''Title'', w))\<rparr>"

definition demo_worker :: "list_db driver \<Rightarrow> demo_state worker" where
  "demo_worker drv =
     \<lparr>wk_lib = demo_lib, wk_cfg = demo_cfg, wk_tracker = demo_tracker,
      wk_store = mongo_storage (lift_driver drv), wk_notifier = noop_notifier, wk_bus = None,
      wk_now = on_db (Now list_driver), wk_newRunID = demo_run_id,
      wk_metric = (\<lambda>p w. w), wk_newCodex = demo_client, wk_newGitHub = demo_client\<rparr>"

definition demo_item :: work_item where
  "demo_item = \<lparr>wi_BatchID = '' batch-1'', wi_TaskRef = ''yr-1'', wi_AgentID = ''agent-1'', wi_Runtime = ''Codex''\<rparr>"

text \<open>A session that says something and ends, and the two sessions of an attempt.\<close>

definition demo_talk :: "string \<Rightarrow> select_result list" where
  "demo_talk t = [SelEvent (demo_message t), SelEvent demo_idle]"

definition demo_ws :: "list_db driver \<Rightarrow> select_result list list \<Rightarrow> demo_state wstate" where
  "demo_ws drv scripts = NewWorker (demo_worker drv) None (demo_state0 scripts)"

text \<open>A driver that decodes as the Mongo driver does.\<close>

definition decoding_driver :: "list_db driver" where
  "decoding_driver =
     list_driver\<lparr>Find := (\<lambda>c k f s l m. (Inr (map (Inr \<circ> bson_doc) (find_docs f s l (db_docs m k)), None), m))\<rparr>"

lemma decoding_driver_nested: "decodes_nested (lift_driver decoding_driver)"
proof -
  have "\<exists>e0. e = bson_event e0" if "DocEvent e = bson_doc d" for e d
    using that by (cases d) auto
  then show ?thesis by (auto simp: decodes_nested_def lift_driver_def on_db_eq decoding_driver_def)
qed

lemma demo_worker_simps [simp]:
  "wk_store (demo_worker drv) = mongo_storage (lift_driver drv)"
  "wk_lib (demo_worker drv) = demo_lib" "wk_cfg (demo_worker drv) = demo_cfg"
  by (simp_all add: demo_worker_def)

lemma demo_worker_drains: "drains (\<lambda>w. length (dm_current w)) (env_of (demo_worker drv)) demo_client"
  by (auto simp: drains_def demo_worker_def env_of_def) (auto simp: demo_client_def split: list.splits)

lemma demo_worker_clients: "worker_clients (demo_worker drv) (demo_ws drv' scripts) = {demo_client}"
  by (simp add: worker_clients_def demo_ws_def NewWorker_def demo_worker_def)

theorem Process_returns_witness:
  "\<exists>r s'. worker_Process (demo_worker list_driver) (CtxBase 0) demo_item
     (demo_ws list_driver [demo_talk ''done'', demo_talk ''no'', demo_talk ''done'', demo_talk ''no'']) = Some (r, s')"
  using Process_returns [of "demo_worker list_driver" "demo_ws list_driver [demo_talk ''done'', demo_talk ''no'', demo_talk ''done'', demo_talk ''no'']"
      "\<lambda>w. length (dm_current w)"] demo_worker_drains
  by (simp add: demo_worker_clients)

theorem phase_timeout_reported_witness:
  "timeoutValue (phase_context (lib_ParseDuration demo_lib) demo_cfg TaskExecTimeoutKey ''execute''
     (withRunTimeout (lib_ParseDuration demo_lib) (CtxBase 0) (Some demo_cfg))) = 1200 * 10 ^ 9"
proof -
  have a: "demo_cfg TaskRunTimeoutKey = Inr ''1h''" "lib_ParseDuration demo_lib (TrimSpace ''1h'') = Some (3600 * 10 ^ 9)"
    "demo_cfg TaskExecTimeoutKey = Inr '' 20m ''" "lib_ParseDuration demo_lib (TrimSpace '' 20m '') = Some (1200 * 10 ^ 9)"
    by code_simp+
  from phase_timeout_reported [OF a, of "''execute''" _ "CtxBase 0", OF _ _ refl] show ?thesis by simp
qed


text \<open>Two attempts whose verifications may both say no: the limit is two.\<close>

theorem handleSingleTask_outcome_witness:
  "\<exists>r b' s' k b1 s1 q. handleSingleTask (demo_worker list_driver) (CtxBase 0) demo_batch ''/r'' demo_item demo_client
       (demo_ws list_driver [demo_talk ''done'', demo_talk ''no'', demo_talk ''done'', demo_talk ''no'']) = Some (r, b', s') \<and>
     retried (demo_worker list_driver) (CtxBase 0)
       (withRunTimeout (lib_ParseDuration demo_lib) (CtxBase 0) (Some demo_cfg)) ''/r'' demo_item demo_client (2, True) 0
       demo_batch (demo_ws list_driver [demo_talk ''done'', demo_talk ''no'', demo_talk ''done'', demo_talk ''no'']) k b1 s1 \<and>
     k + 1 \<le> 2 \<and> r = attempt_final q"
proof -
  let ?wk = "demo_worker list_driver"
  let ?s = "demo_ws list_driver [demo_talk ''done'', demo_talk ''no'', demo_talk ''done'', demo_talk ''no'']"
  have "handleSingleTask ?wk (CtxBase 0) demo_batch ''/r'' demo_item demo_client ?s \<noteq> None"
    unfolding handleSingleTask_def by (rule attempt_loop_returns [OF demo_worker_drains])
  then obtain r b' s' where h: "handleSingleTask ?wk (CtxBase 0) demo_batch ''/r'' demo_item demo_client ?s = Some (r, b', s')"
    by (metis not_None_eq prod_cases3)
  have lim: "parseMaxRetries demo_cfg = (2, True)" by code_simp
  from handleSingleTask_outcome [OF h refl refl] h show ?thesis by (fastforce simp: lim)
qed


end
