(* ===== verification/Service_Worker.thy ===== *)
theory Service_Worker
  imports Service Worker_Run
begin

text \<open>
  The worker inside the service: what \<^verbatim>\<open>Process\<close> does to the stored batches is a sequence of the
  worker's steps of the interleaved system, so a tick with the real worker is one too, and the
  invariants of the system hold with it.
\<close>

section \<open>The copy of the batch\<close>

text \<open>
  The steps that lead from the copy \<open>b1\<close> in the world \<open>w1\<close> to the copy \<open>b2\<close> in the world \<open>w2\<close>, while
  item \<open>n\<close> of \<open>b\<close> is running.
\<close>

definition copy_steps ::
    "('m \<Rightarrow> string \<Rightarrow> doc list) \<Rightarrow> int \<Rightarrow> batch \<Rightarrow> nat \<Rightarrow> batch list \<Rightarrow> batch \<Rightarrow> 'm \<Rightarrow> batch \<Rightarrow> 'm \<Rightarrow> bool" where
  "copy_steps docs mr b n ws b1 w1 b2 w2 \<longleftrightarrow>
     sv_steps mr (sv_view docs w1 (Running b n (Some (batch_core b1))) ws)
                 (sv_view docs w2 (Running b n (Some (batch_core b2))) ws) \<and>
     (items_set (batch_Items b1) \<longrightarrow> items_set (batch_Items b2))"

lemma copy_keep: "docs w2 = docs w1 \<Longrightarrow> copy_steps docs mr b n ws b1 w1 b1 w2"
  by (simp add: copy_steps_def sv_view_def view_frames(1) [of docs w2 w1] sv_refl)

lemma copy_trans:
  assumes "copy_steps docs mr b n ws b1 w1 b2 w2" and "copy_steps docs mr b n ws b2 w2 b3 w3"
  shows "copy_steps docs mr b n ws b1 w1 b3 w3"
  using assms unfolding copy_steps_def by (blast intro: sv_steps_append)

text \<open>A change of the status that is written, or lost.\<close>

lemma copy_status:
  assumes "batch_core b2 = batch_core (b1\<lparr>batch_Status := st\<rparr>)"
    and "st \<in> {BatchStatusInProgress, BatchStatusPending, BatchStatusFailed}"
    and "batch_view docs w2 = batch_view docs w1 \<or>
      batch_view docs w2 = (batch_view docs w1)(batch_ID b1 \<mapsto> batch_core b2)"
  shows "copy_steps docs mr b n ws b1 w1 b2 w2"
proof -
  let ?s = "sv_view docs w1 (Running b n (Some (batch_core b1))) ws"
  have core: "batch_core b2 = (batch_core b1)\<lparr>batch_Status := st\<rparr>" using assms(1) by (simp add: batch_core_update)
  have "sv_step mr ?s (sv_view docs w2 (Running b n (Some (batch_core b2))) ws)"
    using assms(3)
  proof
    assume "batch_view docs w2 = batch_view docs w1"
    then show ?thesis
      using sv_work_lost [of ?s b n "batch_core b1" st mr] assms(2) by (simp add: sv_view_def core)
  next
    assume "batch_view docs w2 = (batch_view docs w1)(batch_ID b1 \<mapsto> batch_core b2)"
    then show ?thesis
      using sv_work_status [of ?s b n "batch_core b1" st mr] assms(2) by (simp add: sv_view_def store_batch_def core)
  qed
  moreover have "batch_Items b2 = batch_Items b1" using batch_core_eqD(2) [OF assms(1)] by simp
  ultimately show ?thesis by (simp add: copy_steps_def sv_steps_single)
qed

lemma copy_setBatchStatus:
  assumes "driver_ok drv docs" and "setBatchStatus (mongo_storage drv) c b1 st w1 = (b2, w2)"
    and "items_set (batch_Items b1)" and "st \<in> {BatchStatusInProgress, BatchStatusPending, BatchStatusFailed}"
  shows "copy_steps docs mr b n ws b1 w1 b2 w2"
  using run_store.setBatchStatus_batch [OF mongo_run_store [OF assms(1)] assms(2,3)] assms(4) by (blast intro: copy_status)

lemma copy_settled:
  assumes "settled (batch_view docs) b1 w1 r b2 w2"
  shows "copy_steps docs mr b n ws b1 w1 b2 w2"
proof (cases "fst r = TaskRunStatusSucceeded")
  case True
  with assms have "batch_core b2 = batch_core b1" "batch_view docs w2 = batch_view docs w1"
    by (auto simp: settled_def status_after_def)
  then show ?thesis
    using batch_core_eqD(2) [of b2 b1] by (simp add: copy_steps_def sv_view_def sv_refl)
next
  case False
  with assms have "batch_core b2 = batch_core (b1\<lparr>batch_Status := status_after (fst r) (batch_Status b1)\<rparr>)"
    "status_after (fst r) (batch_Status b1) \<in> {BatchStatusInProgress, BatchStatusPending, BatchStatusFailed}"
    "batch_view docs w2 = batch_view docs w1 \<or> batch_view docs w2 = (batch_view docs w1)(batch_ID b1 \<mapsto> batch_core b2)"
    by (simp_all only: settled_def) (auto simp: status_after_def)
  then show ?thesis by (rule copy_status)
qed

section \<open>What the rest of the worker leaves alone\<close>

text \<open>Nothing but the store touches the documents.\<close>

definition worker_keeps :: "('w \<Rightarrow> string \<Rightarrow> doc list) \<Rightarrow> 'w worker \<Rightarrow> bool" where
  "worker_keeps docs wk \<longleftrightarrow>
     (\<forall>w. docs (snd (wk_newRunID wk w)) = docs w) \<and>
     (\<forall>c r i t w. docs (snd (AddComment (wk_tracker wk) c r i t w)) = docs w) \<and>
     (\<forall>c r i w. docs (snd (FetchComments (wk_tracker wk) c r i w)) = docs w) \<and>
     (\<forall>c r i w. docs (snd (GetTitle (wk_tracker wk) c r i w)) = docs w) \<and>
     (\<forall>c e w. docs (snd (NotifyEvent (wk_notifier wk) c e w)) = docs w) \<and>
     (\<forall>c b r t e w. docs (snd (NotifyError (wk_notifier wk) c b r t e w)) = docs w)"

lemma worker_keepsD:
  assumes "worker_keeps docs wk"
  shows "\<forall>w. docs (snd (wk_newRunID wk w)) = docs w"
    and "\<forall>w. docs (snd (AddComment (wk_tracker wk) c r i t w)) = docs w"
    and "\<forall>w. docs (snd (FetchComments (wk_tracker wk) c r i w)) = docs w"
    and "\<forall>w. docs (snd (GetTitle (wk_tracker wk) c r i w)) = docs w"
    and "\<forall>w. docs (snd (NotifyEvent (wk_notifier wk) c e w)) = docs w"
    and "\<forall>w. docs (snd (NotifyError (wk_notifier wk) c r i t err w)) = docs w"
  using assms by (simp_all add: worker_keeps_def)

lemma on_world_docs: "\<forall>w. docs (snd (f w)) = docs w \<Longrightarrow> on_world f s = (a, s') \<Longrightarrow> docs (ws_world s') = docs (ws_world s)"
  by (auto simp: on_world_def split: prod.splits) (metis snd_conv)

lemma notify_docs:
  assumes "worker_keeps docs wk"
  shows "docs (ws_world (notifyTaskEvent wk c e s)) = docs (ws_world s)"
proof -
  have "\<forall>w. docs (snd (NotifyEvent (wk_notifier wk) c ev w)) = docs w" for ev
    by (rule worker_keepsD(5) [OF assms])
  then show ?thesis unfolding notifyTaskEvent_def by (metis on_world_docs prod.collapse)
qed

lemma title_docs:
  assumes "worker_keeps docs wk" and "taskTitle wk c repo ref s = (t, s')"
  shows "docs (ws_world s') = docs (ws_world s)"
proof -
  have "\<forall>w. docs (snd (GetTitle (wk_tracker wk) c repo (TrimSpace ref) w)) = docs w"
    by (rule worker_keepsD(4) [OF assms(1)])
  then show ?thesis
    using assms(2) by (auto simp: taskTitle_def Let_def split: if_splits option.splits prod.splits sum.splits dest: on_world_docs)
qed

lemma announce_docs:
  assumes "worker_keeps docs wk"
  shows "docs (ws_world (announce wk c repo bid ref typ st k m d s)) = docs (ws_world s)"
  using notify_docs [OF assms] title_docs [OF assms] by (auto simp: announce_def split: prod.split)

section \<open>The sessions of an attempt\<close>

lemma read_output_docs:
  assumes "driver_ok drv docs" and "te_store env = mongo_storage drv" and "read_output env c rid ex w = (x, w')"
  shows "docs w' = docs w"
  using assms(2,3) mongo_get_docs [OF assms(1)] mongo_list_docs [OF assms(1)]
  by (fastforce simp: read_output_def mongo_storage_def mongo_GetTaskRun_def mongo_ListSessionEvents_def
      split: if_splits prod.splits sum.splits)

text \<open>A worker whose store is the Mongo client, with a client, over documents nothing else touches.\<close>

definition worker_on ::
    "'w driver \<Rightarrow> ('w \<Rightarrow> string \<Rightarrow> doc list) \<Rightarrow> 'w worker \<Rightarrow> 'w copilot_client \<Rightarrow> bool" where
  "worker_on drv docs wk cp \<longleftrightarrow>
     driver_ok drv docs \<and> wk_store wk = mongo_storage drv \<and> worker_keeps docs wk \<and> keeps_view docs (env_of wk) cp"

lemma execute_with_output_copy:
  assumes "worker_on drv docs wk cp"
    and "execute_with_output ex (env_of wk) cp c repo (wk_newRunID wk) b1 ref p w1 = Some (q, b2, w2)"
    and set: "items_set (batch_Items b1)"
  shows "copy_steps docs mr b n ws b1 w1 b2 w2"
proof -
  have ok: "driver_ok drv docs" and st: "te_store (env_of wk) = mongo_storage drv"
    and kv: "keeps_view docs (env_of wk) cp" and nr: "\<And>w. docs (snd (wk_newRunID wk w)) = docs w"
    using assms(1) by (auto simp: worker_on_def worker_keeps_def)
  obtain rid v where n: "wk_newRunID wk w1 = (rid, v)" by fastforce
  from assms(2) n obtain r v2 out where
    ex: "executeTask (env_of wk) cp c repo (\<lambda>w'. (rid, w')) b1 ref p v = Some (r, b2, v2)"
    and ro: "read_output (env_of wk) c rid ex v2 = (out, w2)"
    by (auto simp: execute_with_output_def Let_def split: prod.splits option.splits)
  have bv: "keeps_view (batch_view docs) (env_of wk) cp"
    using kv unfolding keeps_view_def by (auto intro: view_frames(1))
  have "settled (batch_view docs) b1 v r b2 v2"
    by (rule run_store.executeTask_settled [OF mongo_run_store [OF ok] ex st bv _ set]) simp
  then have "copy_steps docs mr b n ws b1 v b2 v2" by (rule copy_settled)
  moreover have "docs v = docs w1" using nr [of w1] n by simp
  moreover have "docs w2 = docs v2" by (rule read_output_docs [OF ok st ro])
  ultimately show ?thesis using copy_trans copy_keep by metis
qed

lemma execution_copy:
  assumes on: "worker_on drv docs wk cp" and set: "items_set (batch_Items b1)"
    and ex: "ExecutionTask_Execute fmt (env_of wk) (wk_tracker wk) cp (NewExecutionTask cfg repo ei (wk_newRunID wk)) c b1 i w1 =
      Some (q, b2, w2)"
  shows "copy_steps docs mr b n ws b1 w1 b2 w2"
proof -
  let ?t = "NewExecutionTask cfg repo ei (wk_newRunID wk)"
  obtain cms v where f: "FetchComments (wk_tracker wk) c (et_repoPath ?t) i w1 = (cms, v)" by fastforce
  have v: "docs v = docs w1" using on f unfolding worker_on_def worker_keeps_def by (metis snd_conv)
  have rid: "et_newRunID ?t = wk_newRunID wk" by (simp add: NewExecutionTask_def)
  from ex f consider "b2 = b1" "w2 = w1" | "b2 = b1" "w2 = v"
    | p where "execute_with_output (\<lambda>evs. Join (assistantMessageContents evs) [CHR 0x0A]) (env_of wk) cp c (et_repoPath ?t)
        (wk_newRunID wk) b1 i p v = Some (q, b2, w2)"
    by (auto simp: ExecutionTask_Execute_def executeTaskWithAssistantMessages_def Let_def rid
        split: option.splits sum.splits)
  then show ?thesis
  proof cases
    case 3
    from copy_trans [OF copy_keep [where docs = docs, OF v] execute_with_output_copy [OF on 3 set]] show ?thesis .
  qed (simp_all add: copy_keep v)
qed

lemma verification_copy:
  assumes on: "worker_on drv docs wk cp" and set: "items_set (batch_Items b1)"
    and ex: "VerificationTask_Execute fmt (env_of wk) cp cfg (Some (NewExecutionTask cfg' repo ei (wk_newRunID wk))) ins c b1 i w1 =
      Some (q, b2, w2)"
  shows "copy_steps docs mr b n ws b1 w1 b2 w2"
proof -
  let ?t = "NewExecutionTask cfg' repo ei (wk_newRunID wk)"
  have rid: "et_newRunID ?t = wk_newRunID wk" by (simp add: NewExecutionTask_def)
  from ex consider "b2 = b1" "w2 = w1"
    | p where "execute_with_output latestAssistantMessageContent (env_of wk) cp c (TrimSpace (et_repoPath ?t))
        (wk_newRunID wk) b1 i p w1 = Some (q, b2, w2)"
    by (auto simp: VerificationTask_Execute_def executeTaskWithStructuredOutput_def Let_def rid
        split: option.splits sum.splits)
  then show ?thesis
  proof cases
    case 2
    from execute_with_output_copy [OF on 2 set] show ?thesis .
  qed (simp_all add: copy_keep)
qed

lemma copy_items_set: "copy_steps docs mr b n ws b1 w1 b2 w2 \<Longrightarrow> items_set (batch_Items b1) \<Longrightarrow> items_set (batch_Items b2)"
  by (simp add: copy_steps_def)

lemma executeAndVerify_copy:
  assumes on: "worker_on drv docs wk cp" and set: "items_set (batch_Items b1)"
    and ex: "executeAndVerify wk c b1 repo ref ei vi cp w1 = Some (q, b2, w2)"
  shows "copy_steps docs mr b n ws b1 w1 b2 w2"
proof -
  let ?lib = "wk_lib wk" and ?t = "NewExecutionTask (Some (wk_cfg wk)) repo ei (wk_newRunID wk)"
  from ex obtain status out e b3 w3 where
    a: "ExecutionTask_Execute (lib_Sprintf ?lib) (env_of wk) (wk_tracker wk) cp ?t
        (phase_context (lib_ParseDuration ?lib) (wk_cfg wk) TaskExecTimeoutKey ''execute'' c) b1 ref w1 =
        Some ((status, out, e), b3, w3)"
    by (auto simp: executeAndVerify_def Let_def split: option.splits)
  note c1 = execution_copy [OF on set a]
  show ?thesis
  proof (cases "status = TaskRunStatusSucceeded")
    case False
    with ex a have "b2 = b3" "w2 = w3" by (auto simp: executeAndVerify_def Let_def)
    with c1 show ?thesis by simp
  next
    case True
    with ex a obtain q2 where "VerificationTask_Execute (lib_Sprintf ?lib) (env_of wk) cp (Some (wk_cfg wk)) (Some ?t) vi
        (phase_context (lib_ParseDuration ?lib) (wk_cfg wk) TaskVerifyTimeoutKey ''verify'' c) b3 ref w3 = Some (q2, b2, w2)"
      by (auto simp: executeAndVerify_def Let_def split: option.splits prod.splits)
    from copy_trans [OF c1 verification_copy [OF on copy_items_set [OF c1 set] this]] show ?thesis .
  qed
qed

section \<open>The loop\<close>

text \<open>The same, between states of the worker.\<close>

abbreviation state_steps ::
    "('m \<Rightarrow> string \<Rightarrow> doc list) \<Rightarrow> int \<Rightarrow> batch \<Rightarrow> nat \<Rightarrow> batch list \<Rightarrow> batch \<Rightarrow> 'm wstate \<Rightarrow> batch \<Rightarrow> 'm wstate \<Rightarrow> bool" where
  "state_steps docs mr b n ws b1 s1 b2 s2 \<equiv> copy_steps docs mr b n ws b1 (ws_world s1) b2 (ws_world s2)"

lemma state_status:
  assumes "worker_on drv docs wk cp" and "on_world (setBatchStatus (wk_store wk) c b1 st) s1 = (b2, s2)"
    and "items_set (batch_Items b1)" and "st \<in> {BatchStatusInProgress, BatchStatusPending, BatchStatusFailed}"
  shows "state_steps docs mr b n ws b1 s1 b2 s2"
proof -
  have ok: "driver_ok drv docs" using assms(1) by (simp add: worker_on_def)
  from assms(1,2) have sb: "setBatchStatus (mongo_storage drv) c b1 st (ws_world s1) = (b2, ws_world s2)"
    by (auto simp: on_world_def worker_on_def split: prod.splits)
  show ?thesis by (rule copy_setBatchStatus [OF ok sb assms(3,4)])
qed

lemma shouldRetry_copy:
  assumes on: "worker_on drv docs wk cp" and set: "items_set (batch_Items b1)"
    and sr: "shouldRetry wk c b1 repo bid ref resp ao k retries has s1 = (again, b2, s2)"
  shows "state_steps docs mr b n ws b1 s1 b2 s2"
proof -
  have wk: "worker_keeps docs wk" using on by (simp add: worker_on_def)
  note an = announce_docs [OF wk]
  let ?base = "formatAgentResponseText resp []"
  obtain e v where ac: "on_world (AddComment (wk_tracker wk) c repo ref (''Verification failed: '' @ ar_Reason resp @
      newline @ ''Details: '' @ ar_Details resp @ newline @ ''Assistant output: '' @ ao)) s1 = (e, v)" by fastforce
  define v2 where "v2 = announce wk c repo bid ref ''verification_failed'' ''failed'' k retries ?base v"
  have "docs (ws_world v) = docs (ws_world s1)"
    by (rule on_world_docs [OF worker_keepsD(2) [OF wk] ac])
  then have v2: "docs (ws_world v2) = docs (ws_world s1)" by (simp add: v2_def an)
  note sr2 = sr [unfolded shouldRetry_def Let_def ac prod.case v2_def [symmetric]]
  show ?thesis
  proof (cases "has \<and> retries \<le> k")
    case False
    then have "b2 = b1 \<and> docs (ws_world s2) = docs (ws_world s1)"
      using sr2 v2 by (auto simp: an split: if_splits)
    then show ?thesis by (simp add: copy_keep)
  next
    case True
    obtain b3 s3 where sb: "on_world (setBatchStatus (wk_store wk) c b1 BatchStatusFailed) v2 = (b3, s3)" by fastforce
    define s4 where "s4 = announce wk c repo bid ref ''verification_failed_max_retries'' ''failed'' k retries
        (appendDetailLine ?base ''Next: no retries remaining'') s3"
    obtain x s5 where ne: "on_world (NotifyError (wk_notifier wk) c bid [] ref
        (Errorf (''verification failed after '' @ FormatInt k @ '' attempts: '' @ ar_Reason resp))) s4 = (x, s5)" by fastforce
    from True have tr: "has = True" "(retries \<le> k) = True" by simp_all
    from sr2 [unfolded tr not_True_eq_False if_False if_True sb prod.case s4_def [symmetric] ne]
    have res: "b2 = b3" "s2 = s5" by simp_all
    have "docs (ws_world s5) = docs (ws_world s4)"
      by (rule on_world_docs [OF worker_keepsD(6) [OF wk] ne])
    then have s5: "docs (ws_world s5) = docs (ws_world s3)" by (simp add: s4_def an)
    have "state_steps docs mr b n ws b1 v2 b3 s3" by (rule state_status [OF on sb set]) simp
    from copy_trans [OF copy_trans [OF copy_keep [where docs = docs, OF v2] this] copy_keep [where docs = docs, OF s5]] show ?thesis by (simp add: res)
  qed
qed

lemma single_attempt_copy:
  assumes on: "worker_on drv docs wk cp" and set: "items_set (batch_Items b1)"
    and at: "single_attempt wk c rc repo item cp lim k b1 s1 = Some (a, b2, s2)"
  shows "state_steps docs mr b n ws b1 s1 b2 s2"
proof -
  have wk: "worker_keeps docs wk" using on by (simp add: worker_on_def)
  note an = announce_docs [OF wk]
  let ?bid = "wi_BatchID item" and ?ref = "wi_TaskRef item"
  define s3 where "s3 = announce wk rc repo ?bid ?ref ''attempt_started'' ''in_progress'' k 0 [] s1"
  from at obtain vs resp ao out e b3 w3 where
    ev: "executeAndVerify wk rc b1 repo ?ref (''Work on task '' @ ?ref) (''Verify task '' @ ?ref) cp (ws_world s3) =
      Some ((vs, resp, ao, out, e), b3, w3)"
    by (auto simp: single_attempt_def Let_def s3_def split: option.splits)
  let ?s4 = "s3\<lparr>ws_world := w3\<rparr>"
  have "docs (ws_world s3) = docs (ws_world s1)" by (simp add: s3_def an)
  from copy_trans [OF copy_keep [where docs = docs, OF this] executeAndVerify_copy [OF on set ev]]
  have c1: "state_steps docs mr b n ws b1 s1 b3 ?s4" by simp
  note at2 = at [unfolded single_attempt_def Let_def s3_def [symmetric] ev option.case prod.case]
  consider "b2 = b3" "s2 = ?s4"
    | x where "shouldRetry wk rc b3 repo ?bid ?ref resp ao k (fst lim) (snd lim) ?s4 = (x, b2, s2)"
    | s5 where "s5 = announce wk rc repo ?bid ?ref ''verification_succeeded'' ''succeeded'' k 0 (formatAgentResponseText resp out) ?s4"
        "on_world (setBatchStatus (wk_store wk) c b3 BatchStatusPending) s5 = (b2, s2)"
    using at2 by (auto split: if_splits prod.splits)
  then show ?thesis
  proof cases
    case 1
    with c1 show ?thesis by simp
  next
    case 2
    from copy_trans [OF c1 shouldRetry_copy [OF on copy_items_set [OF c1 set] 2]] show ?thesis .
  next
    case 3
    have k: "docs (ws_world s5) = docs (ws_world ?s4)" unfolding 3(1) by (rule an)
    have "state_steps docs mr b n ws b3 s5 b2 s2"
      by (rule state_status [OF on 3(2) copy_items_set [OF c1 set]]) simp
    from copy_trans [OF c1 copy_trans [OF copy_keep [where docs = docs, OF k] this]] show ?thesis .
  qed
qed

lemma attempt_loop_copy:
  assumes "worker_on drv docs wk cp" and "items_set (batch_Items b1)"
    and "attempt_loop wk c rc repo item cp lim k b1 s1 = Some (r, b2, s2)"
  shows "state_steps docs mr b n ws b1 s1 b2 s2"
  using assms
proof (induction wk c rc repo item cp lim k b1 s1 rule: attempt_loop.induct)
  case (1 wk c rc repo item cp lim k b1 s1)
  from 1(4) obtain a b3 s3 where at: "single_attempt wk c rc repo item cp lim (k + 1) b1 s1 = Some (a, b3, s3)"
    by (auto simp: attempt_loop.simps [of wk] split: option.splits)
  note c1 = single_attempt_copy [OF 1(2,3) at]
  show ?case
  proof (cases a)
    case (AttemptDone q)
    with at 1(4) c1 show ?thesis by (simp add: attempt_loop.simps [of wk])
  next
    case AttemptRetry
    with at 1(4) have "attempt_loop wk c rc repo item cp lim (k + 1) b3 s3 = Some (r, b2, s2)"
      by (subst (asm) attempt_loop.simps) simp
    with 1(1) [OF at refl AttemptRetry refl] 1(2) copy_items_set [OF c1 1(3)]
    have "state_steps docs mr b n ws b3 s3 b2 s2" by blast
    with c1 show ?thesis by (rule copy_trans)
  qed
qed

section \<open>Process\<close>

lemma clientForRuntime_world: "clientForRuntime wk rt s = (x, s') \<Longrightarrow> ws_world s' = ws_world s"
  by (auto simp: clientForRuntime_def Let_def split: if_splits option.splits)

lemma process_task_copy:
  assumes cls: "\<forall>cp \<in> worker_clients wk s1. worker_on drv docs wk cp" and set: "items_set (batch_Items b1)"
    and run: "process_task wk c item b1 repo s1 = Some (r, s2)"
  shows "\<exists>b2. state_steps docs mr b n ws b1 s1 b2 s2"
proof -
  have on: "worker_on drv docs wk (wk_newCodex wk)" using cls by (simp add: worker_clients_def)
  have wk: "worker_keeps docs wk" using on by (simp add: worker_on_def)
  let ?bid = "wi_BatchID item" and ?ref = "wi_TaskRef item"
  obtain t v where ti: "taskTitle wk c repo ?ref s1 = (t, v)" by fastforce
  define v2 where "v2 = notifyTaskEvent wk c (task_event ''task_received'' ?bid ?ref t ''pending'' 0 0 []) v"
  obtain b3 v3 where sb: "on_world (setBatchStatus (wk_store wk) c b1 BatchStatusInProgress) v2 = (b3, v3)" by fastforce
  define v4 where "v4 = notifyTaskEvent wk c (task_event ''task_started'' ?bid ?ref t ''running'' 0 0 []) v3"
  obtain x v5 where cl: "clientForRuntime wk (wi_Runtime item) v4 = (x, v5)" by fastforce
  note run2 = run [unfolded process_task_def Let_def ti prod.case v2_def [symmetric] sb v4_def [symmetric] cl]
  have w2: "docs (ws_world v2) = docs (ws_world s1)" by (simp add: v2_def notify_docs [OF wk] title_docs [OF wk ti])
  have w5: "docs (ws_world v5) = docs (ws_world v3)"
    by (simp add: v4_def notify_docs [OF wk] clientForRuntime_world [OF cl])
  have "state_steps docs mr b n ws b1 v2 b3 v3" by (rule state_status [OF on sb set]) simp
  with copy_trans [OF copy_trans [OF copy_keep [where docs = docs, OF w2] this] copy_keep [where docs = docs, OF w5]]
  have c1: "state_steps docs mr b n ws b1 s1 b3 v5" by simp
  show ?thesis
  proof (cases x)
    case (Inl e)
    with run2 c1 show ?thesis by auto
  next
    case (Inr cp)
    with run2 obtain b4 where h: "handleSingleTask wk c b3 repo item cp v5 = Some (r, b4, s2)"
      by (auto split: option.splits)
    have "worker_clients wk v4 = worker_clients wk s1"
      using worker_clients_title [OF ti, of wk] worker_clients_on_world [OF sb, of wk] by (simp add: v2_def v4_def)
    with clientForRuntime_client [OF cl [unfolded Inr]] cls have "worker_on drv docs wk cp" by simp
    from attempt_loop_copy [OF this copy_items_set [OF c1 set] h [unfolded handleSingleTask_def]] c1
    show ?thesis by (blast intro: copy_trans)
  qed
qed

lemma process_steps:
  assumes cls: "\<forall>cp \<in> worker_clients wk s. worker_on drv docs wk cp" and good: "stored_ok mr docs (ws_world s)"
    and id: "TrimSpace (wi_BatchID item) = batch_ID b" and run: "worker_Process wk c item s = Some (r, s')"
  shows "\<exists>wc. sv_steps mr' (sv_view docs (ws_world s) (Running b n None) ws)
                          (sv_view docs (ws_world s') (Running b n wc) ws)"
proof -
  have on: "worker_on drv docs wk (wk_newCodex wk)" using cls by (simp add: worker_clients_def)
  then have ok: "driver_ok drv docs" and st: "wk_store wk = mongo_storage drv" and wk: "worker_keeps docs wk"
    by (simp_all add: worker_on_def)
  have same: ?thesis if "docs (ws_world s') = docs (ws_world s)"
    using view_frames(1) [of docs, OF that] by (auto simp: sv_view_def intro: sv_refl)
  let ?it = "trim_item item"
  have idt: "wi_BatchID ?it = batch_ID b" using id by (simp add: trim_item_def)
  have rep: "docs (ws_world (snd (on_world (NotifyError (wk_notifier wk) c i j k e) v))) = docs (ws_world v)" for i j k e v
    using on_world_docs [OF worker_keepsD(6) [OF wk]] by (metis prod.collapse)
  show ?thesis
  proof (cases "wi_BatchID ?it = [] \<or> wi_TaskRef ?it = []")
    case True
    with run same show ?thesis by (auto simp: worker_Process_def Let_def)
  next
    case ne: False
    obtain g v where g: "on_world (GetBatch (wk_store wk) c (batch_ID b)) s = (g, v)" by fastforce
    then have gb: "mongo_GetBatch drv c (batch_ID b) (ws_world s) = (g, ws_world v)" and vc: "worker_clients wk v = worker_clients wk s"
      using worker_clients_on_world [OF g, of wk] by (auto simp: on_world_def st split: prod.splits)
    have wv: "docs (ws_world v) = docs (ws_world s)"
      using mongo_get_docs [OF ok gb [unfolded mongo_GetBatch_def]] by blast
    note run1 = run [unfolded worker_Process_def Let_def if_not_P [OF ne]]
    note run2 = run1 [unfolded idt g prod.case]
    show ?thesis
    proof (cases g)
      case (Inl e)
      with run2 have "s' = snd (on_world (NotifyError (wk_notifier wk) c (batch_ID b) [] (wi_TaskRef ?it) e) v)" by simp
      then show ?thesis by (intro same) (simp add: rep wv)
    next
      case (Inr b1)
      have at: "batch_view docs (ws_world s) (batch_ID b) = Some (batch_core b1)"
        using batch_store.get_batch_ok [OF mongo_batch_store [OF ok], of c "batch_ID b" "ws_world s" b1] gb Inr by simp
      then have set: "items_set (batch_Items b1)" using stored_ok_items [OF good] by fastforce
      obtain q u where q: "on_world (GetRepository (wk_store wk) c (batch_RepositoryID b1)) v = (q, u)" by fastforce
      have uc: "worker_clients wk u = worker_clients wk s" using worker_clients_on_world [OF q, of wk] vc by simp
      have "mongo_GetRepository drv c (batch_RepositoryID b1) (ws_world v) = (q, ws_world u)"
        using q by (auto simp: on_world_def st split: prod.splits)
      then have wu: "docs (ws_world u) = docs (ws_world s)"
        using mongo_get_docs [OF ok] wv by (fastforce simp: mongo_GetRepository_def)
      note run3 = run2 [unfolded Inr sum.case q prod.case]
      show ?thesis
      proof (cases "\<exists>rp. q = Inr rp \<and> TrimSpace (repo_Path rp) \<noteq> []")
        case False
        with run3 have "s' = u \<or> (\<exists>e. s' = snd (on_world (NotifyError (wk_notifier wk) c (batch_ID b) [] (wi_TaskRef ?it) e) u))"
          by (cases q) auto
        then show ?thesis using rep wu by (intro same) auto
      next
        case True
        then obtain rp where "q = Inr rp" "TrimSpace (repo_Path rp) \<noteq> []" by blast
        with run3 have pt: "process_task wk c ?it b1 (TrimSpace (repo_Path rp)) u = Some (r, s')" by simp
        have "\<forall>cp \<in> worker_clients wk u. worker_on drv docs wk cp" using cls uc by simp
        from process_task_copy [OF this set pt] obtain b2 where
          steps: "state_steps docs mr' b n ws b1 u b2 s'" by blast
        have "sv_step mr' (sv_view docs (ws_world s) (Running b n None) ws)
            (sv_view docs (ws_world u) (Running b n (Some (batch_core b1))) ws)"
          using sv_work_read [of "sv_view docs (ws_world s) (Running b n None) ws" b n None "batch_core b1" mr'] at
          by (simp add: sv_view_def view_frames(1) [of docs, OF wu])
        from sv_steps_append [OF _ sv_steps_single [OF this]] steps show ?thesis
          unfolding copy_steps_def by blast
      qed
    qed
  qed
qed

text \<open>
  C21: Processing a work item is a sequence of the worker's steps.  Whatever the sessions deliver and
  the store, the tracker and the notifier report, \<^verbatim>\<open>Process\<close> reads the batch of the item and then only
  changes the status of the copy it has, in progress, pending or failed, writing it or losing the
  write; it touches no other batch and no item.
\<close>

theorem Process_refines_steps:
  assumes "\<forall>cp \<in> worker_clients wk s. worker_on drv docs wk cp" and "stored_ok mr docs (ws_world s)"
    and "TrimSpace (wi_BatchID item) = batch_ID b" and "worker_Process wk c item s = Some (r, s')"
  shows "\<exists>wc. sv_steps mr' (sv_view docs (ws_world s) (Running b n None) ws)
                          (sv_view docs (ws_world s') (Running b n wc) ws)"
  by (rule process_steps [OF assms])

text \<open>The demo worker, and a tick of the scheduler that calls it.\<close>

lemma demo_worker_on: "worker_on (lift_driver list_driver) dm_docs (demo_worker list_driver) demo_client"
proof -
  have env: "keeps_view dm_docs (env_of (demo_worker list_driver)) demo_client"
    by (auto simp: keeps_view_def env_of_def demo_worker_def demo_tracker_def demo_now_docs)
      (auto simp: demo_client_def dm_docs_def split: list.splits)
  have "dm_docs (snd (demo_run_id w)) = dm_docs w" for w
    using demo_now_docs [of w] by (auto simp: demo_run_id_def split: prod.splits)
  then have "worker_keeps dm_docs (demo_worker list_driver)"
    by (simp add: worker_keeps_def demo_worker_def demo_tracker_def)
  with env show ?thesis by (simp add: worker_on_def demo_driver_ok)
qed

lemma demo_state_docs: "dm_docs (demo_state0 scripts) = db_docs (demo_db [demo_batch] [demo_agent])"
  by (simp add: dm_docs_def demo_state0_def)

lemma demo_state_view: "batch_view dm_docs (demo_state0 scripts) = batch_view db_docs (demo_db [demo_batch] [demo_agent])"
  unfolding batch_view_def demo_state_docs ..

lemma demo_state_ok: "stored_ok 5 dm_docs (demo_state0 scripts)" "ids_trimmed dm_docs (demo_state0 scripts)"
  "unique_batches dm_docs (demo_state0 scripts)"
  using demo_stored_ok [of "[demo_agent]"] demo_ids_trimmed [of "[demo_agent]"]
  by (simp_all add: stored_ok_def ids_trimmed_def demo_state_view)
    (auto simp: unique_batches_def demo_state_docs demo_db_def collections demo_simps)

lemma demo_ws_world [simp]: "ws_world (demo_ws drv scripts) = demo_state0 scripts"
  by (simp add: demo_ws_def NewWorker_def)

lemma demo_worker_returns: "worker_Process (demo_worker list_driver) c item (demo_ws drv scripts) \<noteq> None"
  by (rule Process_not_None [of _ _ "\<lambda>w. length (dm_current w)"]) (simp add: demo_worker_clients demo_worker_drains)

theorem Process_refines_steps_witness:
  "\<exists>r s' wc. worker_Process (demo_worker list_driver) (CtxBase 0) demo_item (demo_ws list_driver [demo_talk ''done'', demo_talk ''no'']) =
       Some (r, s') \<and>
     sv_steps 5 (sv_view dm_docs (demo_state0 [demo_talk ''done'', demo_talk ''no'']) (Running demo_batch 0 None) [])
                (sv_view dm_docs (ws_world s') (Running demo_batch 0 wc) [])"
proof -
  let ?s = "demo_ws list_driver [demo_talk ''done'', demo_talk ''no'']"
  obtain r s' where p: "worker_Process (demo_worker list_driver) (CtxBase 0) demo_item ?s = Some (r, s')"
    using demo_worker_returns by (metis not_None_eq prod.collapse)
  have cls: "\<forall>cp \<in> worker_clients (demo_worker list_driver) ?s. worker_on (lift_driver list_driver) dm_docs (demo_worker list_driver) cp"
    by (simp add: demo_worker_clients demo_worker_on)
  have id: "TrimSpace (wi_BatchID demo_item) = batch_ID demo_batch" by code_simp
  have "stored_ok 5 dm_docs (ws_world ?s)" by (simp add: demo_state_ok)
  from Process_refines_steps [OF cls this id p, of 5 0 "[]"] p show ?thesis by auto
qed

section \<open>The scheduler with the worker\<close>

text \<open>
  A work function that runs the worker: each call is a call of \<^verbatim>\<open>Process\<close> that returned, from a state of
  the worker, with its titles and clients, over the world of the scheduler.
\<close>

definition runs_Process ::
    "'w driver \<Rightarrow> ('w \<Rightarrow> string \<Rightarrow> doc list) \<Rightarrow> 'w worker \<Rightarrow> 'w work_fn \<Rightarrow> bool" where
  "runs_Process drv docs wk f \<longleftrightarrow>
     (\<forall>c wi w r w2. f c wi w = (r, w2) \<longrightarrow>
        (\<exists>s s'. ws_world s = sw_rest w \<and> (\<forall>cp \<in> worker_clients wk s. worker_on drv docs wk cp) \<and>
           worker_Process wk c wi s = Some (r, s') \<and> sw_rest w2 = ws_world s'))"

lemma runs_Process_steps:
  assumes "runs_Process drv docs wk f"
  shows "worker_steps drv docs mr f"
  unfolding worker_steps_def
proof (intro allI impI)
  fix c wi w r w2 n ws and b :: batch
  assume run: "f c wi w = (r, w2)" and good: "stored_ok mr docs (sw_rest w)"
    and id: "wi_BatchID wi = batch_ID b" "TrimSpace (batch_ID b) = batch_ID b"
  from assms run obtain s s' where s: "ws_world s = sw_rest w" "\<forall>cp \<in> worker_clients wk s. worker_on drv docs wk cp"
    "worker_Process wk c wi s = Some (r, s')" "sw_rest w2 = ws_world s'"
    unfolding runs_Process_def by blast
  from good s(1) have "stored_ok mr docs (ws_world s)" by simp
  from process_steps [OF s(2) this _ s(3), of b mr n ws] id s(1,4)
  show "\<exists>wc ws'. sv_steps mr (sv_view docs (sw_rest w) (Running b n None) ws)
                             (sv_view docs (sw_rest w2) (Running b n wc) ws')" by auto
qed

lemma sv_steps_good: "sv_steps mr s s' \<Longrightarrow> sv_good mr s \<Longrightarrow> 1 \<le> mr \<Longrightarrow> in_int64 mr \<Longrightarrow> sv_good mr s'"
  by (induction rule: sv_steps.induct) (auto intro: sv_step_good)

lemma sv_view_good: "stored_ok mr docs m \<Longrightarrow> sv_good mr (sv_view docs m NotRunning [])"
  using batch_view_ID [of docs m] by (auto simp: sv_good_def sv_batches_def sv_view_def stored_ok_def ran_def)

lemma sv_good_stored: "sv_good mr (sv_view docs m r ws) \<Longrightarrow> stored_ok mr docs m"
  by (auto simp: sv_good_def sv_batches_def sv_view_def stored_ok_def ran_def)

text \<open>
  C3: The scheduler with the real worker keeps the batches well formed.  A tick, from the choice of a
  batch over the claim, the sessions and the verification of the worker to the completion, whatever
  the agents, the tracker, the notifier and the database do, is a sequence of steps of the system,
  and afterwards every stored batch has at most one item in progress, no item beyond the attempt
  cap, and only done items if it is done.
\<close>

theorem Tick_with_Process:
  assumes "driver_ok drv docs" and "dep_store d = Some (mongo_storage drv)" and "dep_worker d = Some f"
    and "runs_Process drv docs wk f" and "mr = sc_maxRetries (sw_sched w)" and "1 \<le> mr" and "in_int64 mr"
    and "unique_batches docs (sw_rest w)" and "stored_ok mr docs (sw_rest w)" and "ids_trimmed docs (sw_rest w)"
    and "Tick d c w = (r, w')"
  shows "stored_ok mr docs (sw_rest w') \<and>
    (\<exists>ws'. sv_steps mr (sv_view docs (sw_rest w) NotRunning []) (sv_view docs (sw_rest w') NotRunning ws'))"
proof -
  from tick_steps [OF assms(1,2,3,5,7,8,9,10) runs_Process_steps [OF assms(4)] assms(11)]
  obtain ws' where st: "sv_steps mr (sv_view docs (sw_rest w) NotRunning []) (sv_view docs (sw_rest w') NotRunning ws')"
    by blast
  with sv_good_stored [OF sv_steps_good [OF st sv_view_good [OF assms(9)] assms(6,7)]] show ?thesis by blast
qed

text \<open>The worker as a fresh one for each item.\<close>

definition fresh_process :: "'w worker \<Rightarrow> 'w work_fn" where
  "fresh_process wk c wi w =
     (case worker_Process wk c wi (NewWorker wk None (sw_rest w)) of
        Some (r, s') \<Rightarrow> (r, w\<lparr>sw_rest := ws_world s'\<rparr>)
      | None \<Rightarrow> (None, w))"

definition demo_service :: "select_result list list \<Rightarrow> demo_state sched_world" where
  "demo_service scripts =
     \<lparr>sw_sched = scheduler_New \<lparr>opt_Interval = 0, opt_Draining = False, opt_MaxRetries = 0\<rparr>, sw_rest = demo_state0 scripts\<rparr>"

definition demo_service_deps :: "demo_state sched_deps" where
  "demo_service_deps =
     \<lparr>dep_store = Some (mongo_storage (lift_driver list_driver)),
      dep_worker = Some (fresh_process (demo_worker list_driver)), dep_ctx_err = (\<lambda>c m. None)\<rparr>"

lemma demo_runs_Process:
  "runs_Process (lift_driver list_driver) dm_docs (demo_worker list_driver) (fresh_process (demo_worker list_driver))"
  unfolding runs_Process_def
proof (intro allI impI)
  fix c wi r and w w2 :: "demo_state sched_world"
  let ?wk = "demo_worker list_driver" and ?s = "NewWorker (demo_worker list_driver) None (sw_rest w)"
  assume f: "fresh_process ?wk c wi w = (r, w2)"
  have cls: "worker_clients ?wk ?s = {demo_client}" by (simp add: worker_clients_def NewWorker_def demo_worker_def)
  have "worker_Process ?wk c wi ?s \<noteq> None"
    by (rule Process_not_None [of _ _ "\<lambda>w. length (dm_current w)"]) (simp add: cls demo_worker_drains)
  with f obtain s' where "worker_Process ?wk c wi ?s = Some (r, s')" "sw_rest w2 = ws_world s'"
    by (auto simp: fresh_process_def)
  moreover have "ws_world ?s = sw_rest w" by (simp add: NewWorker_def)
  ultimately show "\<exists>s s'. ws_world s = sw_rest w \<and>
      (\<forall>cp \<in> worker_clients ?wk s. worker_on (lift_driver list_driver) dm_docs ?wk cp) \<and>
      worker_Process ?wk c wi s = Some (r, s') \<and> sw_rest w2 = ws_world s'"
    using cls demo_worker_on by (intro exI [of _ ?s] exI [of _ s']) simp
qed

theorem Tick_with_Process_witness:
  "\<exists>r w'. Tick demo_service_deps (CtxBase 0) (demo_service [demo_talk ''done'', demo_talk ''no'']) = (r, w') \<and>
     stored_ok 5 dm_docs (sw_rest w')"
proof -
  let ?w = "demo_service [demo_talk ''done'', demo_talk ''no'']"
  obtain r w' where t: "Tick demo_service_deps (CtxBase 0) ?w = (r, w')" by fastforce
  have d: "dep_store demo_service_deps = Some (mongo_storage (lift_driver list_driver))"
    "dep_worker demo_service_deps = Some (fresh_process (demo_worker list_driver))" "5 = sc_maxRetries (sw_sched ?w)"
    by (simp_all add: demo_service_deps_def demo_service_def scheduler_New_def defaultMaxRetries_def)
  have "(1 :: int) \<le> 5" "in_int64 5" by code_simp+
  from Tick_with_Process [OF demo_driver_ok d(1,2) demo_runs_Process d(3) this _ _ _ t] t show ?thesis
    by (simp add: demo_service_def demo_state_ok)
qed

end
