(* ===== verification/Codex.thy ===== *)
theory Codex
  imports Session_Results "HOL-Library.Word"
begin

text \<open>
  The Codex provider, internal/copilot/codex.go: where the wrapper binary is looked for, the goroutine
  that forwards what the wrapper prints to a channel of 32 events, and the session client these make.
  The environment, the file system, the process and the JSON decoder are arguments.  What a wrapper
  does is its output: the lines the scanner yields until the stream ends, the error of the scanner and
  the error of \<^verbatim>\<open>cmd.Wait\<close>, whatever ends the process, \<^verbatim>\<open>stop\<close> included.  Logging is left out.
\<close>

unbundle bit_operations_syntax

section \<open>Constants and small functions\<close>

definition codexWrapperPathEnvVar :: string where
  "codexWrapperPathEnvVar = ''YARALPHO_CODEX_WRAPPER_PATH''"

definition codexWrapperDefaultRelativePath :: string where
  "codexWrapperDefaultRelativePath = ''internal/copilot/codex-ts/bin/codex-wrapper-linux-x64''"

definition codexScannerBufferSize :: int where
  "codexScannerBufferSize = 8 * 1024 * 1024"

definition codexIdleEventType :: string where
  "codexIdleEventType = ''session.idle''"

definition eventBufferSize :: nat where
  "eventBufferSize = 32"

definition previewForLog :: "string \<Rightarrow> int \<Rightarrow> string" where
  "previewForLog raw limit =
     (if limit \<le> 0 \<or> int (length raw) \<le> limit then raw else take (nat limit) raw @ ''...(truncated)'')"

definition scannerInitialCapacity :: "int \<Rightarrow> int" where
  "scannerInitialCapacity maxSize =
     (let d = 64 * 1024 in if maxSize \<le> 0 then d else if maxSize < d then maxSize else d)"

definition isPipeClosedError :: "go_error option \<Rightarrow> bool" where
  "isPipeClosedError err =
     (case err of
        None \<Rightarrow> False
      | Some e \<Rightarrow> err_is e ErrClosed \<or> Contains (error_text e) ''file already closed'')"

section \<open>The wrapper binary\<close>

text \<open>The mode is the 32-bit \<^verbatim>\<open>os.FileMode\<close>; \<^verbatim>\<open>Perm\<close> keeps its low nine bits.\<close>

record file_info =
  fi_IsDir :: bool
  fi_Mode :: "32 word"

definition Perm :: "32 word \<Rightarrow> 32 word" where
  "Perm m = m AND 511"

text \<open>
  What a wrapper does once it is started: the number of its process, and its output.
\<close>

record codex_output =
  co_lines :: "string list"
  co_scan_err :: "go_error option"
  co_wait_err :: "go_error option"

text \<open>
  The goroutine of a session: it scans, waits for room in the channel with an event, waits for the
  process, waits for room with the idle event, or has closed the channel.
\<close>

datatype codex_pc = CxScan | CxSend raw_event | CxWait | CxIdle | CxDone

record codex_session =
  cs_lines :: "string list"
  cs_scan_err :: "go_error option"
  cs_wait_err :: "go_error option"
  cs_pc :: codex_pc
  cs_chan :: "raw_event list"
  cs_closed :: bool
  cs_stopped :: bool

text \<open>
  What the provider calls: the environment, \<^verbatim>\<open>os.Stat\<close>, \<^verbatim>\<open>os.Getwd\<close>, the verbs \<^verbatim>\<open>%q\<close> and \<^verbatim>\<open>%04o\<close>, the pipes and
  the start of the process, the decoder, and what the \<^verbatim>\<open>select\<close> of the event loop finds: the end of the
  context, or its channel, with a flag that tells whether the goroutine, waiting for room, has seen the
  end of the context.  The channels and goroutines of the sessions are part of the world.
\<close>

datatype select_branch = BranchDone go_error | BranchEvents bool

record 'w codex =
  cx_lookupEnv :: "string \<Rightarrow> 'w \<Rightarrow> string option"
  cx_stat :: "string \<Rightarrow> 'w \<Rightarrow> go_error + file_info"
  cx_getwd :: "'w \<Rightarrow> go_error + string"
  cx_Quote :: "string \<Rightarrow> string"
  cx_Octal :: "32 word \<Rightarrow> string"
  cx_StdoutPipe :: "('w, go_error option) act"
  cx_StderrPipe :: "('w, go_error option) act"
  cx_Start :: "ctx \<Rightarrow> string \<Rightarrow> string list \<Rightarrow> ('w, go_error + int \<times> codex_output) act"
  cx_Unmarshal :: "string \<Rightarrow> go_error + raw_event"
  cx_select :: "ctx \<Rightarrow> nat \<Rightarrow> ('w, select_branch) act"
  cx_sessions :: "'w \<Rightarrow> codex_session list"
  cx_put :: "codex_session list \<Rightarrow> 'w \<Rightarrow> 'w"

definition wrapperPathCandidate :: "'w codex \<Rightarrow> 'w \<Rightarrow> string \<times> string" where
  "wrapperPathCandidate cx w =
     (let fromWd = (case cx_getwd cx w of
            Inl e \<Rightarrow> (codexWrapperDefaultRelativePath, ''default'')
          | Inr wd \<Rightarrow>
              (if TrimSpace wd = [] then (codexWrapperDefaultRelativePath, ''default'')
               else (JoinPath wd codexWrapperDefaultRelativePath, ''default'')))
      in case cx_lookupEnv cx codexWrapperPathEnvVar w of
           Some envPath \<Rightarrow> (if TrimSpace envPath \<noteq> [] then (envPath, codexWrapperPathEnvVar) else fromWd)
         | None \<Rightarrow> fromWd)"

definition resolveWrapperPath :: "'w codex \<Rightarrow> 'w \<Rightarrow> go_error + string" where
  "resolveWrapperPath cx w =
     (let (path, source) = wrapperPathCandidate cx w;
          named = cx_Quote cx path @ '' ('' @ source @ '')''
      in case cx_stat cx path w of
           Inl e \<Rightarrow>
             Inl (Wrapf (''codex wrapper binary not found at '' @ named @ '': set '' @ codexWrapperPathEnvVar @
                         '' or build '' @ codexWrapperDefaultRelativePath) e)
         | Inr info \<Rightarrow>
             (if fi_IsDir info then Inl (Errorf (''codex wrapper path '' @ named @ '' is a directory''))
              else if Perm (fi_Mode info) AND 73 = 0 then
                Inl (Errorf (''codex wrapper path '' @ named @ '' is not executable (mode '' @
                             cx_Octal cx (Perm (fi_Mode info)) @ '')''))
              else Inr path))"

section \<open>The forwarding goroutine\<close>

definition idle_event :: raw_event where
  "idle_event = [(''type'', JString codexIdleEventType)]"

definition codex_start :: "codex_output \<Rightarrow> codex_session" where
  "codex_start out =
     \<lparr>cs_lines = co_lines out, cs_scan_err = co_scan_err out, cs_wait_err = co_wait_err out,
      cs_pc = CxScan, cs_chan = [], cs_closed = False, cs_stopped = False\<rparr>"

definition shouldEmitIdle :: "go_error option \<Rightarrow> go_error option \<Rightarrow> bool" where
  "shouldEmitIdle waitErr scanErr \<longleftrightarrow> waitErr = None \<or> scanErr \<noteq> None \<and> \<not> isPipeClosedError scanErr"

definition closeEvents :: "codex_session \<Rightarrow> codex_session" where
  "closeEvents s = s\<lparr>cs_pc := CxDone, cs_closed := True\<rparr>"

definition codex_stop :: "codex_session \<Rightarrow> codex_session" where
  "codex_stop s = s\<lparr>cs_stopped := True\<rparr>"

definition chan_room :: "codex_session \<Rightarrow> bool" where
  "chan_room s \<longleftrightarrow> length (cs_chan s) < eventBufferSize"

text \<open>One step of the goroutine while its context lasts; a send into a full channel waits.\<close>

definition codex_step :: "(string \<Rightarrow> go_error + raw_event) \<Rightarrow> codex_session \<Rightarrow> codex_session" where
  "codex_step u s =
     (case cs_pc s of
        CxScan \<Rightarrow>
          (case cs_lines s of
             [] \<Rightarrow> s\<lparr>cs_pc := CxWait\<rparr>
           | l # ls \<Rightarrow>
               (case u l of
                  Inl e \<Rightarrow> s\<lparr>cs_lines := ls\<rparr>
                | Inr event \<Rightarrow> s\<lparr>cs_lines := ls, cs_pc := CxSend event\<rparr>))
      | CxSend event \<Rightarrow>
          (if chan_room s then s\<lparr>cs_chan := cs_chan s @ [event], cs_pc := CxScan\<rparr> else s)
      | CxWait \<Rightarrow>
          (if shouldEmitIdle (cs_wait_err s) (cs_scan_err s) then s\<lparr>cs_pc := CxIdle\<rparr> else closeEvents s)
      | CxIdle \<Rightarrow>
          (if chan_room s then closeEvents (s\<lparr>cs_chan := cs_chan s @ [idle_event]\<rparr>) else s)
      | CxDone \<Rightarrow> s)"

text \<open>The two selects, when they take the end of the context; an event that waits is lost.\<close>

definition codex_cancel :: "codex_session \<Rightarrow> codex_session" where
  "codex_cancel s =
     (case cs_pc s of
        CxSend event \<Rightarrow> closeEvents (codex_stop s)
      | CxIdle \<Rightarrow> closeEvents s
      | _ \<Rightarrow> s)"

definition at_select :: "codex_session \<Rightarrow> bool" where
  "at_select s \<longleftrightarrow> (case cs_pc s of CxSend e \<Rightarrow> True | CxIdle \<Rightarrow> True | _ \<Rightarrow> False)"

section \<open>What is still to come\<close>

definition decoded :: "(string \<Rightarrow> go_error + raw_event) \<Rightarrow> string list \<Rightarrow> raw_event list" where
  "decoded u ls = List.map_filter (\<lambda>l. case u l of Inl e \<Rightarrow> None | Inr event \<Rightarrow> Some event) ls"

definition ending :: "go_error option \<Rightarrow> go_error option \<Rightarrow> raw_event list" where
  "ending waitErr scanErr = (if shouldEmitIdle waitErr scanErr then [idle_event] else [])"

text \<open>The events a wrapper's output stands for: those of its readable lines, and the synthetic idle event.\<close>

definition codex_stream :: "(string \<Rightarrow> go_error + raw_event) \<Rightarrow> codex_output \<Rightarrow> raw_event list" where
  "codex_stream u out = decoded u (co_lines out) @ ending (co_wait_err out) (co_scan_err out)"

definition codex_pending :: "(string \<Rightarrow> go_error + raw_event) \<Rightarrow> codex_session \<Rightarrow> raw_event list" where
  "codex_pending u s =
     cs_chan s @
     (let rest = decoded u (cs_lines s) @ ending (cs_wait_err s) (cs_scan_err s)
      in case cs_pc s of
           CxScan \<Rightarrow> rest
         | CxSend event \<Rightarrow> event # rest
         | CxWait \<Rightarrow> ending (cs_wait_err s) (cs_scan_err s)
         | CxIdle \<Rightarrow> [idle_event]
         | CxDone \<Rightarrow> [])"

lemma decoded_simps [simp]:
  "decoded u [] = []"
  "decoded u (l # ls) = (case u l of Inl e \<Rightarrow> decoded u ls | Inr event \<Rightarrow> event # decoded u ls)"
  by (simp_all add: decoded_def map_filter_simps split: sum.split)

lemmas codex_simps = codex_step_def codex_cancel_def codex_pending_def closeEvents_def codex_stop_def
  codex_start_def chan_room_def ending_def Let_def

lemma codex_pending_start: "codex_pending u (codex_start out) = codex_stream u out"
  by (simp add: codex_simps codex_stream_def)

lemma codex_pending_step [simp]: "codex_pending u (codex_step u s) = codex_pending u s"
  by (cases "cs_pc s") (auto simp: codex_simps split: list.split sum.split)

lemma codex_pending_cancel: "prefix (codex_pending u (codex_cancel s)) (codex_pending u s)"
  by (cases "cs_pc s") (auto simp: codex_simps)

lemma codex_pending_stop [simp]: "codex_pending u (codex_stop s) = codex_pending u s"
  by (simp add: codex_simps split: codex_pc.split)

section \<open>Every interleaving of a session\<close>

text \<open>
  The goroutine, its reader and the context run concurrently.  A state is the session, whether the
  context is done, and the events the reader has taken; the context may be done at any time, and then
  a select of the goroutine may take either branch.
\<close>

inductive codex_move ::
    "(string \<Rightarrow> go_error + raw_event) \<Rightarrow> codex_session \<times> bool \<times> raw_event list \<Rightarrow>
       codex_session \<times> bool \<times> raw_event list \<Rightarrow> bool"
  for u :: "string \<Rightarrow> go_error + raw_event" where
  move_step: "codex_move u (s, d, t) (codex_step u s, d, t)"
| move_cancel: "codex_move u (s, True, t) (codex_cancel s, True, t)"
| move_done: "codex_move u (s, d, t) (s, True, t)"
| move_stop: "codex_move u (s, d, t) (codex_stop s, d, t)"
| move_take: "cs_chan s = e # q \<Longrightarrow> codex_move u (s, d, t) (s\<lparr>cs_chan := q\<rparr>, d, t @ [e])"

inductive codex_reach ::
    "(string \<Rightarrow> go_error + raw_event) \<Rightarrow> codex_output \<Rightarrow> codex_session \<times> bool \<times> raw_event list \<Rightarrow> bool"
  for u :: "string \<Rightarrow> go_error + raw_event" and out :: codex_output where
  reach_start: "codex_reach u out (codex_start out, False, [])"
| reach_move: "codex_reach u out x \<Longrightarrow> codex_move u x y \<Longrightarrow> codex_reach u out y"

inductive_cases codex_moveE: "codex_move u (s, d, t) y"

definition codex_inv ::
    "(string \<Rightarrow> go_error + raw_event) \<Rightarrow> codex_output \<Rightarrow> codex_session \<Rightarrow> bool \<Rightarrow> raw_event list \<Rightarrow> bool" where
  "codex_inv u out s d t \<longleftrightarrow>
     prefix (t @ codex_pending u s) (codex_stream u out) \<and>
     (\<not> d \<longrightarrow> t @ codex_pending u s = codex_stream u out) \<and>
     length (cs_chan s) \<le> eventBufferSize \<and>
     (cs_closed s \<longleftrightarrow> cs_pc s = CxDone)"

lemma codex_step_local:
  "length (cs_chan s) \<le> eventBufferSize \<Longrightarrow> length (cs_chan (codex_step u s)) \<le> eventBufferSize"
  "cs_closed s = (cs_pc s = CxDone) \<Longrightarrow> cs_closed (codex_step u s) = (cs_pc (codex_step u s) = CxDone)"
  by (cases "cs_pc s"; auto simp: codex_simps split: list.split sum.split)+

lemma codex_cancel_local:
  "cs_chan (codex_cancel s) = cs_chan s"
  "cs_closed s = (cs_pc s = CxDone) \<Longrightarrow> cs_closed (codex_cancel s) = (cs_pc (codex_cancel s) = CxDone)"
  by (cases "cs_pc s"; auto simp: codex_simps)+

lemma codex_take_pending:
  "cs_chan s = e # q \<Longrightarrow> codex_pending u s = e # codex_pending u (s\<lparr>cs_chan := q\<rparr>)"
  by (simp add: codex_pending_def Let_def split: codex_pc.split)

lemma prefix_cat: "prefix xs ys \<Longrightarrow> prefix (t @ ys) zs \<Longrightarrow> prefix (t @ xs) zs"
  by (metis prefix_order.trans same_prefix_prefix)

lemma codex_inv_move:
  assumes "codex_inv u out s d t" and "codex_move u (s, d, t) y"
  shows "case y of (s', d', t') \<Rightarrow> codex_inv u out s' d' t'"
  using assms(2)
proof (rule codex_moveE)
  assume "y = (codex_step u s, d, t)"
  with assms(1) show ?thesis by (auto simp: codex_inv_def codex_step_local)
next
  assume d: "d" and y: "y = (codex_cancel s, True, t)"
  have "prefix (t @ codex_pending u (codex_cancel s)) (codex_stream u out)"
    using assms(1) prefix_cat [OF codex_pending_cancel] by (simp add: codex_inv_def)
  with assms(1) y show ?thesis by (auto simp: codex_inv_def codex_cancel_local)
next
  assume "y = (s, True, t)"
  with assms(1) show ?thesis by (auto simp: codex_inv_def)
next
  assume "y = (codex_stop s, d, t)"
  with assms(1) show ?thesis by (auto simp: codex_inv_def) (simp_all add: codex_stop_def)
next
  fix e q
  assume "cs_chan s = e # q" "y = (s\<lparr>cs_chan := q\<rparr>, d, t @ [e])"
  with assms(1) show ?thesis by (auto simp: codex_inv_def codex_take_pending)
qed

lemma codex_inv_reach: "codex_reach u out x \<Longrightarrow> (case x of (s, d, t) \<Rightarrow> codex_inv u out s d t)"
proof (induction rule: codex_reach.induct)
  case reach_start
  show ?case by (simp add: codex_inv_def codex_pending_start) (simp add: codex_start_def)
next
  case (reach_move x y)
  then show ?case by (cases x) (auto dest: codex_inv_move)
qed

section \<open>A concrete output\<close>

definition demo_unmarshal :: "string \<Rightarrow> go_error + raw_event" where
  "demo_unmarshal l =
     (if l = ''?'' then Inl (Errorf ''invalid character'')
      else if l = ''idle'' then Inr idle_event else Inr (demo_message l))"

text \<open>A wrapper that prints two events, one of them after a line that cannot be read, and then crashes.\<close>

definition crashed :: codex_output where
  "crashed = \<lparr>co_lines = [''a'', ''?'', ''b''], co_scan_err = None, co_wait_err = Some (Errorf ''exit status 1'')\<rparr>"

lemma codex_reach_steps: "codex_reach u out (s, d, t) \<Longrightarrow> codex_reach u out ((codex_step u ^^ n) s, d, t)"
  by (induction n) (auto intro: reach_move move_step)

section \<open>What the reader gets\<close>

text \<open>
  C15: The events of a session reach its reader in order.  In every interleaving of the goroutine, its
  reader, the context and \<^verbatim>\<open>stop\<close>, what has been taken and what the channel holds is a beginning of the
  stream of the wrapper's output, the channel holds at most 32 events, and it is closed exactly when the
  goroutine is done.  While the context lasts nothing is lost: a closed channel has passed on the whole
  stream.
\<close>

theorem codex_session_stream:
  assumes "codex_reach u out (s, d, t)"
  shows "prefix (t @ cs_chan s) (codex_stream u out) \<and> length (cs_chan s) \<le> eventBufferSize \<and>
    (cs_closed s \<longleftrightarrow> cs_pc s = CxDone) \<and>
    (\<not> d \<and> cs_closed s \<longrightarrow> t @ cs_chan s = codex_stream u out)"
proof -
  have inv: "codex_inv u out s d t" using codex_inv_reach [OF assms] by simp
  have "prefix (cs_chan s) (codex_pending u s)" by (simp add: codex_pending_def)
  with inv have "prefix (t @ cs_chan s) (codex_stream u out)" by (simp add: codex_inv_def prefix_cat)
  with inv show ?thesis by (auto simp: codex_inv_def codex_pending_def)
qed

theorem codex_session_stream_witness:
  "\<exists>s. codex_reach demo_unmarshal crashed (s, False, []) \<and> cs_closed s \<and>
     [] @ cs_chan s = codex_stream demo_unmarshal crashed \<and>
     codex_stream demo_unmarshal crashed = [demo_message ''a'', demo_message ''b'']"
proof -
  let ?s = "(codex_step demo_unmarshal ^^ 7) (codex_start crashed)"
  have "codex_reach demo_unmarshal crashed (?s, False, [])" by (rule codex_reach_steps [OF reach_start])
  moreover have "cs_closed ?s"
    by (simp add: eval_nat_numeral codex_simps crashed_def demo_unmarshal_def eventBufferSize_def shouldEmitIdle_def isPipeClosedError_def)
  moreover have "codex_stream demo_unmarshal crashed = [demo_message ''a'', demo_message ''b'']" by code_simp
  moreover have "[] @ cs_chan ?s = codex_stream demo_unmarshal crashed"
    using codex_session_stream [OF calculation(1)] calculation(2) by blast
  ultimately show ?thesis by blast
qed

section \<open>The reader\<close>

text \<open>
  A receive from the channel: the goroutine runs until there is an event or the channel is closed.  With
  the flag set the goroutine takes the end of the context at the first select it waits at.
\<close>

definition codex_go :: "(string \<Rightarrow> go_error + raw_event) \<Rightarrow> bool \<Rightarrow> codex_session \<Rightarrow> codex_session" where
  "codex_go u gone s = (if gone \<and> at_select s then codex_cancel s else codex_step u s)"

fun steps_left :: "codex_session \<Rightarrow> nat" where
  "steps_left s =
     (case cs_pc s of
        CxScan \<Rightarrow> 2 * length (cs_lines s) + 3
      | CxSend e \<Rightarrow> 2 * length (cs_lines s) + 4
      | CxWait \<Rightarrow> 2
      | CxIdle \<Rightarrow> 1
      | CxDone \<Rightarrow> 0)"

declare steps_left.simps [simp del]

lemma codex_go_progress:
  "cs_chan s = [] \<Longrightarrow> cs_pc s \<noteq> CxDone \<Longrightarrow> steps_left (codex_go u gone s) < steps_left s"
  by (cases "cs_pc s")
    (auto simp: codex_go_def at_select_def steps_left.simps codex_simps eventBufferSize_def split: list.split sum.split)

function codex_recv :: "(string \<Rightarrow> go_error + raw_event) \<Rightarrow> bool \<Rightarrow> codex_session \<Rightarrow> raw_event option \<times> codex_session" where
  "codex_recv u gone s =
     (case cs_chan s of
        e # q \<Rightarrow> (Some e, s\<lparr>cs_chan := q\<rparr>)
      | [] \<Rightarrow> (if cs_pc s = CxDone then (None, s) else codex_recv u gone (codex_go u gone s)))"
  by pat_completeness auto
termination
  by (relation "measure (\<lambda>(u, gone, s). steps_left s)") (simp_all add: codex_go_progress)

declare codex_recv.simps [simp del]

lemma codex_go_pending: "prefix (codex_pending u (codex_go u gone s)) (codex_pending u s)"
  by (simp add: codex_go_def codex_pending_cancel)

text \<open>What a receive yields is the next of the pending events, and nothing else is lost while the context lasts.\<close>

lemma codex_recv_pending:
  "codex_recv u gone s = (r, s') \<Longrightarrow>
     (case r of
        None \<Rightarrow> codex_pending u s' = [] \<and> (\<not> gone \<longrightarrow> codex_pending u s = [])
      | Some e \<Rightarrow> prefix (e # codex_pending u s') (codex_pending u s) \<and>
                  (\<not> gone \<longrightarrow> codex_pending u s = e # codex_pending u s'))"
proof (induction u gone s rule: codex_recv.induct)
  case (1 u gone s)
  show ?case
  proof (cases "cs_chan s")
    case (Cons e q)
    with 1(2) show ?thesis by (auto simp: codex_recv.simps [of u gone s] codex_take_pending)
  next
    case Nil
    show ?thesis
    proof (cases "cs_pc s = CxDone")
      case True
      with Nil 1(2) show ?thesis
        by (auto simp: codex_recv.simps [of u gone s] codex_pending_def)
    next
      case False
      with Nil 1(2) have "codex_recv u gone (codex_go u gone s) = (r, s')"
        by (simp add: codex_recv.simps [of u gone s])
      from 1(1) [OF Nil False this] codex_go_pending [of u gone s] show ?thesis
        by (cases r) (auto simp: codex_go_def intro: prefix_order.trans)
    qed
  qed
qed

text \<open>A receive is a run of the interleaved system.\<close>

lemma codex_recv_moves:
  "codex_recv u gone s = (r, s') \<Longrightarrow> (gone \<longrightarrow> d) \<Longrightarrow>
     (codex_move u)\<^sup>*\<^sup>* (s, d, t) (s', d, t @ (case r of None \<Rightarrow> [] | Some e \<Rightarrow> [e]))"
proof (induction u gone s rule: codex_recv.induct)
  case (1 u gone s)
  show ?case
  proof (cases "cs_chan s")
    case (Cons e q)
    with 1(2) have "r = Some e" "s' = s\<lparr>cs_chan := q\<rparr>" by (auto simp: codex_recv.simps [of u gone s])
    with move_take [OF Cons, of u d t] show ?thesis by auto
  next
    case Nil
    show ?thesis
    proof (cases "cs_pc s = CxDone")
      case False
      with Nil 1(2) have rec: "codex_recv u gone (codex_go u gone s) = (r, s')"
        by (simp add: codex_recv.simps [of u gone s])
      have "codex_move u (s, d, t) (codex_go u gone s, d, t)"
        using 1(3) by (auto simp: codex_go_def intro: move_step move_cancel)
      then show ?thesis using 1(1) [OF Nil False rec 1(3)] by (rule converse_rtranclp_into_rtranclp)
    qed (use Nil 1(2) in \<open>simp add: codex_recv.simps [of u gone s]\<close>)
  qed
qed

end
