(* ===== verification/Codex_Session.thy ===== *)
theory Codex_Session
  imports Codex
begin

text \<open>
  The session client of the Codex provider and its composition with the event loop of the worker: a run
  over a wrapper's session returns, and what it stores are the events of the wrapper's output.
\<close>

section \<open>The client\<close>

definition codex_StartSession :: "'w codex \<Rightarrow> ctx \<Rightarrow> string \<Rightarrow> string \<Rightarrow> ('w, string \<times> nat) reader" where
  "codex_StartSession cx c prompt repoPath w =
     (case resolveWrapperPath cx w of
        Inl e \<Rightarrow> (Inl e, w)
      | Inr path \<Rightarrow>
          (case cx_StdoutPipe cx w of
             (Some e, w1) \<Rightarrow> (Inl (Wrapf ''codex wrapper stdout pipe'' e), w1)
           | (None, w1) \<Rightarrow>
               (case cx_StderrPipe cx w1 of
                  (Some e, w2) \<Rightarrow> (Inl (Wrapf ''codex wrapper stderr pipe'' e), w2)
                | (None, w2) \<Rightarrow>
                    (case cx_Start cx c path [''--repo-path'', repoPath, ''--prompt'', prompt] w2 of
                       (Inl e, w3) \<Rightarrow> (Inl (Wrapf ''start codex wrapper'' e), w3)
                     | (Inr (pid, out), w3) \<Rightarrow>
                         (Inr (''codex-'' @ FormatInt pid, length (cx_sessions cx w3)),
                          cx_put cx (cx_sessions cx w3 @ [codex_start out]) w3)))))"

definition codex_SelectEvent :: "'w codex \<Rightarrow> ctx \<Rightarrow> nat \<Rightarrow> ('w, select_result) act" where
  "codex_SelectEvent cx c h w =
     (case cx_select cx c h w of
        (BranchDone e, w1) \<Rightarrow> (SelDone e, w1)
      | (BranchEvents gone, w1) \<Rightarrow>
          (let ss = cx_sessions cx w1
           in if h < length ss then
                (case codex_recv (cx_Unmarshal cx) gone (ss ! h) of
                   (r, s') \<Rightarrow> (case r of None \<Rightarrow> SelClosed | Some e \<Rightarrow> SelEvent e, cx_put cx (ss[h := s']) w1))
              else (SelClosed, w1)))"

definition codex_StopSession :: "'w codex \<Rightarrow> nat \<Rightarrow> 'w \<Rightarrow> 'w" where
  "codex_StopSession cx h w =
     (let ss = cx_sessions cx w
      in if h < length ss then cx_put cx (ss[h := codex_stop (ss ! h)]) w else w)"

definition codex_client :: "'w codex \<Rightarrow> 'w copilot_client" where
  "codex_client cx =
     \<lparr>StartSession = codex_StartSession cx, SelectEvent = codex_SelectEvent cx, StopSession = codex_StopSession cx\<rparr>"

text \<open>
  What the client relies on: the sessions are a part of the world of their own, which the calls the
  event loop makes besides leave alone.
\<close>

definition codex_ok :: "'w codex \<Rightarrow> 'w task_env \<Rightarrow> bool" where
  "codex_ok cx env \<longleftrightarrow>
     (\<forall>ss w. cx_sessions cx (cx_put cx ss w) = ss) \<and>
     (\<forall>c h w. cx_sessions cx (snd (cx_select cx c h w)) = cx_sessions cx w) \<and>
     (\<forall>w. cx_sessions cx (snd (te_now env w)) = cx_sessions cx w) \<and>
     (\<forall>c e w. cx_sessions cx (snd (InsertSessionEvent (te_store env) c e w)) = cx_sessions cx w) \<and>
     (\<forall>publish c sid e w. te_bus env = Some publish \<longrightarrow>
        cx_sessions cx (snd (publish c sid e w)) = cx_sessions cx w) \<and>
     (\<forall>c b r t e w. cx_sessions cx (snd (NotifyError (te_notifier env) c b r t e w)) = cx_sessions cx w)"

lemma codex_okD:
  assumes "codex_ok cx env"
  shows "cx_sessions cx (cx_put cx ss w) = ss"
    and "cx_select cx c h w = (x, w') \<Longrightarrow> cx_sessions cx w' = cx_sessions cx w"
    and "te_now env w = (t, w') \<Longrightarrow> cx_sessions cx w' = cx_sessions cx w"
    and "InsertSessionEvent (te_store env) c e w = (y, w') \<Longrightarrow> cx_sessions cx w' = cx_sessions cx w"
    and "cx_sessions cx (snd (NotifyError (te_notifier env) c i j k err w)) = cx_sessions cx w"
  using assms unfolding codex_ok_def by (metis snd_conv)+

lemma codex_ok_publish:
  assumes "codex_ok cx env"
  shows "cx_sessions cx (publish_event env c b rid ref sid e w) = cx_sessions cx w"
proof (cases "te_bus env")
  case (Some publish)
  then have "cx_sessions cx (snd (publish c sid e w)) = cx_sessions cx w"
    using assms unfolding codex_ok_def by blast
  with Some codex_okD(5) [OF assms] show ?thesis
    by (auto simp: publish_event_def split: prod.splits option.splits)
qed (simp add: publish_event_def)

section \<open>Runs over a wrapper's session return\<close>

definition codex_left :: "'w codex \<Rightarrow> 'w \<Rightarrow> nat" where
  "codex_left cx w = sum_list (map (\<lambda>s. length (codex_pending (cx_Unmarshal cx) s)) (cx_sessions cx w))"

lemma codex_select_cases:
  assumes "codex_ok cx env" and "SelectEvent (codex_client cx) c h w = (sel, w')"
  obtains (ended) e where "sel = SelDone e" "fst (cx_select cx c h w) = BranchDone e" "cx_sessions cx w' = cx_sessions cx w"
  | (closed) "sel = SelClosed" "length (cx_sessions cx w) \<le> h"
  | (recv) gone r s' where "fst (cx_select cx c h w) = BranchEvents gone" "h < length (cx_sessions cx w)"
      "codex_recv (cx_Unmarshal cx) gone (cx_sessions cx w ! h) = (r, s')"
      "sel = (case r of None \<Rightarrow> SelClosed | Some e \<Rightarrow> SelEvent e)" "cx_sessions cx w' = (cx_sessions cx w)[h := s']"
proof -
  obtain br w1 where sb: "cx_select cx c h w = (br, w1)" by fastforce
  note same = codex_okD(2) [OF assms(1) sb]
  show thesis
  proof (cases br)
    case (BranchDone e)
    with assms(2) sb same ended show ?thesis by (auto simp: codex_client_def codex_SelectEvent_def)
  next
    case (BranchEvents gone)
    obtain r s' where rc: "codex_recv (cx_Unmarshal cx) gone (cx_sessions cx w ! h) = (r, s')" by fastforce
    show ?thesis
    proof (cases "h < length (cx_sessions cx w)")
      case True
      with assms(2) sb same rc BranchEvents
      have "sel = (case r of None \<Rightarrow> SelClosed | Some e \<Rightarrow> SelEvent e)" "w' = cx_put cx ((cx_sessions cx w)[h := s']) w1"
        by (simp_all add: codex_client_def codex_SelectEvent_def Let_def)
      with recv [OF _ True rc] sb BranchEvents codex_okD(1) [OF assms(1)] show ?thesis by simp
    next
      case False
      with assms(2) sb same rc BranchEvents closed show ?thesis
        by (simp add: codex_client_def codex_SelectEvent_def Let_def)
    qed
  qed
qed

lemma codex_drains:
  assumes "codex_ok cx env"
  shows "drains (codex_left cx) env (codex_client cx)"
  unfolding drains_def
proof (intro conjI allI impI)
  fix c h w evt w'
  assume sel: "SelectEvent (codex_client cx) c h w = (SelEvent evt, w')"
  from assms sel show "codex_left cx w' < codex_left cx w"
  proof (cases rule: codex_select_cases)
    case (recv gone r s')
    then have "r = Some evt" by (cases r) auto
    with codex_recv_pending [OF recv(3)]
    have "length (codex_pending (cx_Unmarshal cx) s') < length (codex_pending (cx_Unmarshal cx) (cx_sessions cx w ! h))"
      by (auto dest: prefix_length_le)
    with recv show ?thesis by (simp add: codex_left_def sum_list_update_less)
  qed simp_all
next
  fix publish c sid e w
  assume "te_bus env = Some publish"
  then have "cx_sessions cx (snd (publish c sid e w)) = cx_sessions cx w"
    using assms unfolding codex_ok_def by blast
  then show "codex_left cx (snd (publish c sid e w)) \<le> codex_left cx w" by (simp add: codex_left_def)
qed (use assms in \<open>simp_all add: codex_left_def codex_ok_def\<close>)

section \<open>What a run takes from a session\<close>

fun up_to_idle :: "raw_event list \<Rightarrow> raw_event list" where
  "up_to_idle [] = []"
| "up_to_idle (e # es) = e # (if isSessionIdleEvent e then [] else up_to_idle es)"

text \<open>A context that lasts as long as the session, and a store that takes its events.\<close>

definition undisturbed :: "'w codex \<Rightarrow> 'w task_env \<Rightarrow> bool" where
  "undisturbed cx env \<longleftrightarrow>
     (\<forall>c h w. fst (cx_select cx c h w) = BranchEvents False) \<and>
     (\<forall>c e w. fst (InsertSessionEvent (te_store env) c e w) = None)"

lemma codex_session_end:
  assumes "session_end env (codex_client cx) c b rid ref sid h w evs r w'"
    and "codex_ok cx env" and "undisturbed cx env" and "h < length (cx_sessions cx w)"
  shows "r = (TaskRunStatusSucceeded, None) \<and>
    evs = up_to_idle (codex_pending (cx_Unmarshal cx) (cx_sessions cx w ! h))"
  using assms(1,4)
proof (induction rule: session_end.induct)
  case (end_done w e w')
  from assms(2) end_done(1) show ?case
    by (cases rule: codex_select_cases) (use assms(3) in \<open>auto simp: undisturbed_def split: option.splits\<close>)
next
  case (end_closed w w')
  from assms(2) end_closed(1) show ?case
  proof (cases rule: codex_select_cases)
    case (recv gone r s')
    then have "r = None" "gone = False" using assms(3) by (auto simp: undisturbed_def split: option.splits)
    with codex_recv_pending [OF recv(3)] show ?thesis by simp
  qed (use end_closed in simp_all)
next
  case (end_insert w evt w1 t w2 e w3)
  then show ?case using assms(3) by (metis fst_conv option.distinct(1) undisturbed_def)
next
  case (end_idle w evt w1 t w2 w3)
  from assms(2) end_idle(1) show ?case
  proof (cases rule: codex_select_cases)
    case (recv gone r s')
    then have "r = Some evt" "gone = False" using assms(3) by (auto simp: undisturbed_def split: option.splits)
    with codex_recv_pending [OF recv(3)] end_idle(4) show ?thesis by simp
  qed (use end_idle in simp_all)
next
  case (end_more w evt w1 t w2 w3 evs r w')
  from assms(2) end_more(1) show ?case
  proof (cases rule: codex_select_cases)
    case (recv gone r' s')
    then have r: "r' = Some evt" "gone = False" using assms(3) by (auto simp: undisturbed_def split: option.splits)
    let ?w = "publish_event env c b rid ref sid (session_event_of b rid sid evt t) w3"
    have "cx_sessions cx ?w = (cx_sessions cx w)[h := s']"
      using codex_ok_publish [OF assms(2)] codex_okD(3) [OF assms(2) end_more(2)]
        codex_okD(4) [OF assms(2) end_more(3)] recv(5) by simp
    with end_more.IH end_more.prems have "r = (TaskRunStatusSucceeded, None) \<and>
        evs = up_to_idle (codex_pending (cx_Unmarshal cx) s')" by simp
    with codex_recv_pending [OF recv(3)] r end_more(4) show ?thesis by simp
  qed (use end_more in simp_all)
qed

text \<open>
  C12: What a run leaves of a wrapper's output.  When the context lasts and the store takes the events,
  the event loop over a new session of the Codex provider returns, with success whatever the exit of the
  process, and the session events stored are those of the readable lines, in order, with the synthetic
  idle event where the provider adds it, up to the first idle event.
\<close>

theorem codex_session_stored:
  assumes "driver_ok drv docs" and "te_store env = mongo_storage drv" and "keeps_view docs env (codex_client cx)"
    and "codex_ok cx env" and "undisturbed cx env"
    and "h < length (cx_sessions cx w)" and "cx_sessions cx w ! h = codex_start out"
  shows "\<exists>w' ts. event_loop env (codex_client cx) c b rid ref sid h w = Some ((TaskRunStatusSucceeded, None), w') \<and>
    length ts = length (up_to_idle (codex_stream (cx_Unmarshal cx) out)) \<and>
    docs w' = (docs w)(sessionEventsCollection := docs w sessionEventsCollection @
      event_docs b rid sid (up_to_idle (codex_stream (cx_Unmarshal cx) out)) ts)"
proof -
  let ?evs = "up_to_idle (codex_stream (cx_Unmarshal cx) out)"
  obtain r w' where lp: "event_loop env (codex_client cx) c b rid ref sid h w = Some (r, w')"
    using event_loop_returns [OF codex_drains [OF assms(4)]] by (metis prod.collapse)
  from event_loop_ends [OF lp] obtain evs where se: "session_end env (codex_client cx) c b rid ref sid h w evs r w'"
    by blast
  from codex_session_end [OF se assms(4-6)] assms(7)
  have r: "r = (TaskRunStatusSucceeded, None)" "evs = ?evs" by (simp_all add: codex_pending_start)
  from session_docs [OF se assms(1-3)] obtain ts n where "length ts = length evs" "length evs \<le> n"
    "docs w' = (docs w)(sessionEventsCollection := docs w sessionEventsCollection @ take n (event_docs b rid sid evs ts))"
    using r(1) by auto
  with lp r show ?thesis by (intro exI [of _ w'] exI [of _ ts]) (auto simp: event_docs_def)
qed

section \<open>A concrete wrapper\<close>

record codex_state = demo_state +
  cw_sessions :: "codex_session list"

definition demo_codex :: "codex_output \<Rightarrow> select_branch \<Rightarrow> codex_state codex" where
  "demo_codex out br =
     \<lparr>cx_lookupEnv = (\<lambda>k w. None), cx_stat = (\<lambda>p w. Inr \<lparr>fi_IsDir = False, fi_Mode = 493\<rparr>),
      cx_getwd = (\<lambda>w. Inr ''/srv/app/''), cx_Quote = (\<lambda>s. s), cx_Octal = (\<lambda>m. ''0755''),
      cx_StdoutPipe = (\<lambda>w. (None, w)), cx_StderrPipe = (\<lambda>w. (None, w)),
      cx_Start = (\<lambda>c p args w. (Inr (7, out), w)), cx_Unmarshal = demo_unmarshal,
      cx_select = (\<lambda>c h w. (br, w)),
      cx_sessions = cw_sessions, cx_put = (\<lambda>ss w. w\<lparr>cw_sessions := ss\<rparr>)\<rparr>"

definition codex_env :: "codex_state task_env" where
  "codex_env =
     \<lparr>te_store = mongo_storage (lift_driver list_driver), te_tracker = None, te_notifier = noop_notifier,
      te_bus = None, te_now = on_db (Now list_driver), te_metric = (\<lambda>p w. w)\<rparr>"

definition codex_state0 :: "codex_session list \<Rightarrow> codex_state" where
  "codex_state0 ss =
     \<lparr>dm_db = demo_db [demo_batch] [demo_agent], dm_scripts = [], dm_current = [], dm_log = [], cw_sessions = ss\<rparr>"

lemma on_db_sessions [simp]: "cw_sessions (snd (on_db f w)) = cw_sessions w"
  by (simp add: on_db_def split: prod.splits)

lemma codex_env_simps [simp]:
  "te_store codex_env = mongo_storage (lift_driver list_driver)" "te_tracker codex_env = None"
  "te_notifier codex_env = noop_notifier" "te_bus codex_env = None" "te_now codex_env = on_db (Now list_driver)"
  "te_metric codex_env p w = w"
  by (simp_all add: codex_env_def)

lemma codex_env_ok: "codex_ok (demo_codex out br) codex_env"
  by (auto simp: codex_ok_def demo_codex_def mongo_storage_def mongo_InsertSessionEvent_def mongo_insert_def
      lift_driver_def split: prod.split option.split) (metis on_db_sessions snd_conv)+

lemma codex_env_undisturbed: "undisturbed (demo_codex out (BranchEvents False)) codex_env"
  by (auto simp: undisturbed_def demo_codex_def mongo_storage_def mongo_InsertSessionEvent_def mongo_insert_def
      lift_driver_def on_db_def list_driver_def)

lemma codex_env_keeps: "keeps_view dm_docs codex_env (codex_client (demo_codex out br))"
proof -
  have put: "dm_docs (w\<lparr>cw_sessions := ss\<rparr>) = dm_docs w" for w :: codex_state and ss
    by (simp add: dm_docs_def)
  have "dm_docs (snd (codex_StartSession (demo_codex out br) c p r w)) = dm_docs w" for c p r w
    by (simp add: codex_StartSession_def demo_codex_def put split: sum.split)
  moreover have "dm_docs (snd (codex_SelectEvent (demo_codex out br) c h w)) = dm_docs w" for c h w
    by (simp add: codex_SelectEvent_def demo_codex_def put Let_def split: select_branch.split prod.split)
  moreover have "dm_docs (codex_StopSession (demo_codex out br) h w) = dm_docs w" for h w
    by (simp add: codex_StopSession_def demo_codex_def put Let_def)
  ultimately show ?thesis by (simp add: keeps_view_def demo_now_docs codex_client_def)
qed

theorem codex_session_stored_witness:
  "\<exists>w' t1 t2. event_loop codex_env (codex_client (demo_codex crashed (BranchEvents False))) (CtxBase 0) demo_batch
       ''run-1'' ''yr-1'' ''codex-7'' 0 (codex_state0 [codex_start crashed]) =
       Some ((TaskRunStatusSucceeded, None), w') \<and>
     dm_docs w' sessionEventsCollection =
       event_docs demo_batch ''run-1'' ''codex-7'' [demo_message ''a'', demo_message ''b''] [t1, t2]"
proof -
  let ?cx = "demo_codex crashed (BranchEvents False)" and ?w = "codex_state0 [codex_start crashed]"
  have evs: "up_to_idle (codex_stream (cx_Unmarshal ?cx) crashed) = [demo_message ''a'', demo_message ''b'']"
    and "0 < length (cx_sessions ?cx ?w)" and "cx_sessions ?cx ?w ! 0 = codex_start crashed"
    and "dm_docs ?w sessionEventsCollection = []"
    by code_simp+
  with codex_session_stored [OF demo_driver_ok codex_env_simps(1) codex_env_keeps codex_env_ok codex_env_undisturbed,
      of 0 crashed ?w crashed "CtxBase 0" demo_batch "''run-1''" "''yr-1''" "''codex-7''"]
  obtain w' ts where lp: "event_loop codex_env (codex_client ?cx) (CtxBase 0) demo_batch ''run-1'' ''yr-1'' ''codex-7'' 0 ?w =
      Some ((TaskRunStatusSucceeded, None), w')" and ts: "length ts = Suc (Suc 0)"
    and docs: "dm_docs w' sessionEventsCollection =
      event_docs demo_batch ''run-1'' ''codex-7'' [demo_message ''a'', demo_message ''b''] ts"
    by auto
  from ts obtain t1 t2 where "ts = [t1, t2]" by (auto simp: length_Suc_conv)
  with lp docs show ?thesis by blast
qed

text \<open>
  A run whose context is done may be a success as well: the goroutine waits with an event, sees the end of
  the context and closes the channel, and the event loop finds the channel closed.
\<close>

lemma cancelled_run_succeeds:
  "\<exists>w'. event_loop codex_env (codex_client (demo_codex crashed (BranchEvents True))) (CtxBase 0) demo_batch
      ''run-1'' ''yr-1'' ''codex-7'' 0 (codex_state0 [codex_start crashed]) =
      Some ((TaskRunStatusSucceeded, None), w')"
  by (subst event_loop.simps)
    (simp add: codex_client_def codex_SelectEvent_def demo_codex_def codex_state0_def crashed_def codex_recv.simps
      codex_go_def at_select_def codex_simps demo_unmarshal_def)

text \<open>Tasks over sessions of the provider return.\<close>

lemma codex_task_returns:
  "codex_ok cx env \<Longrightarrow> executeTask env (codex_client cx) c repoPath newRunID b ref prompt w \<noteq> None"
  by (rule executeTask_returns [OF codex_drains])

end
