(* ===== verification/GitHub.thy ===== *)
theory GitHub
  imports Codex
begin

text \<open>
  The GitHub Copilot provider, internal/copilot/github.go: which token is used, how a session is
  started and stopped, and the handler that the SDK calls with every event.  The environment, the SDK and
  the JSON codec are arguments.  The handler runs on a goroutine of the SDK, \<^verbatim>\<open>stop\<close> on that of the worker,
  so both are split where the other may come in between.  Logging is left out.
\<close>

section \<open>Tokens and paths\<close>

definition token_keys :: "string list" where
  "token_keys = [''COPILOT_GITHUB_TOKEN'', ''GH_TOKEN'', ''GITHUB_TOKEN'']"

fun first_token :: "(string \<Rightarrow> string option) \<Rightarrow> string list \<Rightarrow> string \<times> string" where
  "first_token env [] = ([], [])"
| "first_token env (k # ks) =
     (case env k of
        None \<Rightarrow> first_token env ks
      | Some v \<Rightarrow> (let t = TrimSpace v in if t \<noteq> [] then (t, k) else first_token env ks))"

definition selectToken :: "(string \<Rightarrow> string option) \<Rightarrow> string \<times> string" where
  "selectToken env = first_token env token_keys"

text \<open>The choice of a client built by \<^verbatim>\<open>NewGitHubWithToken\<close>.\<close>

definition selectGivenToken :: "string \<Rightarrow> string \<Rightarrow> string \<times> string" where
  "selectGivenToken token tokenKey =
     (let key = TrimSpace tokenKey in (TrimSpace token, if key = [] then ''config'' else key))"

definition resolveCLIPath :: "(string \<Rightarrow> string option) \<Rightarrow> (string \<Rightarrow> go_error + string) \<Rightarrow> string" where
  "resolveCLIPath env lookPath =
     (let explicit = TrimSpace (case env ''COPILOT_CLI_PATH'' of None \<Rightarrow> [] | Some v \<Rightarrow> v)
      in if explicit \<noteq> [] then explicit
         else case lookPath ''github-copilot-cli'' of
             Inr p \<Rightarrow> p
           | Inl _ \<Rightarrow> (case lookPath ''copilot'' of Inr p \<Rightarrow> p | Inl _ \<Rightarrow> ''copilot''))"

definition defaultSkillDirectories :: "go_error + string \<Rightarrow> string list" where
  "defaultSkillDirectories home =
     (case home of
        Inl e \<Rightarrow> []
      | Inr h \<Rightarrow> (if TrimSpace h \<noteq> [] then [JoinPath h ''.copilot/skills''] else []))"

definition encodeRawEvent ::
    "('e \<Rightarrow> go_error + string) \<Rightarrow> (string \<Rightarrow> go_error + raw_event) \<Rightarrow> 'e \<Rightarrow> go_error + raw_event" where
  "encodeRawEvent marshal unmarshal event =
     (case marshal event of Inl e \<Rightarrow> Inl e | Inr payload \<Rightarrow> unmarshal payload)"

section \<open>A session\<close>

text \<open>
  The handler is idle or between its two selects with an event.  \<^verbatim>\<open>stop\<close> has not been called, has cancelled
  the context of the handler, has unsubscribed it and stopped the SDK, or has closed the channel.
\<close>

datatype gh_handler = HandlerIdle | HandlerReady raw_event
datatype gh_stop = StopNone | StopCanceled | StopUnsubscribed | StopClosed

record github_session =
  gs_chan :: "raw_event list"
  gs_handler :: gh_handler
  gs_stop :: gh_stop
  gs_panicked :: bool

definition github_session0 :: github_session where
  "github_session0 = \<lparr>gs_chan = [], gs_handler = HandlerIdle, gs_stop = StopNone, gs_panicked = False\<rparr>"

definition gs_canceled :: "github_session \<Rightarrow> bool" where
  "gs_canceled s \<longleftrightarrow> gs_stop s \<noteq> StopNone"

definition gs_closed :: "github_session \<Rightarrow> bool" where
  "gs_closed s \<longleftrightarrow> gs_stop s = StopClosed"

text \<open>The handler up to its first select: an event that cannot be encoded is skipped.\<close>

definition handler_enter :: "('e \<Rightarrow> go_error + raw_event) \<Rightarrow> 'e \<Rightarrow> github_session \<Rightarrow> github_session" where
  "handler_enter enc event s =
     (case enc event of
        Inl e \<Rightarrow> s
      | Inr raw \<Rightarrow> (if gs_canceled s then s else s\<lparr>gs_handler := HandlerReady raw\<rparr>))"

text \<open>
  Its second select, with whether the context of the session is done: one of the branches that are ready,
  the default if none is.  A send to a closed channel is ready, and panics.
\<close>

datatype send_result = SendPushed | SendPanic | SendStopped | SendCtxDone | SendFull

definition send_ready :: "bool \<Rightarrow> github_session \<Rightarrow> send_result list" where
  "send_ready ctxDone s =
     (let ready = (if gs_closed s then [SendPanic]
                   else if length (gs_chan s) < eventBufferSize then [SendPushed] else []) @
                  (if gs_canceled s then [SendStopped] else []) @ (if ctxDone then [SendCtxDone] else [])
      in if ready = [] then [SendFull] else ready)"

definition handler_send :: "send_result \<Rightarrow> raw_event \<Rightarrow> github_session \<Rightarrow> github_session" where
  "handler_send r raw s =
     (case r of
        SendPushed \<Rightarrow> s\<lparr>gs_chan := gs_chan s @ [raw], gs_handler := HandlerIdle\<rparr>
      | SendPanic \<Rightarrow> s\<lparr>gs_panicked := True, gs_handler := HandlerIdle\<rparr>
      | _ \<Rightarrow> s\<lparr>gs_handler := HandlerIdle\<rparr>)"

text \<open>\<^verbatim>\<open>stop\<close>, one step at a time; it runs once.\<close>

definition github_stop_step :: "github_session \<Rightarrow> github_session" where
  "github_stop_step s =
     s\<lparr>gs_stop := (case gs_stop s of
          StopNone \<Rightarrow> StopCanceled
        | StopCanceled \<Rightarrow> StopUnsubscribed
        | StopUnsubscribed \<Rightarrow> StopClosed
        | StopClosed \<Rightarrow> StopClosed)\<rparr>"

section \<open>The client\<close>

record sdk_options =
  so_GithubToken :: string
  so_Cwd :: string
  so_UseLoggedInUser :: bool
  so_LogLevel :: string

record sdk_config =
  sg_Model :: string
  sg_SkillDirectories :: "string list"
  sg_WorkingDirectory :: string
  sg_Streaming :: bool
  sg_Permission :: string \<comment> \<open>what a permission request is answered with\<close>

text \<open>
  The calls of the SDK: a client with a session, which has an identifier, sending the prompt, stopping the
  client.  \<open>gh_receive\<close> is the wait of the event loop: it ends with the end of the context, or with an
  event or the end in the channel of the session, and the SDK may call the handler meanwhile.
\<close>

record 'w github =
  gh_selectTok :: "'w \<Rightarrow> string \<times> string"
  gh_home :: "'w \<Rightarrow> go_error + string"
  gh_CreateSession :: "ctx \<Rightarrow> sdk_options \<Rightarrow> sdk_config \<Rightarrow> ('w, go_error + string) act"
  gh_Send :: "ctx \<Rightarrow> string \<Rightarrow> ('w, go_error option) act"
  gh_StopClient :: "'w \<Rightarrow> 'w"
  gh_receive :: "ctx \<Rightarrow> nat \<Rightarrow> ('w, go_error option) act"
  gh_sessions :: "'w \<Rightarrow> github_session list"
  gh_put :: "github_session list \<Rightarrow> 'w \<Rightarrow> 'w"

definition approvePermission :: string where
  "approvePermission = ''approved''"

definition sdk_options_of :: "string \<Rightarrow> string \<Rightarrow> sdk_options" where
  "sdk_options_of token repoPath =
     \<lparr>so_GithubToken = token, so_Cwd = repoPath, so_UseLoggedInUser = False, so_LogLevel = ''debug''\<rparr>"

definition sdk_config_of :: "go_error + string \<Rightarrow> string \<Rightarrow> sdk_config" where
  "sdk_config_of home repoPath =
     \<lparr>sg_Model = ''gpt-5.1-codex-max'', sg_SkillDirectories = defaultSkillDirectories home,
      sg_WorkingDirectory = repoPath, sg_Streaming = True, sg_Permission = approvePermission\<rparr>"

text \<open>\<^verbatim>\<open>stop\<close> as the client calls it: the SDK is stopped between the second and the third step.\<close>

definition github_StopSession :: "'w github \<Rightarrow> nat \<Rightarrow> 'w \<Rightarrow> 'w" where
  "github_StopSession g h w =
     (let ss = gh_sessions g w
      in if h < length ss \<and> \<not> gs_canceled (ss ! h) then
           (let w1 = gh_StopClient g (gh_put g (ss[h := github_stop_step (github_stop_step (ss ! h))]) w);
                ss1 = gh_sessions g w1
            in gh_put g (ss1[h := github_stop_step (ss1 ! h)]) w1)
         else w)"

definition github_StartSession :: "'w github \<Rightarrow> ctx \<Rightarrow> string \<Rightarrow> string \<Rightarrow> ('w, string \<times> nat) reader" where
  "github_StartSession g c prompt repoPath w =
     (let (token, tokenKey) = gh_selectTok g w
      in if token = [] then
           (Inl (Errorf ''missing GitHub Copilot token (checked COPILOT_GITHUB_TOKEN, GH_TOKEN, GITHUB_TOKEN)''), w)
         else case gh_CreateSession g c (sdk_options_of token repoPath) (sdk_config_of (gh_home g w) repoPath) w of
             (Inl e, w1) \<Rightarrow> (Inl (Wrapf ''create copilot session'' e), gh_StopClient g w1)
           | (Inr sid, w1) \<Rightarrow>
               (let h = length (gh_sessions g w1); w2 = gh_put g (gh_sessions g w1 @ [github_session0]) w1
                in case gh_Send g c prompt w2 of
                     (Some e, w3) \<Rightarrow> (Inl (Wrapf ''send prompt'' e), github_StopSession g h w3)
                   | (None, w3) \<Rightarrow> (Inr (sid, h), w3)))"

definition github_SelectEvent :: "'w github \<Rightarrow> ctx \<Rightarrow> nat \<Rightarrow> ('w, select_result) act" where
  "github_SelectEvent g c h w =
     (case gh_receive g c h w of
        (Some e, w1) \<Rightarrow> (SelDone e, w1)
      | (None, w1) \<Rightarrow>
          (let ss = gh_sessions g w1
           in if h < length ss then
                (case gs_chan (ss ! h) of
                   e # q \<Rightarrow> (SelEvent e, gh_put g (ss[h := (ss ! h)\<lparr>gs_chan := q\<rparr>]) w1)
                 | [] \<Rightarrow> (SelClosed, w1))
              else (SelClosed, w1)))"

definition github_client :: "'w github \<Rightarrow> 'w copilot_client" where
  "github_client g =
     \<lparr>StartSession = github_StartSession g, SelectEvent = github_SelectEvent g, StopSession = github_StopSession g\<rparr>"

section \<open>Every interleaving of handler, reader and stop\<close>

text \<open>
  A state is the session, whether its context is done, the events the handler accepted, the events the
  reader took, and the events lost with the branch that lost them.  With \<open>waits\<close> the SDK's \<^verbatim>\<open>Stop\<close> does
  not return while the handler runs.
\<close>

type_synonym gh_state = "github_session \<times> bool \<times> raw_event list \<times> raw_event list \<times> (send_result \<times> raw_event) list"

definition accepted :: "('e \<Rightarrow> go_error + raw_event) \<Rightarrow> 'e \<Rightarrow> github_session \<Rightarrow> raw_event list" where
  "accepted enc event s = (case enc event of Inl e \<Rightarrow> [] | Inr raw \<Rightarrow> (if gs_canceled s then [] else [raw]))"

inductive gh_move :: "bool \<Rightarrow> ('e \<Rightarrow> go_error + raw_event) \<Rightarrow> gh_state \<Rightarrow> gh_state \<Rightarrow> bool"
  for waits :: bool and enc :: "'e \<Rightarrow> go_error + raw_event" where
  gh_enter: "gs_handler s = HandlerIdle \<Longrightarrow>
     gh_move waits enc (s, d, em, tk, lo) (handler_enter enc event s, d, em @ accepted enc event s, tk, lo)"
| gh_sent: "gs_handler s = HandlerReady raw \<Longrightarrow> r \<in> set (send_ready d s) \<Longrightarrow>
     gh_move waits enc (s, d, em, tk, lo)
       (handler_send r raw s, d, em, tk, if r = SendPushed then lo else lo @ [(r, raw)])"
| gh_take: "gs_chan s = e # q \<Longrightarrow>
     gh_move waits enc (s, d, em, tk, lo) (s\<lparr>gs_chan := q\<rparr>, d, em, tk @ [e], lo)"
| gh_done: "gh_move waits enc (s, d, em, tk, lo) (s, True, em, tk, lo)"
| gh_stop: "gs_stop s = StopUnsubscribed \<longrightarrow> waits \<longrightarrow> gs_handler s = HandlerIdle \<Longrightarrow>
     gh_move waits enc (s, d, em, tk, lo) (github_stop_step s, d, em, tk, lo)"

inductive gh_reach :: "bool \<Rightarrow> ('e \<Rightarrow> go_error + raw_event) \<Rightarrow> gh_state \<Rightarrow> bool"
  for waits :: bool and enc :: "'e \<Rightarrow> go_error + raw_event" where
  gh_start: "gh_reach waits enc (github_session0, False, [], [], [])"
| gh_next: "gh_reach waits enc x \<Longrightarrow> gh_move waits enc x y \<Longrightarrow> gh_reach waits enc y"

inductive_cases gh_moveE: "gh_move waits enc (s, d, em, tk, lo) y"

definition in_hand :: "github_session \<Rightarrow> raw_event list" where
  "in_hand s = (case gs_handler s of HandlerIdle \<Rightarrow> [] | HandlerReady raw \<Rightarrow> [raw])"

definition gh_inv :: "bool \<Rightarrow> gh_state \<Rightarrow> bool" where
  "gh_inv waits x \<longleftrightarrow>
     (case x of (s, d, em, tk, lo) \<Rightarrow>
        (\<exists>us. em = us @ in_hand s \<and> us \<in> shuffles (tk @ gs_chan s) (map snd lo)) \<and>
        length (gs_chan s) \<le> eventBufferSize \<and>
        (\<forall>(r, e) \<in> set lo. r = SendFull \<or> gs_canceled s \<or> d) \<and>
        (waits \<longrightarrow> \<not> gs_panicked s \<and> (gs_closed s \<longrightarrow> gs_handler s = HandlerIdle)))"

lemma shuffles_snoc_left: "zs \<in> shuffles xs ys \<Longrightarrow> zs @ [z] \<in> shuffles (xs @ [z]) ys"
proof (induction zs arbitrary: xs ys)
  case (Cons a zs)
  from Cons.prems consider "xs \<noteq> []" "hd xs = a" "zs \<in> shuffles (tl xs) ys"
    | "ys \<noteq> []" "hd ys = a" "zs \<in> shuffles xs (tl ys)"
    by (auto simp: Cons_in_shuffles_iff)
  then show ?case
    by cases (auto simp: Cons_in_shuffles_iff dest: Cons.IH)
qed simp

lemma shuffles_snoc_right: "zs \<in> shuffles xs ys \<Longrightarrow> zs @ [z] \<in> shuffles xs (ys @ [z])"
  using shuffles_snoc_left [of zs ys xs z] by (simp add: shuffles_commutes)

lemma send_ready_cases:
  "r \<in> set (send_ready d s) \<Longrightarrow>
     (r = SendPushed \<longrightarrow> \<not> gs_closed s \<and> length (gs_chan s) < eventBufferSize) \<and>
     (r = SendPanic \<longrightarrow> gs_closed s) \<and> (r = SendStopped \<longrightarrow> gs_canceled s) \<and> (r = SendCtxDone \<longrightarrow> d)"
  by (auto simp: send_ready_def Let_def split: if_splits)

lemma closed_canceled: "gs_closed s \<Longrightarrow> gs_canceled s"
  by (simp add: gs_closed_def gs_canceled_def)

lemma gh_stop_step_facts:
  "gs_canceled (github_stop_step s)" "gs_chan (github_stop_step s) = gs_chan s"
  "gs_handler (github_stop_step s) = gs_handler s" "in_hand (github_stop_step s) = in_hand s"
  "gs_panicked (github_stop_step s) = gs_panicked s"
  "gs_closed (github_stop_step s) \<longleftrightarrow> gs_stop s = StopUnsubscribed \<or> gs_closed s"
  by (cases "gs_stop s"; simp add: github_stop_step_def gs_canceled_def gs_closed_def in_hand_def)+

lemma gs_field_simps:
  "gs_canceled (s\<lparr>gs_chan := q\<rparr>) = gs_canceled s" "gs_canceled (s\<lparr>gs_handler := x\<rparr>) = gs_canceled s"
  "gs_canceled (s\<lparr>gs_panicked := p\<rparr>) = gs_canceled s"
  "gs_closed (s\<lparr>gs_chan := q\<rparr>) = gs_closed s" "gs_closed (s\<lparr>gs_handler := x\<rparr>) = gs_closed s"
  "gs_closed (s\<lparr>gs_panicked := p\<rparr>) = gs_closed s"
  by (simp_all add: gs_canceled_def gs_closed_def)

lemma gh_inv_move:
  assumes "gh_inv waits (s, d, em, tk, lo)" and "gh_move waits enc (s, d, em, tk, lo) y"
  shows "gh_inv waits y"
  using assms(2)
proof (rule gh_moveE)
  fix event
  assume "gs_handler s = HandlerIdle"
    and "y = (handler_enter enc event s, d, em @ accepted enc event s, tk, lo)"
  moreover have "gs_closed s \<Longrightarrow> gs_canceled s" by (rule closed_canceled)
  ultimately show ?thesis
    using assms(1)
    by (cases "enc event"; cases "gs_canceled s")
      (auto simp: gh_inv_def handler_enter_def accepted_def in_hand_def gs_field_simps)
next
  fix raw r
  assume h: "gs_handler s = HandlerReady raw" and r: "r \<in> set (send_ready d s)"
    and y: "y = (handler_send r raw s, d, em, tk, if r = SendPushed then lo else lo @ [(r, raw)])"
  from assms(1) h obtain us where us: "em = us @ [raw]" "us \<in> shuffles (tk @ gs_chan s) (map snd lo)"
    by (auto simp: gh_inv_def in_hand_def)
  have em: "em \<in> shuffles (tk @ gs_chan s @ [raw]) (map snd lo)" "em \<in> shuffles (tk @ gs_chan s) (map snd lo @ [raw])"
    using us shuffles_snoc_left [OF us(2), of raw] shuffles_snoc_right [OF us(2), of raw] by simp_all
  have "waits \<longrightarrow> \<not> gs_closed s" "length (gs_chan s) \<le> eventBufferSize"
    "\<forall>(r, e) \<in> set lo. r = SendFull \<or> gs_canceled s \<or> d" "waits \<longrightarrow> \<not> gs_panicked s"
    using assms(1) h by (simp_all add: gh_inv_def)
  moreover note send_ready_cases [OF r] closed_canceled [of s]
  ultimately show ?thesis
    unfolding y gh_inv_def using em
    by (cases r) (simp_all add: handler_send_def in_hand_def gs_field_simps)
next
  fix e q
  assume "gs_chan s = e # q" "y = (s\<lparr>gs_chan := q\<rparr>, d, em, tk @ [e], lo)"
  with assms(1) show ?thesis by (auto simp: gh_inv_def in_hand_def gs_field_simps)
next
  assume "y = (s, True, em, tk, lo)"
  with assms(1) show ?thesis by (auto simp: gh_inv_def)
next
  assume "y = (github_stop_step s, d, em, tk, lo)"
    and "gs_stop s = StopUnsubscribed \<longrightarrow> waits \<longrightarrow> gs_handler s = HandlerIdle"
  with assms(1) show ?thesis by (auto simp: gh_inv_def gh_stop_step_facts)
qed

lemma gh_inv_reach: "gh_reach waits enc x \<Longrightarrow> gh_inv waits x"
proof (induction rule: gh_reach.induct)
  case gh_start
  show ?case by (simp add: gh_inv_def github_session0_def in_hand_def gs_closed_def)
next
  case (gh_next x y)
  then show ?case by (cases x) (auto intro: gh_inv_move)
qed


text \<open>If the SDK does not wait, the handler may send to the channel that \<^verbatim>\<open>stop\<close> has closed, and panic.\<close>

lemma gh_stop_free: "gh_reach False enc (s, x) \<Longrightarrow> gh_reach False enc (github_stop_step s, x)"
  by (cases x) (auto intro: gh_next gh_stop)

theorem github_stop_panics:
  assumes "enc event = Inr raw"
  shows "\<exists>s em lo. gh_reach False enc (s, False, em, [], lo) \<and> gs_panicked s"
proof -
  let ?s = "\<lparr>gs_chan = [], gs_handler = HandlerReady raw, gs_stop = StopNone, gs_panicked = False\<rparr>"
  let ?c = "github_stop_step (github_stop_step (github_stop_step ?s))"
  have "gh_move False enc (github_session0, False, [], [], [])
      (handler_enter enc event github_session0, False, [] @ accepted enc event github_session0, [], [])"
    by (rule gh_enter) (simp add: github_session0_def)
  then have "gh_reach False enc (?s, False, [raw], [], [])"
    using gh_next [OF gh_start] assms
    by (simp add: handler_enter_def accepted_def github_session0_def gs_canceled_def)
  then have "gh_reach False enc (?c, False, [raw], [], [])" by (intro gh_stop_free)
  moreover have "SendPanic \<in> set (send_ready False ?c)" "gs_handler ?c = HandlerReady raw"
    by (simp_all add: send_ready_def github_stop_step_def gs_closed_def gs_canceled_def)
  ultimately have "gh_reach False enc (handler_send SendPanic raw ?c, False, [raw], [], [(SendPanic, raw)])"
    using gh_next gh_sent [of ?c raw SendPanic False] by fastforce
  moreover have "gs_panicked (handler_send SendPanic raw ?c)" by (simp add: handler_send_def)
  ultimately show ?thesis by blast
qed

section \<open>A burst of events\<close>

text \<open>
  While the reader is busy the channel takes 32 events; the next one is lost, the idle event that would
  have ended the run included.
\<close>

definition filled :: "raw_event list \<Rightarrow> github_session" where
  "filled es = github_session0\<lparr>gs_chan := es\<rparr>"

lemma gh_fill: "length es \<le> eventBufferSize \<Longrightarrow> gh_reach waits Inr (filled es, False, es, [], [])"
proof (induction es rule: rev_induct)
  case Nil
  show ?case using gh_start by (simp add: filled_def github_session0_def)
next
  case (snoc e es)
  let ?h = "(filled es)\<lparr>gs_handler := HandlerReady e\<rparr>"
  have "gh_reach waits Inr (filled es, False, es, [], [])" using snoc by simp
  moreover have "gh_move waits Inr (filled es, False, es, [], []) (handler_enter Inr e (filled es), False, es @ accepted Inr e (filled es), [], [])"
    by (rule gh_enter) (simp add: filled_def github_session0_def)
  ultimately have "gh_reach waits Inr (?h, False, es @ [e], [], [])"
    using gh_next by (fastforce simp: handler_enter_def accepted_def filled_def github_session0_def gs_canceled_def)
  moreover have "SendPushed \<in> set (send_ready False ?h)"
    using snoc(2) by (simp add: send_ready_def filled_def github_session0_def gs_closed_def gs_canceled_def)
  then have "gh_move waits Inr (?h, False, es @ [e], [], []) (handler_send SendPushed e ?h, False, es @ [e], [], [])"
    using gh_sent [of ?h e SendPushed False waits Inr "es @ [e]" "[]" "[]"] by simp
  ultimately have "gh_reach waits Inr (handler_send SendPushed e ?h, False, es @ [e], [], [])" by (rule gh_next)
  then show ?case by (simp add: handler_send_def filled_def github_session0_def)
qed

lemma github_idle_lost:
  assumes "length es = eventBufferSize"
  shows "gh_reach waits Inr (filled es, False, es @ [idle_event], [], [(SendFull, idle_event)])"
proof -
  let ?h = "(filled es)\<lparr>gs_handler := HandlerReady idle_event\<rparr>"
  have "gh_move waits Inr (filled es, False, es, [], [])
      (handler_enter Inr idle_event (filled es), False, es @ accepted Inr idle_event (filled es), [], [])"
    by (rule gh_enter) (simp add: filled_def github_session0_def)
  then have "gh_reach waits Inr (?h, False, es @ [idle_event], [], [])"
    using gh_next gh_fill [of es waits] assms
    by (fastforce simp: handler_enter_def accepted_def filled_def github_session0_def gs_canceled_def)
  moreover have "SendFull \<in> set (send_ready False ?h)"
    using assms by (simp add: send_ready_def filled_def github_session0_def gs_closed_def gs_canceled_def)
  then have "gh_move waits Inr (?h, False, es @ [idle_event], [], [])
      (handler_send SendFull idle_event ?h, False, es @ [idle_event], [], [(SendFull, idle_event)])"
    using gh_sent [of ?h idle_event SendFull False waits Inr "es @ [idle_event]" "[]" "[]"] by simp
  ultimately have "gh_reach waits Inr (handler_send SendFull idle_event ?h, False, es @ [idle_event], [], [(SendFull, idle_event)])"
    by (rule gh_next)
  then show ?thesis by (simp add: handler_send_def filled_def github_session0_def)
qed


end
