(* ===== verification/Live_Events.thy ===== *)
theory Live_Events
  imports Control_Plane
begin

text \<open>
  The live event stream, internal/app/run_events_live_handler.go: what a WebSocket client of
  \<^verbatim>\<open>/runs/{id}/events/live\<close> is sent.  The connection, the subscription and the clock are operations on a
  world; \<open>lv_select\<close> is the select of the loop, so a client may stay for ever and the loop is a partial
  function.  The goroutine that drains control frames is the source of \<open>LvReadErr\<close>.  Read and write
  deadlines and logging are left out.
\<close>

section \<open>The interface\<close>

record envelope =
  en_Type :: string
  en_Cursor :: string
  en_Event :: "session_event option"
  en_Error :: string

text \<open>What \<^verbatim>\<open>closeReason\<close> tells apart in a read error: a timeout, a close frame with code and text, others.\<close>

datatype read_error = ReadTimeout | ReadClosed int string | ReadOther

datatype live_input = LvDone | LvReadErr "read_error option" | LvTick | LvEvent session_event | LvClosed

text \<open>
  \<open>lv_format\<close> and \<open>lv_parse\<close> are \<^verbatim>\<open>time.Format\<close> and \<^verbatim>\<open>time.Parse\<close> with \<^verbatim>\<open>time.RFC3339Nano\<close>, \<open>lv_sort\<close> is
  \<^verbatim>\<open>sort.Slice\<close> by the time of ingestion, which is not stable.
\<close>

record 'w live =
  lv_format :: "go_time \<Rightarrow> string"
  lv_parse :: "string \<Rightarrow> go_time option"
  lv_sort :: "session_event list \<Rightarrow> session_event list"
  lv_now :: "('w, go_time) act"
  lv_subscribe :: "(ctx \<Rightarrow> string \<Rightarrow> ('w, go_error option) act) option"
  lv_upgrade :: "('w, go_error option) act"
  lv_write :: "envelope \<Rightarrow> ('w, go_error option) act"
  lv_ping :: "('w, go_error option) act"
  lv_control :: "int \<Rightarrow> string \<Rightarrow> 'w \<Rightarrow> 'w"
  lv_select :: "('w, live_input) act"
  lv_closeSub :: "'w \<Rightarrow> 'w"
  lv_closeConn :: "'w \<Rightarrow> 'w"

section \<open>Frames\<close>

definition writeEventEnvelope :: "'w live \<Rightarrow> session_event \<Rightarrow> ('w, go_error option) act" where
  "writeEventEnvelope lv evt =
     lv_write lv \<lparr>en_Type = ''event'', en_Cursor = lv_format lv (ev_IngestedAt evt), en_Event = Some evt, en_Error = []\<rparr>"

definition writeErrorEnvelope :: "'w live \<Rightarrow> string \<Rightarrow> ('w, go_error option) act" where
  "writeErrorEnvelope lv msg =
     lv_write lv \<lparr>en_Type = ''error'', en_Cursor = [], en_Event = None,
       en_Error = (if msg = [] then ''unknown error'' else msg)\<rparr>"

definition writeHeartbeatEnvelope :: "'w live \<Rightarrow> go_time \<Rightarrow> ('w, go_error option) act" where
  "writeHeartbeatEnvelope lv cursor =
     lv_write lv \<lparr>en_Type = ''heartbeat'', en_Cursor = (if cursor \<noteq> 0 then lv_format lv cursor else []),
       en_Event = None, en_Error = []\<rparr>"

definition sendHeartbeat :: "'w live \<Rightarrow> go_time \<Rightarrow> ('w, go_error option) act" where
  "sendHeartbeat lv cursor w =
     (case writeHeartbeatEnvelope lv cursor w of
        (Some e, w1) \<Rightarrow> (Some e, w1)
      | (None, w1) \<Rightarrow> lv_ping lv w1)"

definition eventKey :: "(go_time \<Rightarrow> string) \<Rightarrow> session_event \<Rightarrow> string" where
  "eventKey fmt evt =
     ev_SessionID evt @ ''|'' @ ev_RunID evt @ ''|'' @ ev_BatchID evt @ ''|'' @ fmt (ev_IngestedAt evt)"

definition writeClose :: "'w live \<Rightarrow> int \<Rightarrow> string \<Rightarrow> 'w \<Rightarrow> 'w" where
  "writeClose lv code reason = lv_control lv code (take 123 reason)"

definition CloseNormalClosure :: int where "CloseNormalClosure = 1000"
definition CloseGoingAway :: int where "CloseGoingAway = 1001"
definition CloseInternalServerErr :: int where "CloseInternalServerErr = 1011"

definition closeReason :: "read_error option \<Rightarrow> int \<times> string" where
  "closeReason err =
     (case err of
        None \<Rightarrow> (CloseGoingAway, ''client disconnected'')
      | Some ReadTimeout \<Rightarrow> (CloseGoingAway, ''pong timeout'')
      | Some (ReadClosed code txt) \<Rightarrow> (code, txt)
      | Some ReadOther \<Rightarrow> (CloseGoingAway, ''client read failed''))"

definition parseCursor :: "'w live \<Rightarrow> string \<Rightarrow> ('w, go_error + go_time) act" where
  "parseCursor lv raw w =
     (if raw = [] then (Inr 0, w)
      else case lv_parse lv raw of
          None \<Rightarrow> (Inl (Errorf ''invalid last_ingested''), w)
        | Some parsed \<Rightarrow>
            (case lv_now lv w of (now, w1) \<Rightarrow>
               (if now < parsed then (Inl (Errorf ''invalid last_ingested''), w1) else (Inr parsed, w1))))"

section \<open>The stream\<close>

text \<open>The cursor and the keys of the events sent so far; \<^const>\<open>None\<close> is a return from the handler.\<close>

type_synonym live_state = "go_time \<times> string set"

fun backfill :: "'w live \<Rightarrow> session_event list \<Rightarrow> live_state \<Rightarrow> ('w, live_state option) act" where
  "backfill lv [] st w = (Some st, w)"
| "backfill lv (evt # evts) (cursor, seen) w =
     (if \<not> cursor < ev_IngestedAt evt then backfill lv evts (cursor, seen) w
      else case writeEventEnvelope lv evt w of
          (Some e, w1) \<Rightarrow> (None, writeClose lv CloseGoingAway ''write failed during backfill'' w1)
        | (None, w1) \<Rightarrow>
            backfill lv evts (ev_IngestedAt evt, insert (eventKey (lv_format lv) evt) seen) w1)"

text \<open>One turn of the loop.\<close>

definition live_step :: "'w live \<Rightarrow> live_state \<Rightarrow> ('w, live_state option) act" where
  "live_step lv st w =
     (case lv_select lv w of (input, w1) \<Rightarrow>
        (case input of
           LvDone \<Rightarrow> (None, writeClose lv CloseNormalClosure ''context done'' w1)
         | LvReadErr readErr \<Rightarrow> (case closeReason readErr of (code, reason) \<Rightarrow> (None, writeClose lv code reason w1))
         | LvTick \<Rightarrow>
             (case sendHeartbeat lv (fst st) w1 of
                (Some e, w2) \<Rightarrow> (None, writeClose lv CloseGoingAway ''heartbeat send failed'' w2)
              | (None, w2) \<Rightarrow> (Some st, w2))
         | LvClosed \<Rightarrow> (None, writeClose lv CloseNormalClosure ''subscription closed'' w1)
         | LvEvent evt \<Rightarrow>
             (if \<not> fst st < ev_IngestedAt evt then (Some st, w1)
              else if eventKey (lv_format lv) evt \<in> snd st then (Some st, w1)
              else case writeEventEnvelope lv evt w1 of
                  (Some e, w2) \<Rightarrow> (None, writeClose lv CloseGoingAway ''write failed'' w2)
                | (None, w2) \<Rightarrow> (Some (ev_IngestedAt evt, insert (eventKey (lv_format lv) evt) (snd st)), w2))))"

partial_function (option) live_loop :: "'w live \<Rightarrow> live_state \<Rightarrow> 'w \<Rightarrow> 'w option" where
  "live_loop lv st w =
     (case live_step lv st w of (next, w1) \<Rightarrow>
        (case next of None \<Rightarrow> Some w1 | Some st' \<Rightarrow> live_loop lv st' w1))"

definition live_stream :: "'w app \<Rightarrow> 'w live \<Rightarrow> ctx \<Rightarrow> task_run \<Rightarrow> go_time \<Rightarrow> 'w \<Rightarrow> 'w option" where
  "live_stream a lv c run cursor w =
     (case ListSessionEvents (app_store a) c (run_SessionID run) w of
        (Inl e, w1) \<Rightarrow>
          Some (writeClose lv CloseInternalServerErr ''list session events failed''
            (snd (writeErrorEnvelope lv ''list session events failed'' w1)))
      | (Inr events, w1) \<Rightarrow>
          (case backfill lv (lv_sort lv events) (cursor, {}) w1 of
             (None, w2) \<Rightarrow> Some w2
           | (Some st, w2) \<Rightarrow> live_loop lv st w2))"

definition live_session ::
    "'w app \<Rightarrow> 'w live \<Rightarrow> (ctx \<Rightarrow> string \<Rightarrow> ('w, go_error option) act) \<Rightarrow> ctx \<Rightarrow> task_run \<Rightarrow> go_time \<Rightarrow> 'w \<Rightarrow> 'w option" where
  "live_session a lv subscribe c run cursor w =
     (case subscribe c (run_SessionID run) w of
        (Some e, w1) \<Rightarrow>
          Some (writeClose lv CloseInternalServerErr ''subscribe failed''
            (snd (writeErrorEnvelope lv ''subscribe failed'' w1)))
      | (None, w1) \<Rightarrow> map_option (lv_closeSub lv) (live_stream a lv c run cursor w1))"

text \<open>The handler: a response if the request is refused before the upgrade, the stream otherwise.\<close>

definition runEventsLiveHandler ::
    "'w app \<Rightarrow> 'w live \<Rightarrow> ctx \<Rightarrow> string \<Rightarrow> string \<Rightarrow> 'w \<Rightarrow> (response option \<times> 'w) option" where
  "runEventsLiveHandler a lv c runID last_ingested w =
     (case lv_subscribe lv of
        None \<Rightarrow> Some (Some (writeError 503 ''event bus unavailable''), w)
      | Some subscribe \<Rightarrow>
          (if runID = [] then Some (Some (writeError 400 ''run id is required''), w)
           else case GetTaskRun (app_store a) c runID w of
               (Inl e, w1) \<Rightarrow> Some (Some (writeStorageError e), w1)
             | (Inr run, w1) \<Rightarrow>
                 (if run_SessionID run = [] then Some (Some (writeError 404 ''session not found for run''), w1)
                  else case parseCursor lv last_ingested w1 of
                      (Inl e, w2) \<Rightarrow> Some (Some (writeError 400 (error_text e)), w2)
                    | (Inr cursor, w2) \<Rightarrow>
                        (case lv_upgrade lv w2 of
                           (Some e, w3) \<Rightarrow> Some (None, w3)
                         | (None, w3) \<Rightarrow>
                             map_option (\<lambda>w'. (None, lv_closeConn lv w'))
                               (live_session a lv subscribe (CtxWithCancel c) run cursor w3)))))"

section \<open>The reference\<close>

text \<open>
  The events later than all before them and later than the cursor: what the stream sends, without the
  set of keys.
\<close>

fun fresh_events :: "go_time \<Rightarrow> session_event list \<Rightarrow> session_event list" where
  "fresh_events cursor [] = []"
| "fresh_events cursor (e # es) =
     (if cursor < ev_IngestedAt e then e # fresh_events (ev_IngestedAt e) es else fresh_events cursor es)"

fun cursor_after :: "go_time \<Rightarrow> session_event list \<Rightarrow> go_time" where
  "cursor_after cursor [] = cursor"
| "cursor_after cursor (e # es) = cursor_after (max cursor (ev_IngestedAt e)) es"

lemma fresh_append: "fresh_events c (xs @ ys) = fresh_events c xs @ fresh_events (cursor_after c xs) ys"
  by (induction c xs rule: fresh_events.induct) (simp_all add: max_def)

lemma fresh_later: "e \<in> set (fresh_events c es) \<Longrightarrow> c < ev_IngestedAt e \<and> e \<in> set es"
  by (induction c es rule: fresh_events.induct) (auto split: if_splits)

lemma fresh_sorted: "sorted_wrt (<) (map ev_IngestedAt (fresh_events c es))"
  by (induction c es rule: fresh_events.induct) (auto dest: fresh_later)

lemma fresh_times:
  "sorted (map ev_IngestedAt es) \<Longrightarrow> e \<in> set es \<Longrightarrow> c < ev_IngestedAt e \<Longrightarrow>
     ev_IngestedAt e \<in> ev_IngestedAt ` set (fresh_events c es)"
proof (induction c es rule: fresh_events.induct)
  case (2 c x es)
  then show ?case by (cases "ev_IngestedAt e = ev_IngestedAt x") (auto split: if_splits)
qed simp

section \<open>What is sent\<close>

text \<open>
  Two observations of a connection: the frames written to it and the events taken from its
  subscription.  A write that fails has sent nothing; nothing else sends or takes.
\<close>

definition same_obs :: "('w \<Rightarrow> envelope list) \<Rightarrow> ('w \<Rightarrow> session_event list) \<Rightarrow> 'w \<Rightarrow> 'w \<Rightarrow> bool" where
  "same_obs sent got w w' \<longleftrightarrow> sent w' = sent w \<and> got w' = got w"

definition conn_observed :: "'w live \<Rightarrow> ('w \<Rightarrow> envelope list) \<Rightarrow> ('w \<Rightarrow> session_event list) \<Rightarrow> bool" where
  "conn_observed lv sent got \<longleftrightarrow>
     (\<forall>f w e w'. lv_write lv f w = (e, w') \<longrightarrow>
        sent w' = (if e = None then sent w @ [f] else sent w) \<and> got w' = got w) \<and>
     (\<forall>w x w'. lv_select lv w = (x, w') \<longrightarrow>
        sent w' = sent w \<and> got w' = got w @ (case x of LvEvent e \<Rightarrow> [e] | _ \<Rightarrow> [])) \<and>
     (\<forall>w. same_obs sent got w (snd (lv_ping lv w))) \<and>
     (\<forall>code r w. same_obs sent got w (lv_control lv code r w))"

definition observed ::
    "'w app \<Rightarrow> 'w live \<Rightarrow> ('w \<Rightarrow> envelope list) \<Rightarrow> ('w \<Rightarrow> session_event list) \<Rightarrow> bool" where
  "observed a lv sent got \<longleftrightarrow> conn_observed lv sent got \<and>
     (\<forall>w. same_obs sent got w (snd (lv_now lv w))) \<and>
     (\<forall>w. same_obs sent got w (snd (lv_upgrade lv w))) \<and>
     (\<forall>w. same_obs sent got w (lv_closeSub lv w)) \<and>
     (\<forall>w. same_obs sent got w (lv_closeConn lv w)) \<and>
     (\<forall>s c i w. lv_subscribe lv = Some s \<longrightarrow> same_obs sent got w (snd (s c i w))) \<and>
     (\<forall>c i w. same_obs sent got w (snd (GetTaskRun (app_store a) c i w))) \<and>
     (\<forall>c i w. same_obs sent got w (snd (ListSessionEvents (app_store a) c i w)))"

lemma connD:
  assumes "conn_observed lv sent got"
  shows "lv_write lv f w = (e, w') \<Longrightarrow> sent w' = (if e = None then sent w @ [f] else sent w) \<and> got w' = got w"
    and "lv_select lv w = (x, w') \<Longrightarrow> sent w' = sent w \<and> got w' = got w @ (case x of LvEvent e \<Rightarrow> [e] | _ \<Rightarrow> [])"
    and "lv_ping lv w = (e, w') \<Longrightarrow> same_obs sent got w w'"
    and "same_obs sent got w (lv_control lv code r w)"
  using assms unfolding conn_observed_def by (metis snd_conv)+

lemma observedD:
  assumes "observed a lv sent got"
  shows "conn_observed lv sent got"
    and "lv_now lv w = (t, w') \<Longrightarrow> same_obs sent got w w'"
    and "lv_upgrade lv w = (e, w') \<Longrightarrow> same_obs sent got w w'"
    and "same_obs sent got w (lv_closeSub lv w)"
    and "same_obs sent got w (lv_closeConn lv w)"
    and "lv_subscribe lv = Some s \<Longrightarrow> s c i w = (e, w') \<Longrightarrow> same_obs sent got w w'"
    and "GetTaskRun (app_store a) c i w = (q, w') \<Longrightarrow> same_obs sent got w w'"
    and "ListSessionEvents (app_store a) c i w = (evs, w') \<Longrightarrow> same_obs sent got w w'"
  using assms unfolding observed_def by (metis snd_conv)+

text \<open>The events among the frames.\<close>

definition frame_events :: "envelope list \<Rightarrow> session_event list" where
  "frame_events = List.map_filter en_Event"

lemma frame_events_simps [simp]:
  "frame_events [] = []" "frame_events (xs @ ys) = frame_events xs @ frame_events ys"
  "frame_events [f] = (case en_Event f of None \<Rightarrow> [] | Some e \<Rightarrow> [e])"
  by (simp_all add: frame_events_def List.map_filter_def split: option.split)

text \<open>
  Printed times tell times apart and contain no separator, as the layout of \<^verbatim>\<open>time.RFC3339Nano\<close> does
  for UTC times; the keys of the events sent so far then are those of no later event.
\<close>

definition format_ok :: "(go_time \<Rightarrow> string) \<Rightarrow> bool" where
  "format_ok fmt \<longleftrightarrow> inj fmt \<and> (\<forall>t. CHR ''|'' \<notin> set (fmt t))"

definition seen_ok :: "(go_time \<Rightarrow> string) \<Rightarrow> live_state \<Rightarrow> bool" where
  "seen_ok fmt st \<longleftrightarrow> (\<forall>k \<in> snd st. \<exists>e. k = eventKey fmt e \<and> ev_IngestedAt e \<le> fst st)"

lemma last_field: "xs @ s # f = ys @ s # g \<Longrightarrow> s \<notin> set f \<Longrightarrow> s \<notin> set g \<Longrightarrow> f = g"
proof -
  assume eq: "xs @ s # f = ys @ s # g" and f: "s \<notin> set f" and g: "s \<notin> set g"
  have tw: "takeWhile (\<lambda>c. c \<noteq> s) (rev (zs @ s # h)) = rev h" if "s \<notin> set h" for zs h
    using that by (auto simp: takeWhile_tail takeWhile_eq_all_conv)
  from tw [OF f, of xs] tw [OF g, of ys] eq show "f = g" by simp
qed

lemma eventKey_time: "format_ok fmt \<Longrightarrow> eventKey fmt e = eventKey fmt e' \<Longrightarrow> ev_IngestedAt e = ev_IngestedAt e'"
proof -
  assume ok: "format_ok fmt" and "eventKey fmt e = eventKey fmt e'"
  moreover have "eventKey fmt x = (ev_SessionID x @ ''|'' @ ev_RunID x @ ''|'' @ ev_BatchID x) @ CHR ''|'' # fmt (ev_IngestedAt x)" for x
    by (simp add: eventKey_def)
  ultimately have "fmt (ev_IngestedAt e) = fmt (ev_IngestedAt e')"
    using last_field unfolding format_ok_def by metis
  with ok show ?thesis by (auto simp: format_ok_def dest: injD)
qed

lemma unseen: "format_ok fmt \<Longrightarrow> seen_ok fmt st \<Longrightarrow> fst st < ev_IngestedAt e \<Longrightarrow> eventKey fmt e \<notin> snd st"
  unfolding seen_ok_def using eventKey_time by (metis leD)

lemma seen_ok_sent:
  "seen_ok fmt st \<Longrightarrow> fst st < ev_IngestedAt e \<Longrightarrow> seen_ok fmt (ev_IngestedAt e, insert (eventKey fmt e) (snd st))"
  unfolding seen_ok_def by (metis dual_order.order_iff_strict dual_order.trans fst_conv insert_iff snd_conv)

text \<open>
  What happened between two worlds: \<open>evs\<close> were considered, \<open>out\<close> is what was sent of them, and all of
  it was sent unless the handler returned because a write failed.
\<close>

definition streamed ::
    "(go_time \<Rightarrow> string) \<Rightarrow> live_state \<Rightarrow> session_event list \<Rightarrow> session_event list \<Rightarrow> live_state option \<Rightarrow> bool" where
  "streamed fmt st evs out st' \<longleftrightarrow>
     (\<exists>lost. out @ lost = fresh_events (fst st) evs \<and> length lost \<le> 1 \<and>
        (case st' of None \<Rightarrow> True
         | Some s \<Rightarrow> lost = [] \<and> fst s = cursor_after (fst st) evs \<and> seen_ok fmt s))"

lemma cursor_after_append: "cursor_after c (xs @ ys) = cursor_after (cursor_after c xs) ys"
  by (induction c xs rule: cursor_after.induct) simp_all

lemma streamed_trans:
  "streamed fmt st e1 o1 (Some s) \<Longrightarrow> streamed fmt s e2 o2 x \<Longrightarrow> streamed fmt st (e1 @ e2) (o1 @ o2) x"
  unfolding streamed_def by (auto simp: fresh_append cursor_after_append split: option.splits)

lemma streamed_sent:
  "seen_ok fmt st \<Longrightarrow> fst st < ev_IngestedAt e \<Longrightarrow>
     streamed fmt st [e] [e] (Some (ev_IngestedAt e, insert (eventKey fmt e) (snd st)))"
  by (simp add: streamed_def seen_ok_sent max_def)

lemma streamed_skipped: "seen_ok fmt st \<Longrightarrow> \<not> fst st < ev_IngestedAt e \<Longrightarrow> streamed fmt st [e] [] (Some st)"
  by (simp add: streamed_def max_def)

lemma streamed_lost: "fst st < ev_IngestedAt e \<Longrightarrow> streamed fmt st [e] [] None"
  by (simp add: streamed_def)

lemma streamed_none: "streamed fmt st [] [] None"
  by (simp add: streamed_def)

lemma streamed_idle: "seen_ok fmt st \<Longrightarrow> streamed fmt st [] [] (Some st)"
  by (simp add: streamed_def)

lemma writeClose_obs: "conn_observed lv sent got \<Longrightarrow> sent (writeClose lv code r w) = sent w \<and> got (writeClose lv code r w) = got w"
  using connD(4) [of lv sent got] by (simp add: writeClose_def same_obs_def)

lemma writeEvent_obs:
  assumes "conn_observed lv sent got" and "writeEventEnvelope lv e w = (r, w')"
  shows "got w' = got w" and "frame_events (sent w') = frame_events (sent w) @ (if r = None then [e] else [])"
  using connD(1) [OF assms(1) assms(2) [unfolded writeEventEnvelope_def]] by simp_all

lemma backfill_streamed:
  assumes obs: "conn_observed lv sent got"
  shows "seen_ok (lv_format lv) st \<Longrightarrow> backfill lv evts st w = (x, w') \<Longrightarrow>
    \<exists>evs out. prefix evs evts \<and> (x \<noteq> None \<longrightarrow> evs = evts) \<and> streamed (lv_format lv) st evs out x \<and>
      (x = None \<longrightarrow> out \<noteq> fresh_events (fst st) evs) \<and>
      frame_events (sent w') = frame_events (sent w) @ out \<and> got w' = got w"
proof (induction evts arbitrary: st w)
  case Nil
  then show ?case by (cases st) (auto intro!: exI [of _ "[]"] streamed_idle)
next
  case (Cons evt evts)
  let ?fmt = "lv_format lv"
  have more: ?case if hd: "streamed ?fmt st [evt] o1 (Some s)" and bf: "backfill lv evts s w1 = (x, w')"
    and w1: "frame_events (sent w1) = frame_events (sent w) @ o1" "got w1 = got w" for o1 s w1
  proof -
    from hd have "seen_ok ?fmt s" by (simp add: streamed_def)
    from Cons.IH [OF this bf] obtain evs out where p: "prefix evs evts" "x \<noteq> None \<longrightarrow> evs = evts"
      "streamed ?fmt s evs out x" "x = None \<longrightarrow> out \<noteq> fresh_events (fst s) evs"
      "frame_events (sent w') = frame_events (sent w1) @ out" "got w' = got w1" by blast
    have "fresh_events (fst st) (evt # evs) = o1 @ fresh_events (fst s) evs"
      using hd fresh_append [of "fst st" "[evt]" evs] by (simp add: streamed_def)
    with streamed_trans [OF hd p(3)] p w1 show ?thesis
      by (intro exI [of _ "evt # evs"] exI [of _ "o1 @ out"]) simp
  qed
  show ?case
  proof (cases "fst st < ev_IngestedAt evt")
    case False
    with Cons.prems(2) have "backfill lv evts st w = (x, w')" by (cases st) simp
    from more [OF streamed_skipped [OF Cons.prems(1) False] this] show ?thesis by simp
  next
    case True
    obtain r w1 where wr: "writeEventEnvelope lv evt w = (r, w1)" by fastforce
    note sent1 = writeEvent_obs [OF obs wr]
    show ?thesis
    proof (cases r)
      case None
      with Cons.prems(2) True wr
      have "backfill lv evts (ev_IngestedAt evt, insert (eventKey ?fmt evt) (snd st)) w1 = (x, w')" by (cases st) simp
      from more [OF streamed_sent [OF Cons.prems(1) True] this] sent1 None show ?thesis by simp
    next
      case (Some e)
      with Cons.prems(2) True wr have "x = None" "w' = writeClose lv CloseGoingAway ''write failed during backfill'' w1"
        by (cases st; simp)+
      with streamed_lost [OF True] sent1 Some True writeClose_obs [OF obs] show ?thesis
        by (intro exI [of _ "[evt]"] exI [of _ "[]"]) simp
    qed
  qed
qed

lemma live_step_streamed:
  assumes obs: "conn_observed lv sent got" and ok: "format_ok (lv_format lv)" and st: "seen_ok (lv_format lv) st"
    and step: "live_step lv st w = (x, w')"
  shows "\<exists>evs out. streamed (lv_format lv) st evs out x \<and>
    frame_events (sent w') = frame_events (sent w) @ out \<and> got w' = got w @ evs"
proof -
  obtain input w1 where sel: "lv_select lv w = (input, w1)" by fastforce
  note w1 = connD(2) [OF obs sel]
  have close: ?thesis if "x = None" and "w' = writeClose lv code r w1" and "\<forall>e. input \<noteq> LvEvent e" for code r
  proof -
    have "got w1 = got w" using w1 that(3) by (cases input) simp_all
    with that(1,2) w1 writeClose_obs [OF obs] streamed_none show ?thesis
      by (intro exI [of _ "[]"]) simp
  qed
  show ?thesis
  proof (cases input)
    case (LvEvent evt)
    show ?thesis
    proof (cases "fst st < ev_IngestedAt evt")
      case False
      with step sel LvEvent have "x = Some st" "w' = w1" by (simp_all add: live_step_def)
      with streamed_skipped [OF st False] w1 LvEvent show ?thesis by (intro exI [of _ "[evt]"] exI [of _ "[]"]) simp
    next
      case True
      obtain r w2 where wr: "writeEventEnvelope lv evt w1 = (r, w2)" by fastforce
      note sent2 = writeEvent_obs [OF obs wr] and new = unseen [OF ok st True]
      show ?thesis
      proof (cases r)
        case None
        with step sel LvEvent True new wr
        have "x = Some (ev_IngestedAt evt, insert (eventKey (lv_format lv) evt) (snd st))" "w' = w2"
          by (simp_all add: live_step_def)
        with streamed_sent [OF st True] sent2 w1 LvEvent None show ?thesis
          by (intro exI [of _ "[evt]"] exI [of _ "[evt]"]) simp
      next
        case (Some e)
        with step sel LvEvent True new wr have "x = None" "w' = writeClose lv CloseGoingAway ''write failed'' w2"
          by (simp_all add: live_step_def)
        with streamed_lost [OF True] sent2 w1 LvEvent Some writeClose_obs [OF obs] show ?thesis
          by (intro exI [of _ "[evt]"] exI [of _ "[]"]) simp
      qed
    qed
  next
    case LvTick
    obtain r w2 where wr: "writeHeartbeatEnvelope lv (fst st) w1 = (r, w2)" by fastforce
    have w2: "frame_events (sent w2) = frame_events (sent w1) \<and> got w2 = got w1"
      using connD(1) [OF obs wr [unfolded writeHeartbeatEnvelope_def]] by simp
    obtain q w3 where hb: "sendHeartbeat lv (fst st) w1 = (q, w3)" by fastforce
    then have w3: "frame_events (sent w3) = frame_events (sent w1) \<and> got w3 = got w1"
      using w2 wr connD(3) [OF obs] by (fastforce simp: sendHeartbeat_def same_obs_def split: option.splits)
    show ?thesis
    proof (cases q)
      case None
      with step sel LvTick hb have "x = Some st" "w' = w3" by (simp_all add: live_step_def)
      with streamed_idle [OF st] w3 w1 LvTick show ?thesis by (intro exI [of _ "[]"]) simp
    next
      case (Some e)
      with step sel LvTick hb have "x = None" "w' = writeClose lv CloseGoingAway ''heartbeat send failed'' w3"
        by (simp_all add: live_step_def)
      with streamed_none w3 w1 LvTick writeClose_obs [OF obs] show ?thesis by (intro exI [of _ "[]"]) simp
    qed
  qed (use step sel close in \<open>auto simp: live_step_def split: prod.splits\<close>)
qed

lemma live_loop_streamed:
  assumes obs: "conn_observed lv sent got" and ok: "format_ok (lv_format lv)"
    and st: "seen_ok (lv_format lv) st" and run: "live_loop lv st w = Some w'"
  shows "\<exists>evs out. streamed (lv_format lv) st evs out None \<and>
    frame_events (sent w') = frame_events (sent w) @ out \<and> got w' = got w @ evs"
proof -
  let ?P = "\<lambda>lv' st w w'. lv' = lv \<longrightarrow> seen_ok (lv_format lv) st \<longrightarrow>
    (\<exists>evs out. streamed (lv_format lv) st evs out None \<and>
      frame_events (sent w') = frame_events (sent w) @ out \<and> got w' = got w @ evs)"
  have "?P lv st w w'"
    using run
  proof (rule live_loop.raw_induct [of ?P, rotated])
    fix loop lv' st w w'
    assume IH: "\<And>lv' st w w'. loop lv' st w = Some w' \<Longrightarrow> ?P lv' st w w'"
      and body: "(case live_step lv' st w of (next, w1) \<Rightarrow>
        (case next of None \<Rightarrow> Some w1 | Some st' \<Rightarrow> loop lv' st' w1)) = Some w'"
    show "?P lv' st w w'"
    proof (intro impI)
      assume lv': "lv' = lv" and s: "seen_ok (lv_format lv) st"
      obtain x w1 where step: "live_step lv st w = (x, w1)" by fastforce
      from live_step_streamed [OF obs ok s step] obtain e1 o1 where
        one: "streamed (lv_format lv) st e1 o1 x" "frame_events (sent w1) = frame_events (sent w) @ o1" "got w1 = got w @ e1"
        by blast
      show "\<exists>evs out. streamed (lv_format lv) st evs out None \<and>
        frame_events (sent w') = frame_events (sent w) @ out \<and> got w' = got w @ evs"
      proof (cases x)
        case None
        with body step lv' one show ?thesis by auto
      next
        case (Some st')
        with body step lv' have "loop lv st' w1 = Some w'" by simp
        moreover have "seen_ok (lv_format lv) st'" using one(1) Some by (simp add: streamed_def)
        ultimately obtain e2 o2 where "streamed (lv_format lv) st' e2 o2 None"
          "frame_events (sent w') = frame_events (sent w1) @ o2" "got w' = got w1 @ e2"
          using IH [of lv st' w1 w'] by blast
        with streamed_trans [OF one(1) [unfolded Some]] one show ?thesis
          by (intro exI [of _ "e1 @ e2"] exI [of _ "o1 @ o2"]) simp
      qed
    qed
  qed
  with st show ?thesis by simp
qed

text \<open>
  What the events sent come from: the sorted stored events of the session and then those of the
  subscription, as far as they were considered before a write failed.
\<close>

definition live_sources ::
    "'w app \<Rightarrow> 'w live \<Rightarrow> string \<Rightarrow> session_event list \<Rightarrow> session_event list \<Rightarrow> session_event list \<Rightarrow> bool" where
  "live_sources a lv sid stored live lost \<longleftrightarrow>
     stored = [] \<and> live = [] \<and> lost = [] \<or>
     (\<exists>c w1 evs w2. ListSessionEvents (app_store a) c sid w1 = (Inr evs, w2) \<and> length lost \<le> 1 \<and>
        prefix stored (lv_sort lv evs) \<and> (lost = [] \<longrightarrow> stored = lv_sort lv evs))"

lemma live_stream_sent:
  assumes obs: "observed a lv sent got" and ok: "format_ok (lv_format lv)"
    and run: "live_stream a lv c run cursor w = Some w'"
  shows "\<exists>stored live out lost. live_sources a lv (run_SessionID run) stored live lost \<and>
    out @ lost = fresh_events cursor (stored @ live) \<and>
    frame_events (sent w') = frame_events (sent w) @ out \<and> got w' = got w @ live"
proof -
  note conn = observedD(1) [OF obs]
  obtain q w1 where ls: "ListSessionEvents (app_store a) c (run_SessionID run) w = (q, w1)" by fastforce
  have w1: "sent w1 = sent w" "got w1 = got w" using observedD(8) [OF obs ls] by (simp_all add: same_obs_def)
  show ?thesis
  proof (cases q)
    case (Inl e)
    obtain r v where wr: "writeErrorEnvelope lv ''list session events failed'' w1 = (r, v)" by fastforce
    with run ls Inl have "w' = writeClose lv CloseInternalServerErr ''list session events failed'' v"
      by (simp add: live_stream_def)
    with w1 writeClose_obs [OF conn] connD(1) [OF conn wr [unfolded writeErrorEnvelope_def]] show ?thesis
      by (intro exI [of _ "[]"]) (simp add: live_sources_def)
  next
    case (Inr evs)
    obtain x w2 where bf: "backfill lv (lv_sort lv evs) (cursor, {}) w1 = (x, w2)" by fastforce
    have "seen_ok (lv_format lv) (cursor, {})" by (simp add: seen_ok_def)
    from backfill_streamed [OF conn this bf, unfolded fst_conv] obtain stored o1 where
      b: "prefix stored (lv_sort lv evs)" "x \<noteq> None \<longrightarrow> stored = lv_sort lv evs"
        "streamed (lv_format lv) (cursor, {}) stored o1 x" "x = None \<longrightarrow> o1 \<noteq> fresh_events cursor stored"
        "frame_events (sent w2) = frame_events (sent w1) @ o1" "got w2 = got w1" by blast
    have src: "live_sources a lv (run_SessionID run) st' live lost"
      if "length lost \<le> 1" "prefix st' (lv_sort lv evs)" "lost = [] \<longrightarrow> st' = lv_sort lv evs" for st' live lost
      unfolding live_sources_def using ls Inr that by blast
    show ?thesis
    proof (cases x)
      case None
      with run ls Inr bf have w': "w' = w2" by (simp add: live_stream_def)
      from b(3) None obtain lost where l: "o1 @ lost = fresh_events cursor stored" "length lost \<le> 1"
        by (auto simp: streamed_def)
      then have "lost \<noteq> []" using b(4) None by auto
      with src [OF l(2) b(1)] l b w1 w' show ?thesis
        by (intro exI [of _ stored] exI [of _ "[]"] exI [of _ o1] exI [of _ lost]) simp
    next
      case (Some st)
      with run ls Inr bf have "live_loop lv st w2 = Some w'" by (simp add: live_stream_def)
      moreover have "seen_ok (lv_format lv) st" using b(3) Some by (simp add: streamed_def)
      ultimately obtain live o2 where l: "streamed (lv_format lv) st live o2 None"
        "frame_events (sent w') = frame_events (sent w2) @ o2" "got w' = got w2 @ live"
        using live_loop_streamed [OF conn ok] by blast
      from streamed_trans [OF b(3) [unfolded Some] l(1)] obtain lost where
        "(o1 @ o2) @ lost = fresh_events cursor (stored @ live)" "length lost \<le> 1" by (auto simp: streamed_def)
      with src [OF _ b(1)] b Some l w1 show ?thesis
        by (intro exI [of _ stored] exI [of _ live] exI [of _ "o1 @ o2"] exI [of _ lost]) simp
    qed
  qed
qed

lemma live_session_sent:
  assumes obs: "observed a lv sent got" and ok: "format_ok (lv_format lv)"
    and sub: "lv_subscribe lv = Some subscribe" and run: "live_session a lv subscribe c run cursor w = Some w'"
  shows "\<exists>stored live out lost. live_sources a lv (run_SessionID run) stored live lost \<and>
    out @ lost = fresh_events cursor (stored @ live) \<and>
    frame_events (sent w') = frame_events (sent w) @ out \<and> got w' = got w @ live"
proof -
  note conn = observedD(1) [OF obs]
  obtain q w1 where s: "subscribe c (run_SessionID run) w = (q, w1)" by fastforce
  have w1: "sent w1 = sent w" "got w1 = got w" using observedD(6) [OF obs sub s] by (simp_all add: same_obs_def)
  show ?thesis
  proof (cases q)
    case None
    with run s obtain v where v: "live_stream a lv c run cursor w1 = Some v" "w' = lv_closeSub lv v"
      by (auto simp: live_session_def)
    with live_stream_sent [OF obs ok v(1)] w1 observedD(4) [OF obs, of v] show ?thesis by (simp add: same_obs_def)
  next
    case (Some e)
    obtain x v where wr: "writeErrorEnvelope lv ''subscribe failed'' w1 = (x, v)" by fastforce
    with run s Some have "w' = writeClose lv CloseInternalServerErr ''subscribe failed'' v" by (simp add: live_session_def)
    with w1 writeClose_obs [OF conn] connD(1) [OF conn wr [unfolded writeErrorEnvelope_def]] show ?thesis
      by (intro exI [of _ "[]"]) (simp add: live_sources_def)
  qed
qed

lemma parseCursor_cases:
  assumes "observed a lv sent got" and "parseCursor lv raw w = (q, w')"
  shows "same_obs sent got w w'" and "q = Inr cursor \<Longrightarrow> if raw = [] then cursor = 0 else lv_parse lv raw = Some cursor"
  using assms(2) observedD(2) [OF assms(1)]
  by (auto simp: parseCursor_def same_obs_def split: if_splits option.splits prod.splits)

definition live_outcome ::
    "'w app \<Rightarrow> 'w live \<Rightarrow> ('w \<Rightarrow> envelope list) \<Rightarrow> ('w \<Rightarrow> session_event list) \<Rightarrow> string \<Rightarrow> 'w \<Rightarrow> 'w \<Rightarrow>
       session_event list \<Rightarrow> session_event list \<Rightarrow> session_event list \<Rightarrow> session_event list \<Rightarrow> go_time \<Rightarrow> bool" where
  "live_outcome a lv sent got last_ingested w w' stored live out lost cursor \<longleftrightarrow>
     (if last_ingested = [] then cursor = 0 else lv_parse lv last_ingested = Some cursor) \<and>
     (\<exists>sid. live_sources a lv sid stored live lost) \<and>
     frame_events (sent w') = frame_events (sent w) @ out \<and> got w' = got w @ live"

lemma live_handler_sent:
  assumes obs: "observed a lv sent got" and ok: "format_ok (lv_format lv)"
    and run: "runEventsLiveHandler a lv c runID last_ingested w = Some (r, w')"
  shows "if r \<noteq> None then sent w' = sent w \<and> got w' = got w
    else \<exists>stored live out lost cursor. live_outcome a lv sent got last_ingested w w' stored live out lost cursor \<and>
      out @ lost = fresh_events cursor (stored @ live)"
proof (cases "lv_subscribe lv = None \<or> runID = []")
  case True
  with run show ?thesis by (auto simp: runEventsLiveHandler_def split: option.splits)
next
  case False
  then obtain subscribe where sub: "lv_subscribe lv = Some subscribe" and id: "runID \<noteq> []" by auto
  obtain q w1 where g: "GetTaskRun (app_store a) c runID w = (q, w1)" by fastforce
  have w1: "sent w1 = sent w" "got w1 = got w" using observedD(7) [OF obs g] by (simp_all add: same_obs_def)
  show ?thesis
  proof (cases "\<exists>run. q = Inr run \<and> run_SessionID run \<noteq> []")
    case False
    with run sub id g w1 show ?thesis by (cases q) (auto simp: runEventsLiveHandler_def)
  next
    case True
    then obtain rn where rn: "q = Inr rn" "run_SessionID rn \<noteq> []" by blast
    obtain p w2 where pc: "parseCursor lv last_ingested w1 = (p, w2)" by fastforce
    note cur = parseCursor_cases [OF obs pc]
    have w2: "sent w2 = sent w" "got w2 = got w" using cur(1) w1 by (simp_all add: same_obs_def)
    show ?thesis
    proof (cases p)
      case (Inl e)
      with run sub id g rn pc w2 show ?thesis by (auto simp: runEventsLiveHandler_def)
    next
      case (Inr cursor)
      obtain u w3 where up: "lv_upgrade lv w2 = (u, w3)" by fastforce
      have w3: "sent w3 = sent w" "got w3 = got w" using observedD(3) [OF obs up] w2 by (simp_all add: same_obs_def)
      show ?thesis
      proof (cases u)
        case None
        with run sub id g rn pc Inr up obtain v where
          v: "live_session a lv subscribe (CtxWithCancel c) rn cursor w3 = Some v" "r = None" "w' = lv_closeConn lv v"
          by (auto simp: runEventsLiveHandler_def)
        have "sent w' = sent v" "got w' = got v" using observedD(5) [OF obs, of v] v(3) by (simp_all add: same_obs_def)
        moreover from live_session_sent [OF obs ok sub v(1)] obtain stored live out lost where
          l: "live_sources a lv (run_SessionID rn) stored live lost" "out @ lost = fresh_events cursor (stored @ live)"
            "frame_events (sent v) = frame_events (sent w3) @ out" "got v = got w3 @ live" by blast
        ultimately have "live_outcome a lv sent got last_ingested w w' stored live out lost cursor"
          using cur(2) [OF Inr] w3 unfolding live_outcome_def by auto
        with l(2) v(2) show ?thesis by simp blast
      next
        case (Some e)
        with run sub id g rn pc Inr up have "r = None" "w' = w3" by (auto simp: runEventsLiveHandler_def)
        with w3 cur(2) [OF Inr] have "live_outcome a lv sent got last_ingested w w' [] [] [] [] cursor"
          by (simp add: live_outcome_def live_sources_def)
        moreover have "[] @ [] = fresh_events cursor ([] @ [])" by simp
        ultimately show ?thesis using \<open>r = None\<close> by (simp only: simp_thms if_False) blast
      qed
    qed
  qed
qed



section \<open>A concrete connection\<close>

text \<open>
  A world with a database, the inputs the loop will see, and what was sent and taken.  Times are
  printed in decimal.
\<close>

record live_world =
  lw_db :: list_db
  lw_inputs :: "live_input list"
  lw_sent :: "envelope list"
  lw_got :: "session_event list"

definition on_lw :: "(list_db, 'a) act \<Rightarrow> (live_world, 'a) act" where
  "on_lw f w = (case f (lw_db w) of (a, d) \<Rightarrow> (a, w\<lparr>lw_db := d\<rparr>))"

definition lw_driver :: "live_world driver" where
  "lw_driver =
     \<lparr>Now = on_lw (Now list_driver),
      InsertOne = (\<lambda>c k d. on_lw (InsertOne list_driver c k d)),
      UpdateOne = (\<lambda>c k f d. on_lw (UpdateOne list_driver c k f d)),
      FindOne = (\<lambda>c k f. on_lw (FindOne list_driver c k f)),
      Find = (\<lambda>c k f s l. on_lw (Find list_driver c k f s l)),
      DeleteOne = (\<lambda>c k f. on_lw (DeleteOne list_driver c k f)),
      CountDocuments = (\<lambda>c k f. on_lw (CountDocuments list_driver c k f)),
      GroupCount = (\<lambda>c k f g. on_lw (GroupCount list_driver c k f g))\<rparr>"

definition demo_live :: "live_world live" where
  "demo_live =
     \<lparr>lv_format = FormatInt, lv_parse = Atoi, lv_sort = sort_key ev_IngestedAt,
      lv_now = on_lw (Now list_driver), lv_subscribe = Some (\<lambda>c i w. (None, w)),
      lv_upgrade = (\<lambda>w. (None, w)), lv_write = (\<lambda>f w. (None, w\<lparr>lw_sent := lw_sent w @ [f]\<rparr>)),
      lv_ping = (\<lambda>w. (None, w)), lv_control = (\<lambda>code r w. w),
      lv_select = (\<lambda>w. case lw_inputs w of
          [] \<Rightarrow> (LvClosed, w)
        | x # xs \<Rightarrow> (x, w\<lparr>lw_inputs := xs, lw_got := lw_got w @ (case x of LvEvent e \<Rightarrow> [e] | _ \<Rightarrow> [])\<rparr>)),
      lv_closeSub = (\<lambda>w. w), lv_closeConn = (\<lambda>w. w)\<rparr>"

definition demo_live_app :: "live_world app" where
  "demo_live_app = \<lparr>app_store = mongo_storage lw_driver, app_now = on_lw (Now list_driver)\<rparr>"

definition live_event :: "string \<Rightarrow> int \<Rightarrow> session_event" where
  "live_event t n =
     \<lparr>ev_BatchID = ''batch-1'', ev_RunID = ''run-1'', ev_SessionID = ''sess-1'',
      ev_Event = [(''type'', JString t)], ev_IngestedAt = n\<rparr>"

definition live_run_doc :: task_run where
  "live_run_doc =
     \<lparr>run_ID = ''run-1'', run_BatchID = ''batch-1'', run_RepositoryID = ''repo-1'', run_TaskRef = ''yr-1'',
      run_SessionID = ''sess-1'', run_StartedAt = 1, run_FinishedAt = None, run_Status = TaskRunStatusRunning, run_Result = None\<rparr>"

text \<open>Two stored events with the same time; a heartbeat, then one more event with it, and a later one.\<close>

definition demo_live_world :: live_world where
  "demo_live_world =
     \<lparr>lw_db = (demo_db [] [])\<lparr>db_docs := (db_docs (demo_db [] []))(
          taskRunsCollection := [DocRun live_run_doc],
          sessionEventsCollection := [DocEvent (live_event ''a'' 5), DocEvent (live_event ''b'' 5)])\<rparr>,
      lw_inputs = [LvTick, LvEvent (live_event ''c'' 5), LvEvent (live_event ''d'' 7)], lw_sent = [], lw_got = []\<rparr>"

lemma on_lw_obs [simp]: "lw_sent (snd (on_lw f w)) = lw_sent w" "lw_got (snd (on_lw f w)) = lw_got w"
  by (simp_all add: on_lw_def split: prod.splits)

lemma demo_reads_obs:
  "same_obs lw_sent lw_got w (snd (GetTaskRun (mongo_storage lw_driver) c i w))"
  "same_obs lw_sent lw_got w (snd (ListSessionEvents (mongo_storage lw_driver) c i w))"
  by (auto simp: same_obs_def mongo_storage_def mongo_GetTaskRun_def mongo_ListSessionEvents_def mongo_get_def mongo_list_def
      lw_driver_def on_lw_def split: prod.splits sum.splits option.splits)

lemma demo_live_observed: "observed demo_live_app demo_live lw_sent lw_got"
  unfolding observed_def conn_observed_def
  by (intro conjI allI impI)
    (auto simp: demo_live_def demo_live_app_def same_obs_def demo_reads_obs [unfolded same_obs_def] split: list.splits)

lemma demo_format_ok: "format_ok FormatInt"
proof -
  have "\<not> is_digit (CHR ''-'')" by code_simp
  then have neg: "CHR ''-'' # x \<noteq> nat_str n" for x n using nat_str_hd_digit [of n] by (metis list.sel(1))
  have "FormatInt i = FormatInt j \<Longrightarrow> i = j" for i j
    using neg nat_str_inj [of "nat i" "nat j"] nat_str_inj [of "nat (- i)" "nat (- j)"] neg [symmetric]
    by (auto simp: FormatInt_def split: if_splits)
  moreover have "CHR ''|'' \<notin> set (FormatInt t)" for t
  proof -
    have "c \<in> set (nat_str n) \<Longrightarrow> is_digit c" for c n
      by (induction n rule: nat_str.induct) (subst (asm) (2) nat_str.simps, auto simp: digit_char_props split: if_splits)
    moreover have "\<not> is_digit (CHR ''|'')" by code_simp
    ultimately show ?thesis by (auto simp: FormatInt_def)
  qed
  ultimately show ?thesis by (auto simp: format_ok_def intro: injI)
qed

declare live_loop.simps [code]

lemma demo_live_run:
  "map_option (\<lambda>(r, w). (r, frame_events (lw_sent w))) (runEventsLiveHandler demo_live_app demo_live (CtxBase 0) ''run-1'' [] demo_live_world) =
     Some (None, [live_event ''a'' 5, live_event ''d'' 7])"
  by code_simp



end
