(* ===== verification/Http_Server.thy ===== *)
theory Http_Server
  imports Live_Events
begin

text \<open>
  What surrounds the handlers: the middleware of internal/app/middleware.go, the routes of routes.go, the
  handlers for health and version in app.go, and the embedded page of internal/app/ui/static.go.  The
  router (gorilla/mux) is not part of the repository: that it runs the middleware exactly for a request
  that matches a route, and passes the variables of the template, is how \<open>serve\<close> uses its argument.
\<close>

section \<open>The response writer\<close>

text \<open>
  \<^verbatim>\<open>responseWriter\<close> over the one of \<^verbatim>\<open>net/http\<close>: the status it captures, the header map, what the first
  \<^verbatim>\<open>WriteHeader\<close> sent, the body written so far.  A second \<^verbatim>\<open>WriteHeader\<close> sends nothing but is captured; a
  \<^verbatim>\<open>Write\<close> before any sends status 200 past the wrapper.
\<close>

type_synonym headers = "string \<Rightarrow> string option"

record resp_writer =
  wr_status :: int
  wr_headers :: headers
  wr_sent :: "(int \<times> headers) option"
  wr_body :: "payload list"

definition fresh_writer :: resp_writer where
  "fresh_writer = \<lparr>wr_status = 0, wr_headers = (\<lambda>k. None), wr_sent = None, wr_body = []\<rparr>"

definition HeaderSet :: "string \<Rightarrow> string \<Rightarrow> resp_writer \<Rightarrow> resp_writer" where
  "HeaderSet k v wr = wr\<lparr>wr_headers := (wr_headers wr)(k \<mapsto> v)\<rparr>"

definition send_header :: "int \<Rightarrow> resp_writer \<Rightarrow> resp_writer" where
  "send_header code wr = (case wr_sent wr of None \<Rightarrow> wr\<lparr>wr_sent := Some (code, wr_headers wr)\<rparr> | Some x \<Rightarrow> wr)"

definition WriteHeader :: "int \<Rightarrow> resp_writer \<Rightarrow> resp_writer" where
  "WriteHeader code wr = (send_header code wr)\<lparr>wr_status := code\<rparr>"

definition WriteBody :: "payload \<Rightarrow> resp_writer \<Rightarrow> resp_writer" where
  "WriteBody p wr = (let w1 = send_header 200 wr in w1\<lparr>wr_body := wr_body w1 @ [p]\<rparr>)"

definition Hijack :: "(go_error + 'c) option \<Rightarrow> go_error + 'c" where
  "Hijack underlying = (case underlying of None \<Rightarrow> Inl (Errorf ''hijacker not supported'') | Some r \<Rightarrow> r)"

text \<open>A response of a handler, written: \<^verbatim>\<open>writeJSON\<close>, a bare \<^verbatim>\<open>WriteHeader\<close>, or text.\<close>

definition write_response :: "response \<Rightarrow> resp_writer \<Rightarrow> resp_writer" where
  "write_response r wr =
     (case resp_body r of
        PNone \<Rightarrow> WriteHeader (resp_status r) wr
      | p \<Rightarrow> WriteBody p (WriteHeader (resp_status r) (HeaderSet ''Content-Type'' ''application/json'' wr)))"

section \<open>Middleware\<close>

record request =
  rq_method :: string
  rq_path :: string
  rq_requestID :: string \<comment> \<open>its \<^verbatim>\<open>X-Request-ID\<close> header, empty if there is none\<close>
  rq_query :: "string \<Rightarrow> string"
  rq_body :: "json option"
  rq_ctx :: ctx

datatype log_line = LogRequest string string int string | LogPanic

record 'w server =
  hs_reqCounter :: nat
  hs_log :: "log_line list"
  hs_rest :: 'w

datatype outcome = Returned | Panicked

type_synonym 'w handler = "request \<Rightarrow> resp_writer \<Rightarrow> 'w server \<Rightarrow> outcome \<times> resp_writer \<times> 'w server"

definition requestIDHeader :: string where
  "requestIDHeader = ''X-Request-ID''"

definition requestIDMiddleware :: "'w handler \<Rightarrow> 'w handler" where
  "requestIDMiddleware next rq wr s =
     (let (reqID, n) = requestID (rq_requestID rq) (hs_reqCounter s)
      in next (rq\<lparr>rq_requestID := reqID\<rparr>) (HeaderSet requestIDHeader reqID wr) (s\<lparr>hs_reqCounter := n\<rparr>))"

definition loggingMiddleware :: "'w handler \<Rightarrow> 'w handler" where
  "loggingMiddleware next rq wr s =
     (case next rq (wr\<lparr>wr_status := 200\<rparr>) s of
        (Panicked, wr1, s1) \<Rightarrow> (Panicked, wr1, s1)
      | (Returned, wr1, s1) \<Rightarrow>
          (Returned, wr1,
           s1\<lparr>hs_log := hs_log s1 @ [LogRequest (rq_method rq) (rq_path rq) (wr_status wr1) (rq_requestID rq)]\<rparr>))"

definition recoveryMiddleware :: "'w handler \<Rightarrow> 'w handler" where
  "recoveryMiddleware next rq wr s =
     (case next rq wr s of
        (Returned, wr1, s1) \<Rightarrow> (Returned, wr1, s1)
      | (Panicked, wr1, s1) \<Rightarrow>
          (Returned, write_response (writeJSON 500 (PError ''internal server error'')) wr1,
           s1\<lparr>hs_log := hs_log s1 @ [LogPanic]\<rparr>))"

definition middleware :: "'w handler \<Rightarrow> 'w handler" where
  "middleware h = requestIDMiddleware (loggingMiddleware (recoveryMiddleware h))"

section \<open>What the middleware gives every handler\<close>

text \<open>What a handler may do to its writer: set other headers, and write.\<close>

inductive writes :: "resp_writer \<Rightarrow> resp_writer \<Rightarrow> bool" where
  writes_none: "writes wr wr"
| writes_header: "k \<noteq> requestIDHeader \<Longrightarrow> writes (HeaderSet k v wr) wr' \<Longrightarrow> writes wr wr'"
| writes_code: "writes (WriteHeader code wr) wr' \<Longrightarrow> writes wr wr'"
| writes_body: "writes (WriteBody p wr) wr' \<Longrightarrow> writes wr wr'"

text \<open>
  The contract of a handler: it writes through its writer only, and the lines it logs come after those
  that are there.
\<close>

definition handles :: "'w handler \<Rightarrow> bool" where
  "handles h \<longleftrightarrow>
     (\<forall>rq wr s o' wr' s'. h rq wr s = (o', wr', s') \<longrightarrow> writes wr wr' \<and> prefix (hs_log s) (hs_log s'))"

lemmas writer_simps = HeaderSet_def WriteHeader_def WriteBody_def send_header_def Let_def

lemma writes_trans: "writes a b \<Longrightarrow> writes b c \<Longrightarrow> writes a c"
  by (induction rule: writes.induct) (auto intro: writes.intros)

lemma writes_response: "writes wr (write_response r wr)"
proof -
  have "''Content-Type'' \<noteq> requestIDHeader" by (simp add: requestIDHeader_def)
  then have "writes wr (WriteBody p (WriteHeader c (HeaderSet ''Content-Type'' v wr)))" for p c v
    by (rule writes_header [where v = v]) (rule writes_code [where code = c], rule writes_body [where p = p], rule writes_none)
  moreover have "writes wr (WriteHeader c wr)" for c
    by (rule writes_code [where code = c]) (rule writes_none)
  ultimately show ?thesis by (simp add: write_response_def split: payload.split)
qed

lemma sent_simps [simp]:
  "wr_sent (HeaderSet k v wr) = wr_sent wr"
  "wr_sent (WriteHeader c wr) = Some (case wr_sent wr of None \<Rightarrow> (c, wr_headers wr) | Some x \<Rightarrow> x)"
  "wr_sent (WriteBody p wr) = Some (case wr_sent wr of None \<Rightarrow> (200, wr_headers wr) | Some x \<Rightarrow> x)"
  "wr_headers (HeaderSet k v wr) = (wr_headers wr)(k \<mapsto> v)"
  "wr_headers (WriteHeader c wr) = wr_headers wr" "wr_headers (WriteBody p wr) = wr_headers wr"
  "wr_status (HeaderSet k v wr) = wr_status wr" "wr_status (WriteHeader c wr) = c"
  "wr_status (WriteBody p wr) = wr_status wr"
  "wr_body (HeaderSet k v wr) = wr_body wr" "wr_body (WriteHeader c wr) = wr_body wr"
  "wr_body (WriteBody p wr) = wr_body wr @ [p]"
  by (cases "wr_sent wr"; simp add: writer_simps)+

text \<open>
  The first header sent stays, and it holds the request identifier that was set before.
\<close>

lemma writes_sent: "writes wr wr' \<Longrightarrow> wr_sent wr = Some x \<Longrightarrow> wr_sent wr' = Some x"
  by (induction rule: writes.induct) simp_all

definition carries :: "string \<Rightarrow> resp_writer \<Rightarrow> bool" where
  "carries v wr \<longleftrightarrow> wr_headers wr requestIDHeader = Some v \<and>
     (\<forall>c hd. wr_sent wr = Some (c, hd) \<longrightarrow> hd requestIDHeader = Some v)"

lemma carries_step:
  "carries v wr \<Longrightarrow> k \<noteq> requestIDHeader \<Longrightarrow> carries v (HeaderSet k u wr)"
  "carries v wr \<Longrightarrow> carries v (WriteHeader c wr)" "carries v wr \<Longrightarrow> carries v (WriteBody p wr)"
  by (cases "wr_sent wr"; simp add: carries_def)+

lemma writes_id: "writes wr wr' \<Longrightarrow> carries v wr \<Longrightarrow> carries v wr'"
  by (induction rule: writes.induct) (blast intro: carries_step)+

text \<open>
  C16: What the middleware gives every handler.  A request is answered whatever the handler does, a panic
  included; every answer carries the request identifier, that of the request or a new one; exactly one line
  is logged for the request, after those of the handler and a line for a panic.  A handler that panics
  before it has written is answered with 500 and a JSON error; once it has sent a status that status
  stays, although 500 is logged.
\<close>

theorem middleware_answers:
  assumes "handles h" and "middleware h rq fresh_writer s = (o', wr', s')"
  shows "\<exists>o1 wr1 s1 reqID n.
    requestID (rq_requestID rq) (hs_reqCounter s) = (reqID, n) \<and>
    h (rq\<lparr>rq_requestID := reqID\<rparr>) (HeaderSet requestIDHeader reqID (fresh_writer\<lparr>wr_status := 200\<rparr>)) (s\<lparr>hs_reqCounter := n\<rparr>) =
      (o1, wr1, s1) \<and>
    o' = Returned \<and> (\<forall>c hd. wr_sent wr' = Some (c, hd) \<longrightarrow> hd requestIDHeader = Some reqID) \<and>
    hs_log s' = hs_log s1 @ (if o1 = Panicked then [LogPanic] else []) @
      [LogRequest (rq_method rq) (rq_path rq) (wr_status wr') reqID] \<and>
    (o1 = Returned \<longrightarrow> wr' = wr1) \<and>
    (o1 = Panicked \<longrightarrow> wr_status wr' = 500 \<and>
       (if wr_sent wr1 = None then (\<exists>hd. wr_sent wr' = Some (500, hd)) else wr_sent wr' = wr_sent wr1) \<and>
       wr_body wr' = wr_body wr1 @ [PError ''internal server error''])"
proof -
  obtain reqID n where id: "requestID (rq_requestID rq) (hs_reqCounter s) = (reqID, n)" by fastforce
  let ?rq = "rq\<lparr>rq_requestID := reqID\<rparr>" and ?s = "s\<lparr>hs_reqCounter := n\<rparr>"
  let ?wr = "HeaderSet requestIDHeader reqID (fresh_writer\<lparr>wr_status := 200\<rparr>)"
  have wr: "(HeaderSet requestIDHeader reqID fresh_writer)\<lparr>wr_status := 200\<rparr> = ?wr"
    by (simp add: HeaderSet_def fresh_writer_def)
  obtain o1 wr1 s1 where h: "h ?rq ?wr ?s = (o1, wr1, s1)" by (metis prod.exhaust)
  have c1: "carries reqID wr1"
    using assms(1) h writes_id [of ?wr wr1 reqID] unfolding handles_def
    by (auto simp: carries_def fresh_writer_def)
  show ?thesis
  proof (cases o1)
    case Returned
    with assms(2) id h wr have "o' = Returned" "wr' = wr1"
      "hs_log s' = hs_log s1 @ [LogRequest (rq_method rq) (rq_path rq) (wr_status wr1) reqID]"
      by (auto simp: middleware_def requestIDMiddleware_def loggingMiddleware_def recoveryMiddleware_def)
    with id h c1 Returned show ?thesis by (auto simp: carries_def)
  next
    case Panicked
    let ?e = "write_response (writeJSON 500 (PError ''internal server error'')) wr1"
    from Panicked assms(2) id h wr have r: "o' = Returned" "wr' = ?e"
      "hs_log s' = (hs_log s1 @ [LogPanic]) @ [LogRequest (rq_method rq) (rq_path rq) (wr_status ?e) reqID]"
      by (auto simp: middleware_def requestIDMiddleware_def loggingMiddleware_def recoveryMiddleware_def)
    have "carries reqID ?e" by (rule writes_id [OF writes_response c1])
    moreover have "wr_status ?e = 500" "wr_body ?e = wr_body wr1 @ [PError ''internal server error'']"
      "if wr_sent wr1 = None then (\<exists>hd. wr_sent ?e = Some (500, hd)) else wr_sent ?e = wr_sent wr1"
      by (auto simp: write_response_def writeJSON_def split: option.split)
    ultimately show ?thesis using id h r Panicked by (auto simp: carries_def)
  qed
qed

section \<open>Routes\<close>

datatype endpoint =
    EHealth | EVersion | ERestart | ECreateRepository | EListRepositories | EGetRepository |
    EUpdateRepository | EDeleteRepository | EAddBatch | EListRepositoryBatches | EPauseBatch |
    EResumeBatch | ERestartBatch | EListBatches | EBatchDetail | EBatchProgress | ECreateAgent |
    EListAgents | EGetAgent | EUpdateAgent | EDeleteAgent | EListRuns | ERunEvents | ERunEventsLive |
    ERunDetail | EIndex | EStatic

text \<open>
  A route: its template, whether it is the prefix of a path, the method, and what serves it.  A segment of
  a template in braces is a variable.
\<close>

record route =
  rt_template :: string
  rt_prefix :: bool
  rt_method :: string
  rt_endpoint :: endpoint

definition handle :: "string \<Rightarrow> string \<Rightarrow> endpoint \<Rightarrow> route" where
  "handle t m e = \<lparr>rt_template = t, rt_prefix = False, rt_method = m, rt_endpoint = e\<rparr>"

definition registerRoutes :: "route list" where
  "registerRoutes =
     [handle ''/health'' ''GET'' EHealth,
      handle ''/version'' ''GET'' EVersion,
      handle ''/restart'' ''POST'' ERestart,
      handle ''/repository'' ''POST'' ECreateRepository,
      handle ''/repository'' ''GET'' EListRepositories,
      handle ''/repository/{id}'' ''GET'' EGetRepository,
      handle ''/repository/{id}'' ''PUT'' EUpdateRepository,
      handle ''/repository/{id}'' ''DELETE'' EDeleteRepository,
      handle ''/repository/{repoid}/add'' ''POST'' EAddBatch,
      handle ''/repository/{repoid}/batches'' ''GET'' EListRepositoryBatches,
      handle ''/repository/{repoid}/batch/{batchid}/pause'' ''PUT'' EPauseBatch,
      handle ''/repository/{repoid}/batch/{batchid}/resume'' ''PUT'' EResumeBatch,
      handle ''/repository/{repoid}/batch/{batchid}/restart'' ''PUT'' ERestartBatch,
      handle ''/batches'' ''GET'' EListBatches,
      handle ''/batches/{id}'' ''GET'' EBatchDetail,
      handle ''/batches/{id}/progress'' ''GET'' EBatchProgress,
      handle ''/agent'' ''POST'' ECreateAgent,
      handle ''/agent'' ''GET'' EListAgents,
      handle ''/agent/{id}'' ''GET'' EGetAgent,
      handle ''/agent/{id}'' ''PUT'' EUpdateAgent,
      handle ''/agent/{id}'' ''DELETE'' EDeleteAgent,
      handle ''/repository/{repoid}/batch/{batchid}/runs'' ''GET'' EListRuns,
      handle ''/runs/{id}/events'' ''GET'' ERunEvents,
      handle ''/runs/{id}/events/live'' ''GET'' ERunEventsLive,
      handle ''/runs/{id}'' ''GET'' ERunDetail,
      handle ''/app'' ''GET'' EIndex,
      handle ''/app/'' ''GET'' EIndex,
      \<lparr>rt_template = ''/app/static/'', rt_prefix = True, rt_method = ''GET'', rt_endpoint = EStatic\<rparr>]"

text \<open>
  When a path matches a template, as the router documents it: segment by segment, a variable matching
  any segment that is not empty, with the variables and their values.
\<close>

definition var_name :: "string \<Rightarrow> string option" where
  "var_name t = (if t \<noteq> [] \<and> hd t = CHR 0x7B \<and> last t = CHR 0x7D then Some (butlast (tl t)) else None)"

fun match_segments :: "string list \<Rightarrow> string list \<Rightarrow> (string \<times> string) list option" where
  "match_segments [] [] = Some []"
| "match_segments (t # ts) (p # ps) =
     (case match_segments ts ps of
        None \<Rightarrow> None
      | Some vs \<Rightarrow>
          (case var_name t of
             Some v \<Rightarrow> (if p \<noteq> [] then Some ((v, p) # vs) else None)
           | None \<Rightarrow> (if t = p then Some vs else None)))"
| "match_segments ts ps = None"

definition route_match :: "route \<Rightarrow> string \<Rightarrow> (string \<times> string) list option" where
  "route_match r path =
     (if rt_prefix r then (if prefix (rt_template r) path then Some [] else None)
      else match_segments (split_path (rt_template r)) (split_path path))"

subsection \<open>No two routes for one request\<close>

definition shape :: "string \<Rightarrow> string option" where
  "shape t = (if var_name t \<noteq> None then None else Some t)"

fun compatible :: "string option \<Rightarrow> string option \<Rightarrow> bool" where
  "compatible None None = True"
| "compatible None (Some t) = (t \<noteq> [])"
| "compatible (Some s) None = (s \<noteq> [])"
| "compatible (Some s) (Some t) = (s = t)"

fun overlap :: "bool \<Rightarrow> string option list \<Rightarrow> bool \<Rightarrow> string option list \<Rightarrow> bool" where
  "overlap False [] False [] = True"
| "overlap pa (s # ss) pb (t # ts) =
     (if pa \<and> ss = [] \<or> pb \<and> ts = [] then True else if compatible s t then overlap pa ss pb ts else False)"
| "overlap pa ss pb ts = False"

definition route_shape :: "route \<Rightarrow> string \<times> bool \<times> string option list" where
  "route_shape r = (rt_method r, rt_prefix r, map shape (split_path (rt_template r)))"

definition apart :: "string \<times> bool \<times> string option list \<Rightarrow> string \<times> bool \<times> string option list \<Rightarrow> bool" where
  "apart = (\<lambda>(m, pa, ss) (n, pb, ts). m = n \<longrightarrow> \<not> overlap pa ss pb ts)"

text \<open>A path that a template matches, segment by segment, and that two templates match.\<close>

definition segment_ok :: "string \<Rightarrow> string \<Rightarrow> bool" where
  "segment_ok t p \<longleftrightarrow> (if var_name t \<noteq> None then p \<noteq> [] else t = p)"

fun covers :: "bool \<Rightarrow> string list \<Rightarrow> string list \<Rightarrow> bool" where
  "covers pre [] [] \<longleftrightarrow> \<not> pre"
| "covers pre (t # ts) (p # ps) \<longleftrightarrow> pre \<and> ts = [] \<and> prefix t p \<or> segment_ok t p \<and> covers pre ts ps"
| "covers pre ts ps \<longleftrightarrow> False"

lemma covers_overlap: "covers pa ss ps \<Longrightarrow> covers pb ts ps \<Longrightarrow> overlap pa (map shape ss) pb (map shape ts)"
proof (induction pa ss ps arbitrary: pb ts rule: covers.induct)
  case (1 pre)
  then show ?case by (cases ts) auto
next
  case (2 pre t ts' p ps)
  then obtain t2 ts2 where ts: "ts = t2 # ts2" by (cases ts) auto
  have "segment_ok t p \<Longrightarrow> segment_ok t2 p \<Longrightarrow> compatible (shape t) (shape t2)"
    by (auto simp: segment_ok_def shape_def split: if_splits)
  with 2 ts show ?case by auto
qed auto

lemma match_covers: "match_segments ts ps = Some vs \<Longrightarrow> covers False ts ps"
  by (induction ts ps arbitrary: vs rule: match_segments.induct)
    (auto simp: segment_ok_def split: option.splits if_splits)

fun starts :: "string list \<Rightarrow> string list \<Rightarrow> bool" where
  "starts (t # ts) (p # ps) \<longleftrightarrow> (if ts = [] then prefix t p else t = p \<and> starts ts ps)"
| "starts ts ps \<longleftrightarrow> False"

lemma split_path_ne [simp]: "split_path xs \<noteq> []"
  by (induction xs) (auto split: list.split)

lemma prefix_starts: "prefix xs ys \<Longrightarrow> starts (split_path xs) (split_path ys)"
proof (induction xs arbitrary: ys)
  case Nil
  then show ?case by (cases "split_path ys") auto
next
  case (Cons x xs)
  then obtain zs where ys: "ys = x # zs" "prefix xs zs" by (cases ys) auto
  obtain s ss z zz where "split_path xs = s # ss" "split_path zs = z # zz"
    using split_path_ne by (metis neq_Nil_conv)
  with Cons.IH [OF ys(2)] ys(1) show ?case by (auto split: if_splits)
qed

lemma starts_covers: "starts ts ps \<Longrightarrow> \<forall>t \<in> set ts. var_name t = None \<Longrightarrow> covers True ts ps"
  by (induction ts ps rule: starts.induct) (auto simp: segment_ok_def split: if_splits)

lemma route_covers:
  assumes "r \<in> set registerRoutes" and "route_match r path = Some vs"
  shows "covers (rt_prefix r) (split_path (rt_template r)) (split_path path)"
proof (cases "rt_prefix r")
  case True
  with assms(2) have "prefix (rt_template r) path" by (simp add: route_match_def split: if_splits)
  moreover have "list_all (\<lambda>r. rt_prefix r \<longrightarrow> list_all (\<lambda>t. var_name t = None) (split_path (rt_template r))) registerRoutes"
    by code_simp
  with assms(1) True have "\<forall>t \<in> set (split_path (rt_template r)). var_name t = None" by (simp add: list_all_iff)
  ultimately show ?thesis using True starts_covers prefix_starts by simp
next
  case False
  with assms(2) show ?thesis by (auto simp: route_match_def intro: match_covers)
qed

text \<open>The shapes of the table, computed once.\<close>

definition route_shapes :: "(string \<times> bool \<times> string option list) list" where
  "route_shapes =
     [(''GET'', False, [Some [], Some ''health'']),
      (''GET'', False, [Some [], Some ''version'']),
      (''POST'', False, [Some [], Some ''restart'']),
      (''POST'', False, [Some [], Some ''repository'']),
      (''GET'', False, [Some [], Some ''repository'']),
      (''GET'', False, [Some [], Some ''repository'', None]),
      (''PUT'', False, [Some [], Some ''repository'', None]),
      (''DELETE'', False, [Some [], Some ''repository'', None]),
      (''POST'', False, [Some [], Some ''repository'', None, Some ''add'']),
      (''GET'', False, [Some [], Some ''repository'', None, Some ''batches'']),
      (''PUT'', False, [Some [], Some ''repository'', None, Some ''batch'', None, Some ''pause'']),
      (''PUT'', False, [Some [], Some ''repository'', None, Some ''batch'', None, Some ''resume'']),
      (''PUT'', False, [Some [], Some ''repository'', None, Some ''batch'', None, Some ''restart'']),
      (''GET'', False, [Some [], Some ''batches'']),
      (''GET'', False, [Some [], Some ''batches'', None]),
      (''GET'', False, [Some [], Some ''batches'', None, Some ''progress'']),
      (''POST'', False, [Some [], Some ''agent'']),
      (''GET'', False, [Some [], Some ''agent'']),
      (''GET'', False, [Some [], Some ''agent'', None]),
      (''PUT'', False, [Some [], Some ''agent'', None]),
      (''DELETE'', False, [Some [], Some ''agent'', None]),
      (''GET'', False, [Some [], Some ''repository'', None, Some ''batch'', None, Some ''runs'']),
      (''GET'', False, [Some [], Some ''runs'', None, Some ''events'']),
      (''GET'', False, [Some [], Some ''runs'', None, Some ''events'', Some ''live'']),
      (''GET'', False, [Some [], Some ''runs'', None]),
      (''GET'', False, [Some [], Some ''app'']),
      (''GET'', False, [Some [], Some ''app'', Some []]),
      (''GET'', True, [Some [], Some ''app'', Some ''static'', Some []])]"

lemma route_shapes_eq: "map route_shape registerRoutes = route_shapes"
  by (simp add: route_shapes_def registerRoutes_def handle_def route_shape_def slash_def shape_def var_name_def)

lemma shapes_apart: "sorted_wrt apart route_shapes"
  by code_simp

lemma sorted_wrt_pair: "sorted_wrt P xs \<Longrightarrow> x \<in> set xs \<Longrightarrow> y \<in> set xs \<Longrightarrow> x = y \<or> P x y \<or> P y x"
  by (induction xs) auto

text \<open>
  A request reaches at most one route: no path matches two templates that are registered for the same
  method, whatever the identifiers in it, so the order of registration does not matter.
\<close>

lemma route_unique:
  assumes "r1 \<in> set registerRoutes" and "r2 \<in> set registerRoutes" and "rt_method r1 = rt_method r2"
    and "route_match r1 path = Some vs1" and "route_match r2 path = Some vs2"
  shows "r1 = r2"
proof -
  have "\<not> apart (route_shape r1) (route_shape r2)" "\<not> apart (route_shape r2) (route_shape r1)"
    using covers_overlap [OF route_covers [OF assms(1,4)] route_covers [OF assms(2,5)]]
      covers_overlap [OF route_covers [OF assms(2,5)] route_covers [OF assms(1,4)]] assms(3)
    by (simp_all add: apart_def route_shape_def)
  moreover have "sorted_wrt (\<lambda>a b. apart (route_shape a) (route_shape b)) registerRoutes"
    using shapes_apart by (simp add: sorted_wrt_map route_shapes_eq [symmetric])
  ultimately show ?thesis using sorted_wrt_pair [OF _ assms(1,2)] by blast
qed

section \<open>The handlers behind the routes\<close>

text \<open>
  What the handlers need besides the storage: the restart and live handlers, which are those of
  \<open>Lifecycle\<close> and \<open>Live_Events\<close> (the live handler writes nothing once the connection is its own), the
  version string, the embedded files and the file server.
\<close>

record 'w http_env =
  he_app :: "'w app"
  he_restart :: "ctx \<Rightarrow> string \<Rightarrow> ('w, response) act"
  he_live :: "ctx \<Rightarrow> string \<Rightarrow> string \<Rightarrow> ('w, response option) act"
  he_Version :: string
  he_ReadFile :: "string \<Rightarrow> go_error + string"
  he_FileServer :: "string \<Rightarrow> response"

definition healthHandler :: response where
  "healthHandler = writeJSON 200 (PStatus ''ok'')"

definition versionHandler :: "string \<Rightarrow> response" where
  "versionHandler version = writeJSON 200 (PVersion version)"

definition methodNotAllowedHandler :: response where
  "methodNotAllowedHandler = writeError 405 ''method not allowed''"

text \<open>\<^verbatim>\<open>IndexHandler\<close>: the page, or an error as plain text (\<^verbatim>\<open>http.Error\<close>).\<close>

definition IndexHandler :: "(string \<Rightarrow> go_error + string) \<Rightarrow> resp_writer \<Rightarrow> resp_writer" where
  "IndexHandler read wr =
     (case read ''index.html'' of
        Inl e \<Rightarrow>
          WriteBody (PText ''app UI unavailable'')
            (WriteHeader 500 (HeaderSet ''Content-Type'' ''text/plain; charset=utf-8'' wr))
      | Inr page \<Rightarrow> WriteBody (PText page) (HeaderSet ''Content-Type'' ''text/html; charset=utf-8'' wr))"

definition mux_var :: "(string \<times> string) list \<Rightarrow> string \<Rightarrow> string" where
  "mux_var vars k = (case map_of vars k of None \<Rightarrow> [] | Some v \<Rightarrow> v)"

definition endpoint_response ::
    "'w http_env \<Rightarrow> endpoint \<Rightarrow> (string \<times> string) list \<Rightarrow> request \<Rightarrow> ('w, response option) act" where
  "endpoint_response env e vars rq w =
     (let a = he_app env; c = rq_ctx rq; q = rq_query rq; body = rq_body rq; v = mux_var vars;
          answer = (\<lambda>f. case f w of (r, w') \<Rightarrow> (Some r, w'))
      in case e of
           EHealth \<Rightarrow> (Some healthHandler, w)
         | EVersion \<Rightarrow> (Some (versionHandler (he_Version env)), w)
         | ERestart \<Rightarrow> answer (he_restart env c (q ''wait''))
         | ECreateRepository \<Rightarrow> answer (createRepositoryHandler a c body)
         | EListRepositories \<Rightarrow> answer (listRepositoriesHandler a c)
         | EGetRepository \<Rightarrow> answer (getRepositoryHandler a c (v ''id''))
         | EUpdateRepository \<Rightarrow> answer (updateRepositoryHandler a c (v ''id'') body)
         | EDeleteRepository \<Rightarrow> answer (deleteRepositoryHandler a c (v ''id''))
         | EAddBatch \<Rightarrow> answer (addBatchHandler a c (v ''repoid'') body)
         | EListRepositoryBatches \<Rightarrow> answer (listRepositoryBatchesHandler a c (v ''repoid'') (q ''status'') (q ''limit''))
         | EPauseBatch \<Rightarrow> answer (pauseBatchHandler a c (v ''repoid'') (v ''batchid''))
         | EResumeBatch \<Rightarrow> answer (resumeBatchHandler a c (v ''repoid'') (v ''batchid''))
         | ERestartBatch \<Rightarrow> answer (restartBatchHandler a c (v ''repoid'') (v ''batchid''))
         | EListBatches \<Rightarrow> answer (listBatchesHandler a c (q ''limit''))
         | EBatchDetail \<Rightarrow> answer (batchDetailHandler a c (v ''id''))
         | EBatchProgress \<Rightarrow> answer (batchProgressHandler a c (v ''id''))
         | ECreateAgent \<Rightarrow> answer (createAgentHandler a c body)
         | EListAgents \<Rightarrow> answer (listAgentsHandler a c)
         | EGetAgent \<Rightarrow> answer (getAgentHandler a c (v ''id''))
         | EUpdateAgent \<Rightarrow> answer (updateAgentHandler a c (v ''id'') body)
         | EDeleteAgent \<Rightarrow> answer (deleteAgentHandler a c (v ''id''))
         | EListRuns \<Rightarrow> answer (listRunsHandler a c (v ''repoid'') (v ''batchid'') (q ''limit''))
         | ERunEvents \<Rightarrow> answer (runEventsHandler a c (v ''id'') (q ''limit''))
         | ERunEventsLive \<Rightarrow> he_live env c (v ''id'') (q ''last_ingested'') w
         | ERunDetail \<Rightarrow> answer (runDetailHandler a c (v ''id'') (q ''event_limit''))
         | EIndex \<Rightarrow> (None, w)
         | EStatic \<Rightarrow> (Some (he_FileServer env (drop (length ''/app/static/'') (rq_path rq))), w))"

definition endpoint_handler :: "'w http_env \<Rightarrow> endpoint \<Rightarrow> (string \<times> string) list \<Rightarrow> 'w handler" where
  "endpoint_handler env e vars rq wr s =
     (case endpoint_response env e vars rq (hs_rest s) of
        (resp, w') \<Rightarrow>
          (Returned,
           (case resp of
              Some r \<Rightarrow> write_response r wr
            | None \<Rightarrow> (if e = EIndex then IndexHandler (he_ReadFile env) wr else wr)),
           s\<lparr>hs_rest := w'\<rparr>))"

text \<open>
  The router, with what it answers for a method and a path: a route with the values of its variables, a path
  known under other methods only, or nothing, which \<^verbatim>\<open>http.NotFound\<close> answers.
\<close>

datatype route_result = RouteFound route "(string \<times> string) list" | RouteOtherMethod | RouteNotFound

definition serve :: "(string \<Rightarrow> string \<Rightarrow> route_result) \<Rightarrow> 'w http_env \<Rightarrow> 'w handler" where
  "serve lookup env rq wr s =
     (case lookup (rq_method rq) (rq_path rq) of
        RouteFound r vars \<Rightarrow> middleware (endpoint_handler env (rt_endpoint r) vars) rq wr s
      | RouteOtherMethod \<Rightarrow> (Returned, write_response methodNotAllowedHandler wr, s)
      | RouteNotFound \<Rightarrow>
          (Returned,
           WriteBody (PText ''404 page not found'')
             (WriteHeader 404 (HeaderSet ''Content-Type'' ''text/plain; charset=utf-8'' wr)), s))"

text \<open>Documented of the router: what it finds is in the table and matches, and what matches is found.\<close>

definition mux_ok :: "(string \<Rightarrow> string \<Rightarrow> route_result) \<Rightarrow> bool" where
  "mux_ok lookup \<longleftrightarrow>
     (\<forall>m p r vars. lookup m p = RouteFound r vars \<longrightarrow>
        r \<in> set registerRoutes \<and> rt_method r = m \<and> route_match r p = Some vars) \<and>
     (\<forall>m p r vars. r \<in> set registerRoutes \<longrightarrow> rt_method r = m \<longrightarrow> route_match r p = Some vars \<longrightarrow>
        (\<exists>r' vars'. lookup m p = RouteFound r' vars'))"

lemma writes_index: "writes wr (IndexHandler read wr)"
proof -
  have ct: "''Content-Type'' \<noteq> requestIDHeader" by (simp add: requestIDHeader_def)
  have "writes wr (WriteBody p (WriteHeader c (HeaderSet ''Content-Type'' v wr)))"
    and "writes wr (WriteBody p (HeaderSet ''Content-Type'' v wr))" for p c v
    by (rule writes_header [OF ct, where v = v], rule writes_code [where code = c], rule writes_body [where p = p], rule writes_none)
      (rule writes_header [OF ct, where v = v], rule writes_body [where p = p], rule writes_none)
  then show ?thesis by (simp add: IndexHandler_def split: sum.split)
qed

lemma endpoint_handles: "handles (endpoint_handler env e vars)"
  unfolding handles_def endpoint_handler_def
  by (auto simp: writes_none writes_response writes_index split: prod.splits option.splits)


section \<open>Concrete requests\<close>

text \<open>The first route that matches: what the router does, and one that behaves as documented.\<close>

fun first_route :: "route list \<Rightarrow> string \<Rightarrow> string \<Rightarrow> route_result" where
  "first_route [] m p = RouteNotFound"
| "first_route (r # rs) m p =
     (case route_match r p of
        Some vars \<Rightarrow>
          (if rt_method r = m then RouteFound r vars
           else (case first_route rs m p of RouteNotFound \<Rightarrow> RouteOtherMethod | x \<Rightarrow> x))
      | None \<Rightarrow> first_route rs m p)"

lemma first_route_found:
  "first_route rs m p = RouteFound r vars \<Longrightarrow> r \<in> set rs \<and> rt_method r = m \<and> route_match r p = Some vars"
  by (induction rs) (auto split: option.splits if_splits route_result.splits)

lemma first_route_finds:
  "r \<in> set rs \<Longrightarrow> rt_method r = m \<Longrightarrow> route_match r p = Some vars \<Longrightarrow> \<exists>r' vars'. first_route rs m p = RouteFound r' vars'"
  by (induction rs) (auto split: option.split route_result.split)

lemma first_route_ok: "mux_ok (first_route registerRoutes)"
  using first_route_found first_route_finds unfolding mux_ok_def by blast

definition demo_http :: "list_db http_env" where
  "demo_http =
     \<lparr>he_app = mongo_app list_driver, he_restart = (\<lambda>c q w. (writeError 503 ''scheduler not configured'', w)),
      he_live = (\<lambda>c i q w. (None, w)), he_Version = ''dev'', he_ReadFile = (\<lambda>f. Inr ''<html>''),
      he_FileServer = (\<lambda>f. writeJSON 200 (PText f))\<rparr>"

definition demo_request :: "string \<Rightarrow> string \<Rightarrow> request" where
  "demo_request m p =
     \<lparr>rq_method = m, rq_path = p, rq_requestID = [], rq_query = (\<lambda>k. []), rq_body = None, rq_ctx = CtxBase 0\<rparr>"

definition demo_server :: "list_db server" where
  "demo_server = \<lparr>hs_reqCounter = 6, hs_log = [], hs_rest = demo_db [demo_batch] []\<rparr>"

lemma demo_request_id: "requestID [] (hs_reqCounter demo_server) = (''7'', 7)"
proof -
  have "digit_char 7 = CHR ''7''" by code_simp
  then show ?thesis by (simp add: requestID_def demo_server_def nat_str.simps)
qed


text \<open>A handler that sends a status and then panics: the client keeps the status, the log says 500.\<close>

definition late_panic :: "list_db handler" where
  "late_panic rq wr s = (Panicked, WriteHeader 200 wr, s)"

theorem middleware_answers_witness:
  "\<exists>wr' s' hd. middleware late_panic (demo_request ''GET'' ''/health'') fresh_writer demo_server = (Returned, wr', s') \<and>
     wr_sent wr' = Some (200, hd) \<and> hd requestIDHeader = Some ''7'' \<and>
     hs_log s' = [LogPanic, LogRequest ''GET'' ''/health'' 500 ''7'']"
proof -
  have h: "handles late_panic"
    by (auto simp: handles_def late_panic_def intro: writes_code writes_none)
  obtain o' wr' s' where m: "middleware late_panic (demo_request ''GET'' ''/health'') fresh_writer demo_server = (o', wr', s')"
    by (metis prod.exhaust)
  have i: "requestID (rq_requestID (demo_request ''GET'' ''/health'')) (hs_reqCounter demo_server) = (''7'', 7)"
    by (simp add: demo_request_id demo_request_def)
  from middleware_answers [OF h m] obtain o1 wr1 s1 reqID n where
    id: "requestID (rq_requestID (demo_request ''GET'' ''/health'')) (hs_reqCounter demo_server) = (reqID, n)" and
    hp: "late_panic ((demo_request ''GET'' ''/health'')\<lparr>rq_requestID := reqID\<rparr>)
      (HeaderSet requestIDHeader reqID (fresh_writer\<lparr>wr_status := 200\<rparr>)) (demo_server\<lparr>hs_reqCounter := n\<rparr>) = (o1, wr1, s1)" and
    r: "o' = Returned" "\<forall>c hd. wr_sent wr' = Some (c, hd) \<longrightarrow> hd requestIDHeader = Some reqID" and
    lg: "hs_log s' = hs_log s1 @ (if o1 = Panicked then [LogPanic] else []) @
      [LogRequest (rq_method (demo_request ''GET'' ''/health'')) (rq_path (demo_request ''GET'' ''/health'')) (wr_status wr') reqID]" and
    pn: "o1 = Panicked \<longrightarrow> wr_status wr' = 500 \<and>
       (if wr_sent wr1 = None then (\<exists>hd. wr_sent wr' = Some (500, hd)) else wr_sent wr' = wr_sent wr1) \<and>
       wr_body wr' = wr_body wr1 @ [PError ''internal server error'']"
    by blast
  have reqID: "reqID = ''7''" "n = 7" using id i by simp_all
  have o1: "o1 = Panicked" "hs_log s1 = []" and "\<exists>hd. wr_sent wr1 = Some (200, hd)"
    using hp by (auto simp: late_panic_def demo_server_def fresh_writer_def)
  then obtain hd where "wr_sent wr1 = Some (200, hd)" by blast
  with pn o1(1) have "wr_status wr' = 500" "wr_sent wr' = Some (200, hd)" by simp_all
  with r lg o1 reqID m show ?thesis by (simp add: demo_request_def)
qed

end
