(* ===== verification/Lifecycle.thy ===== *)
theory Lifecycle
  imports Service_Worker
begin

text \<open>
  The life of the service: internal/app/restart_handler.go, scheduler_config.go and, of app.go, \<^verbatim>\<open>Run\<close>,
  \<^verbatim>\<open>requestShutdown\<close> and \<^verbatim>\<open>runScheduler\<close>.  The goroutine of the scheduler loop, the restart requests
  and \<^verbatim>\<open>Run\<close> share the flags of the scheduler and the context of the run, so they are the processes of
  one step relation; between the check of the draining flag and the count of a run \<^verbatim>\<open>Tick\<close> can be
  interleaved with the others.  The scheduler of a service is never nil, so the guards for a nil one have
  no counterpart; the HTTP server and its shutdown are left out.
\<close>

section \<open>Options from the configuration\<close>

definition defaultSchedulerIntervalDuration :: int where
  "defaultSchedulerIntervalDuration = 10 * 10 ^ 9"

definition defaultSchedulerMaxRetries :: int where
  "defaultSchedulerMaxRetries = 5"

definition schedulerOptionsFromConfig :: "(string \<Rightarrow> int option) \<Rightarrow> config option \<Rightarrow> scheduler_options" where
  "schedulerOptionsFromConfig ParseDuration cfg =
     (case cfg of
        None \<Rightarrow>
          \<lparr>opt_Interval = defaultSchedulerIntervalDuration, opt_Draining = False, opt_MaxRetries = defaultSchedulerMaxRetries\<rparr>
      | Some get \<Rightarrow>
          (let interval =
             (case get SchedulerIntervalKey of
                Inl e \<Rightarrow> defaultSchedulerIntervalDuration
              | Inr v \<Rightarrow>
                  (case ParseDuration (TrimSpace v) of
                     None \<Rightarrow> defaultSchedulerIntervalDuration
                   | Some d \<Rightarrow> (if 0 < d then d else defaultSchedulerIntervalDuration)));
             maxRetries =
             (case get MaxRetriesKey of
                Inl e \<Rightarrow> defaultSchedulerMaxRetries
              | Inr v \<Rightarrow>
                  (case Atoi (TrimSpace v) of
                     None \<Rightarrow> defaultSchedulerMaxRetries
                   | Some n \<Rightarrow> (if 0 < n then n else defaultSchedulerMaxRetries)))
           in \<lparr>opt_Interval = interval, opt_Draining = False, opt_MaxRetries = maxRetries\<rparr>))"

definition defaultRestartWaitTimeout :: int where
  "defaultRestartWaitTimeout = 20 * 60 * 10 ^ 9"

definition restartWaitTimeout :: "(string \<Rightarrow> int option) \<Rightarrow> config option \<Rightarrow> int" where
  "restartWaitTimeout ParseDuration cfg =
     (case cfg of
        None \<Rightarrow> defaultRestartWaitTimeout
      | Some get \<Rightarrow>
          (case get RestartWaitTimeoutKey of
             Inl e \<Rightarrow> defaultRestartWaitTimeout
           | Inr value \<Rightarrow>
               (if TrimSpace value = [] then defaultRestartWaitTimeout
                else case ParseDuration value of
                    None \<Rightarrow> defaultRestartWaitTimeout
                  | Some dur \<Rightarrow> (if dur \<le> 0 then defaultRestartWaitTimeout else dur))))"

lemma options_positive:
  "0 < opt_Interval (schedulerOptionsFromConfig pd cfg)" "0 < opt_MaxRetries (schedulerOptionsFromConfig pd cfg)"
  "in_int64 (opt_MaxRetries (schedulerOptionsFromConfig pd cfg))" "\<not> opt_Draining (schedulerOptionsFromConfig pd cfg)"
proof -
  have "in_int64 5" by code_simp
  then show "in_int64 (opt_MaxRetries (schedulerOptionsFromConfig pd cfg))"
    by (auto simp: schedulerOptionsFromConfig_def defaultSchedulerMaxRetries_def Let_def
        split: option.split sum.split dest: Atoi_range)
qed (auto simp: schedulerOptionsFromConfig_def defaultSchedulerMaxRetries_def defaultSchedulerIntervalDuration_def Let_def
    split: option.split sum.split)

text \<open>
  The limit of attempts.  Whatever is configured, the scheduler that the service builds has an
  attempt cap of at least one and a positive interval, so the hypotheses about the cap in the theorems
  on the scheduler hold.  The worker reads the same key by itself: its limit is that of the scheduler
  exactly when the configured value is a positive number.
\<close>

theorem configured_limits:
  assumes "cfg MaxRetriesKey = Inr v" and "TrimSpace v = v"
  shows "let s = scheduler_New (schedulerOptionsFromConfig pd (Some cfg)) in
    1 \<le> sc_maxRetries s \<and> in_int64 (sc_maxRetries s) \<and> 0 < sc_interval s \<and> \<not> sc_draining s \<and>
    (parseMaxRetries cfg = (sc_maxRetries s, True) \<longleftrightarrow> (\<exists>n. Atoi v = Some n \<and> 0 < n))"
proof -
  let ?o = "schedulerOptionsFromConfig pd (Some cfg)"
  have mr: "opt_MaxRetries ?o = (case Atoi v of None \<Rightarrow> 5 | Some n \<Rightarrow> if 0 < n then n else 5)"
    using assms by (simp add: schedulerOptionsFromConfig_def defaultSchedulerMaxRetries_def Let_def split: option.split)
  have wk: "parseMaxRetries cfg = (case Atoi v of None \<Rightarrow> (3, True) | Some n \<Rightarrow> (n, True))"
    using assms(1) by (simp add: parseMaxRetries_def)
  have "parseMaxRetries cfg = (opt_MaxRetries ?o, True) \<longleftrightarrow> (\<exists>n. Atoi v = Some n \<and> 0 < n)"
    unfolding mr wk by (auto split: option.split)
  then show ?thesis
    using options_positive [of pd "Some cfg"] by (simp add: scheduler_New_def Let_def)
qed

theorem configured_limits_witness:
  "parseMaxRetries demo_cfg = (sc_maxRetries (scheduler_New (schedulerOptionsFromConfig (lib_ParseDuration demo_lib) (Some demo_cfg))), True)"
proof -
  have c: "demo_cfg MaxRetriesKey = Inr ''2''" "TrimSpace ''2'' = ''2''" "Atoi ''2'' = Some 2" by code_simp+
  from configured_limits [where cfg = demo_cfg and v = "''2''" and pd = "lib_ParseDuration demo_lib", OF c(1,2)] c(3) show ?thesis by (simp add: Let_def)
qed

section \<open>Restart, shutdown and the loop\<close>

text \<open>
  The flags that the processes share, and where they are: the tick under way has passed the check of
  the draining flag, or counts as a run; \<open>lf_waiters\<close> are the restart requests that wait; \<open>lf_answers\<close>
  are the answers given so far; \<open>lf_started\<close> counts the runs started since the scheduler drains.
\<close>

datatype tick_phase = TickIdle | TickChecked | TickRunning

record life =
  lf_sched :: scheduler
  lf_once :: bool
  lf_cancelled :: bool
  lf_closed :: bool
  lf_looping :: bool
  lf_tick :: tick_phase
  lf_waiters :: nat
  lf_answers :: "response list"
  lf_started :: nat

definition requestShutdown :: "life \<Rightarrow> life" where
  "requestShutdown l =
     (if lf_once l then l
      else l\<lparr>lf_once := True, lf_sched := snd (scheduler_Stop (lf_sched l)), lf_cancelled := True\<rparr>)"

text \<open>\<^verbatim>\<open>restartHandler\<close> up to the wait: an answer, or none when the request waits.\<close>

definition restart_start :: "string \<Rightarrow> life \<Rightarrow> response option \<times> life" where
  "restart_start waitParam l =
     (case (if waitParam = [] then Some False else ParseBool waitParam) of
        None \<Rightarrow> (Some (writeError 400 ''wait must be boolean''), l)
      | Some wait \<Rightarrow>
          (let l1 = l\<lparr>lf_sched := SetDraining True (lf_sched l)\<rparr>
           in if \<not> wait then (Some (writeJSON 202 (PDrain ''draining'' (ActiveCount (Some (lf_sched l1))))), l1)
              else (None, l1)))"

text \<open>And from the return of \<^verbatim>\<open>WaitForIdle\<close> on.\<close>

definition restart_end :: "go_error option \<Rightarrow> life \<Rightarrow> response \<times> life" where
  "restart_end err l =
     (case err of
        Some e \<Rightarrow>
          (writeError 408 (if err_is e CtxDeadlineExceeded then ''drain wait timed out'' else ''drain wait canceled or timed out''), l)
      | None \<Rightarrow>
          (let l1 = requestShutdown l
           in (writeJSON 200 (PDrain ''drained'' (ActiveCount (Some (lf_sched l1)))), l1)))"

text \<open>The head of the loop of \<^verbatim>\<open>runScheduler\<close>, and its two ways on.\<close>

definition loop_head :: "life \<Rightarrow> life" where
  "loop_head l =
     (if Draining (Some (lf_sched l)) \<and> ActiveCount (Some (lf_sched l)) = 0
      then (requestShutdown l)\<lparr>lf_looping := False\<rparr> else l)"

definition tick_check :: "life \<Rightarrow> life" where
  "tick_check l = (if sc_draining (lf_sched l) then l else l\<lparr>lf_tick := TickChecked\<rparr>)"

definition count_run :: "int \<Rightarrow> scheduler \<Rightarrow> scheduler" where
  "count_run d s = s\<lparr>sc_activeWG := sc_activeWG s + d, sc_activeRuns := sc_activeRuns s + d\<rparr>"

text \<open>What \<^verbatim>\<open>Run\<close> does once its context is done: stop the scheduler, then close the store.\<close>

definition run_shutdown :: "life \<Rightarrow> life" where
  "run_shutdown l = l\<lparr>lf_sched := snd (scheduler_Stop (lf_sched l)), lf_closed := True\<rparr>"

inductive life_step :: "life \<Rightarrow> life \<Rightarrow> bool" where
  life_restart: "restart_start p l = (Some r, l') \<Longrightarrow> life_step l (l'\<lparr>lf_answers := r # lf_answers l'\<rparr>)"
| life_wait: "restart_start p l = (None, l') \<Longrightarrow> life_step l (l'\<lparr>lf_waiters := lf_waiters l' + 1\<rparr>)"
| life_answer: "0 < lf_waiters l \<Longrightarrow> WaitForIdle (lf_sched l) ce e \<Longrightarrow> restart_end e l = (r, l') \<Longrightarrow>
     life_step l (l'\<lparr>lf_waiters := lf_waiters l - 1, lf_answers := r # lf_answers l'\<rparr>)"
| life_loop: "lf_looping l \<Longrightarrow> lf_tick l = TickIdle \<Longrightarrow> life_step l (loop_head l)"
| life_loop_done: "lf_looping l \<Longrightarrow> lf_tick l = TickIdle \<Longrightarrow> lf_cancelled l \<Longrightarrow> life_step l (l\<lparr>lf_looping := False\<rparr>)"
| life_tick: "lf_looping l \<Longrightarrow> lf_tick l = TickIdle \<Longrightarrow> life_step l (tick_check l)"
| life_tick_nothing: "lf_tick l = TickChecked \<Longrightarrow> life_step l (l\<lparr>lf_tick := TickIdle\<rparr>)"
| life_enter: "lf_tick l = TickChecked \<Longrightarrow>
     life_step l (l\<lparr>lf_tick := TickRunning, lf_sched := count_run 1 (lf_sched l),
       lf_started := lf_started l + (if sc_draining (lf_sched l) then 1 else 0)\<rparr>)"
| life_leave: "lf_tick l = TickRunning \<Longrightarrow>
     life_step l (l\<lparr>lf_tick := TickIdle, lf_sched := count_run (- 1) (lf_sched l)\<rparr>)"
| life_signal: "life_step l (l\<lparr>lf_cancelled := True\<rparr>)"
| life_shutdown: "lf_cancelled l \<Longrightarrow> life_step l (run_shutdown l)"

inductive life_steps :: "life \<Rightarrow> life \<Rightarrow> bool" where
  life_refl: "life_steps l l"
| life_trans: "life_steps l l' \<Longrightarrow> life_step l' l'' \<Longrightarrow> life_steps l l''"

text \<open>A service that has just started.\<close>

definition life_init :: "scheduler_options \<Rightarrow> life" where
  "life_init opts =
     \<lparr>lf_sched = scheduler_New opts, lf_once = False, lf_cancelled = False, lf_closed = False, lf_looping = True,
      lf_tick = TickIdle, lf_waiters = 0, lf_answers = [], lf_started = 0\<rparr>"

section \<open>What draining promises\<close>

text \<open>
  The run under way is counted, nothing else is; once the scheduler drains, it drains for good, and a
  run can start after that only by the tick that had passed the check before.
\<close>

definition life_ok :: "life \<Rightarrow> bool" where
  "life_ok l \<longleftrightarrow>
     sc_activeRuns (lf_sched l) = (if lf_tick l = TickRunning then 1 else 0) \<and>
     sc_activeWG (lf_sched l) = sc_activeRuns (lf_sched l) \<and>
     (if sc_draining (lf_sched l)
      then lf_started l + (if lf_tick l = TickChecked then 1 else 0) \<le> 1
      else lf_started l = 0) \<and>
     (lf_once l \<or> lf_closed l \<longrightarrow> sc_draining (lf_sched l)) \<and> (\<not> lf_looping l \<longrightarrow> lf_tick l = TickIdle)"

lemma stop_simps [simp]:
  "sc_draining (snd (scheduler_Stop s))" "sc_activeRuns (snd (scheduler_Stop s)) = sc_activeRuns s"
  "sc_activeWG (snd (scheduler_Stop s)) = sc_activeWG s" "sc_draining (SetDraining d s) = d"
  "sc_activeRuns (SetDraining d s) = sc_activeRuns s" "sc_activeWG (SetDraining d s) = sc_activeWG s"
  "sc_draining (count_run i s) = sc_draining s" "sc_activeRuns (count_run i s) = sc_activeRuns s + i"
  "sc_activeWG (count_run i s) = sc_activeWG s + i"
  by (simp_all add: scheduler_Stop_def SetDraining_def count_run_def)

lemma draining_ok: "life_ok l \<Longrightarrow> life_ok (l\<lparr>lf_sched := SetDraining True (lf_sched l)\<rparr>)"
  by (auto simp: life_ok_def split: if_splits)

lemma stop_ok: "life_ok l \<Longrightarrow> life_ok (l\<lparr>lf_sched := snd (scheduler_Stop (lf_sched l))\<rparr>)"
  using draining_ok by (simp add: scheduler_Stop_def)

lemma requestShutdown_ok: "life_ok l \<Longrightarrow> life_ok (requestShutdown l)"
  using stop_ok [of l] by (auto simp: requestShutdown_def life_ok_def split: if_splits)

lemma requestShutdown_simps [simp]:
  "lf_tick (requestShutdown l) = lf_tick l" "lf_waiters (requestShutdown l) = lf_waiters l"
  "lf_answers (requestShutdown l) = lf_answers l" "lf_started (requestShutdown l) = lf_started l"
  "sc_activeRuns (lf_sched (requestShutdown l)) = sc_activeRuns (lf_sched l)" "lf_looping (requestShutdown l) = lf_looping l"
  by (simp_all add: requestShutdown_def)

lemma life_ok_bookkeeping:
  "life_ok (l\<lparr>lf_answers := as\<rparr>) = life_ok l" "life_ok (l\<lparr>lf_waiters := n\<rparr>) = life_ok l"
  "life_ok (l\<lparr>lf_waiters := n, lf_answers := as\<rparr>) = life_ok l" "life_ok (l\<lparr>lf_cancelled := c\<rparr>) = life_ok l"
  by (simp_all add: life_ok_def)

lemma life_step_ok: "life_step l l' \<Longrightarrow> life_ok l \<Longrightarrow> life_ok l'"
proof (induction rule: life_step.induct)
  case (life_restart p l r l')
  then show ?case
    using draining_ok [of l] by (auto simp: restart_start_def life_ok_bookkeeping Let_def split: option.splits if_splits)
next
  case (life_wait p l l')
  then show ?case
    using draining_ok [of l] by (auto simp: restart_start_def life_ok_bookkeeping Let_def split: option.splits if_splits)
next
  case (life_answer l ce e r l')
  then show ?case
    using requestShutdown_ok [of l] by (auto simp: restart_end_def life_ok_bookkeeping Let_def split: option.splits)
next
  case (life_loop l)
  then show ?case
    using requestShutdown_ok [of l] by (auto simp: loop_head_def life_ok_def split: if_splits)
next
  case (life_shutdown l)
  then show ?case using stop_ok [of l] by (auto simp: run_shutdown_def life_ok_def)
qed (auto simp: life_ok_def tick_check_def split: if_splits)

lemma life_steps_ok: "life_steps l l' \<Longrightarrow> life_ok l \<Longrightarrow> life_ok l'"
  by (induction rule: life_steps.induct) (auto dest: life_step_ok)

lemma life_init_ok: "\<not> opt_Draining opts \<Longrightarrow> life_ok (life_init opts)"
  by (simp add: life_ok_def life_init_def scheduler_New_def)

definition checked :: "life \<Rightarrow> nat" where
  "checked l = (if lf_tick l = TickChecked then 1 else 0)"

lemma shutdown_draining: "sc_draining (lf_sched l) \<Longrightarrow> sc_draining (lf_sched (requestShutdown l))"
  by (simp add: requestShutdown_def)

lemma restart_simps:
  assumes "restart_start p l = (q, l')"
  shows "lf_tick l' = lf_tick l" "lf_started l' = lf_started l" "lf_answers l' = lf_answers l"
    and "sc_draining (lf_sched l) \<Longrightarrow> sc_draining (lf_sched l')"
    and "q = Some r \<Longrightarrow> resp_body r \<noteq> PDrain ''drained'' n"
  using assms by (auto simp: restart_start_def writeError_def writeJSON_def Let_def split: option.splits if_splits)

lemma restart_end_simps:
  assumes "restart_end e l = (r, l')"
  shows "lf_tick l' = lf_tick l" "lf_started l' = lf_started l" "lf_answers l' = lf_answers l"
    and "sc_draining (lf_sched l) \<Longrightarrow> sc_draining (lf_sched l')"
    and "resp_body r = PDrain ''drained'' n \<Longrightarrow> e = None \<and> n = sc_activeRuns (lf_sched l)"
  using assms shutdown_draining [of l]
  by (auto simp: restart_end_def writeError_def writeJSON_def ActiveCount_def Let_def split: option.splits)

lemma life_step_draining:
  "life_step l l' \<Longrightarrow> sc_draining (lf_sched l) \<Longrightarrow>
     sc_draining (lf_sched l') \<and> lf_started l' + checked l' \<le> lf_started l + checked l"
proof (induction rule: life_step.induct)
  case (life_loop l)
  then show ?case using shutdown_draining [of l] by (simp add: loop_head_def checked_def)
qed (auto simp: checked_def tick_check_def run_shutdown_def restart_simps restart_end_simps)

lemma life_steps_draining:
  "life_steps l l' \<Longrightarrow> sc_draining (lf_sched l) \<Longrightarrow>
     sc_draining (lf_sched l') \<and> lf_started l' + checked l' \<le> lf_started l + checked l"
  by (induction rule: life_steps.induct) (auto dest: life_step_draining)

definition answers_ok :: "life \<Rightarrow> bool" where
  "answers_ok l \<longleftrightarrow> (\<forall>r \<in> set (lf_answers l). \<forall>n. resp_body r = PDrain ''drained'' n \<longrightarrow> n = 0)"

lemma life_step_answers: "life_step l l' \<Longrightarrow> life_ok l \<Longrightarrow> answers_ok l \<Longrightarrow> answers_ok l'"
proof (induction rule: life_step.induct)
  case (life_restart p l r l')
  then show ?case by (auto simp: answers_ok_def restart_simps)
next
  case (life_answer l ce e r l')
  have "n = 0" if "resp_body r = PDrain ''drained'' n" for n
    using restart_end_simps(5) [OF life_answer(3) that] life_answer(2,4) by (auto simp: WaitForIdle_simps life_ok_def)
  with life_answer restart_end_simps(3) [OF life_answer(3)] show ?case by (auto simp: answers_ok_def)
qed (auto simp: answers_ok_def tick_check_def run_shutdown_def loop_head_def restart_simps)

lemma life_steps_answers: "life_steps l l' \<Longrightarrow> life_ok l \<Longrightarrow> answers_ok l \<Longrightarrow> answers_ok l'"
  by (induction rule: life_steps.induct) (auto dest: life_step_answers life_steps_ok)


text \<open>
  C28: What draining does not promise.  There is a run of the service in which a restart that waits is
  answered "drained" with no active run, the service shuts down and closes its store, and only then
  the tick that had passed the check, and may have claimed its item, counts its run and starts the
  worker: the answer does not mean
  that nothing runs, and what that run reports is written to a closed store.
\<close>

theorem drained_then_runs:
  assumes "\<not> opt_Draining opts"
  shows "\<exists>l. life_steps (life_init opts) l \<and> writeJSON 200 (PDrain ''drained'' 0) \<in> set (lf_answers l) \<and>
    lf_closed l \<and> lf_tick l = TickRunning \<and> ActiveCount (Some (lf_sched l)) = 1"
proof -
  let ?i = "life_init opts"
  let ?l1 = "?i\<lparr>lf_tick := TickChecked\<rparr>"
  let ?l2 = "?l1\<lparr>lf_sched := SetDraining True (lf_sched ?l1), lf_waiters := 1\<rparr>"
  let ?l3 = "(requestShutdown ?l2)\<lparr>lf_waiters := 0, lf_answers := [writeJSON 200 (PDrain ''drained'' 0)]\<rparr>"
  let ?l4 = "run_shutdown ?l3"
  let ?l5 = "?l4\<lparr>lf_tick := TickRunning, lf_sched := count_run 1 (lf_sched ?l4), lf_started := 1\<rparr>"
  have s1: "life_step ?i ?l1"
    using life_tick [of ?i] assms by (simp add: tick_check_def life_init_def scheduler_New_def)
  have s2: "life_step ?l1 ?l2"
    using life_wait [of "''true''" ?l1] by (simp add: restart_start_def ParseBool_def life_init_def)
  have s3: "life_step ?l2 ?l3"
  proof -
    have "WaitForIdle (lf_sched ?l2) None None" by (rule wait_idle) (simp add: life_init_def scheduler_New_def)
    moreover have "restart_end None ?l2 = (writeJSON 200 (PDrain ''drained'' 0), requestShutdown ?l2)"
      by (simp add: restart_end_def life_init_def scheduler_New_def requestShutdown_def ActiveCount_def)
    ultimately show ?thesis
      using life_answer [where l = ?l2 and ce = None and e = None and r = "writeJSON 200 (PDrain ''drained'' 0)" and l' = "requestShutdown ?l2"]
      by (simp add: life_init_def)
  qed
  have s4: "life_step ?l3 ?l4"
    by (rule life_shutdown) (simp add: requestShutdown_def life_init_def)
  have s5: "life_step ?l4 ?l5"
    using life_enter [of ?l4] by (simp add: run_shutdown_def requestShutdown_def life_init_def)
  have "life_steps ?i ?l5"
    by (rule life_trans [OF life_trans [OF life_trans [OF life_trans [OF life_trans [OF life_refl s1] s2] s3] s4] s5])
  then show ?thesis
    by (intro exI [of _ ?l5])
      (simp add: run_shutdown_def requestShutdown_def life_init_def ActiveCount_def scheduler_New_def)
qed

definition demo_options :: scheduler_options where
  "demo_options = \<lparr>opt_Interval = 0, opt_Draining = False, opt_MaxRetries = 0\<rparr>"

lemma demo_options_simps [simp]: "\<not> opt_Draining demo_options"
  by (simp add: demo_options_def)


theorem drained_then_runs_witness:
  "\<exists>l. life_steps (life_init demo_options) l \<and> lf_closed l \<and> lf_tick l = TickRunning"
  using drained_then_runs [of demo_options] by auto

end
