(* ===== verification/Slack.thy ===== *)
theory Slack
  imports Task_Runner
begin

text \<open>
  The Slack notifier, internal/notify/slack.go: the text and the payload of a notification, and what
  posting it reports.  \<open>sl_post\<close> is the HTTP client: building the request and sending it to the webhook
  give the status code of the response, or an error.  Logging is left out.
\<close>

section \<open>The text\<close>

definition formatTaskName :: "string \<Rightarrow> string" where
  "formatTaskName name = (let n = TrimSpace name in if n = [] then [] else '' ('' @ n @ '')'')"

definition formatAttempt :: "notify_event \<Rightarrow> string" where
  "formatAttempt ev =
     (if ne_Attempt ev \<le> 0 then []
      else if 0 < ne_MaxAttempts ev then ''attempt='' @ FormatInt (ne_Attempt ev) @ ''/'' @ FormatInt (ne_MaxAttempts ev)
      else ''attempt='' @ FormatInt (ne_Attempt ev))"

text \<open>An optional part of the text.\<close>

definition part :: "string \<Rightarrow> string \<Rightarrow> string list" where
  "part label v = (if v \<noteq> [] then [label @ v] else [])"

definition attempt_parts :: "notify_event \<Rightarrow> string list" where
  "attempt_parts ev =
     part ''parent='' (ne_ParentTaskRef ev) @ part ''run='' (ne_RunID ev) @ part ''status='' (ne_Status ev) @
     (if formatAttempt ev \<noteq> [] then [formatAttempt ev] else [])"

definition verification_types :: "string list" where
  "verification_types =
     [''verification_succeeded'', ''verification_failed'', ''verification_failed_retrying'', ''verification_failed_max_retries'']"

definition textForEvent :: "notify_event \<Rightarrow> string" where
  "textForEvent ev =
     (let typ = ne_Type ev; sep = '' | '';
          task = ''task='' @ ne_TaskRef ev @ formatTaskName (ne_TaskName ev);
          commit = (if ne_CommitHash ev \<noteq> [] then [''commit='' @ TrimSpace (ne_CommitHash ev)] else [])
      in if typ = ''task_received'' then
           ''[task_received] batch='' @ ne_BatchID ev @ '' | '' @ task @ '' | status='' @ ne_Status ev
         else if typ = ''task_started'' then
           ''[task_started] batch='' @ ne_BatchID ev @ '' | start batch for task '' @ ne_TaskRef ev @ formatTaskName (ne_TaskName ev)
         else if typ = ''attempt_started'' then
           Join ((''[attempt_started] batch='' @ ne_BatchID ev @ '' | '' @ task) # attempt_parts ev) sep
         else if typ = ''task_finished'' then
           Join ((''[task_finished] batch='' @ ne_BatchID ev) #
             (if ne_TaskRef ev \<noteq> [] then [task] else []) @ part ''status='' (ne_Status ev) @ commit) sep
         else if typ = ''batch_idle'' then ''[batch_idle] batch='' @ ne_BatchID ev @ '' | status='' @ ne_Status ev
         else if typ \<in> set verification_types then
           (let base = Join ((''['' @ typ @ ''] batch='' @ ne_BatchID ev @ '' | '' @ task) # attempt_parts ev) sep
            in if TrimSpace (ne_Details ev) = [] then base else base @ [CHR 0x0A] @ ne_Details ev)
         else
           Join ((if typ \<noteq> [] then [''['' @ typ @ '']''] else []) @ part ''batch='' (ne_BatchID ev) @
             part ''run='' (ne_RunID ev) @ part ''task='' (ne_TaskRef ev) @ part ''parent='' (ne_ParentTaskRef ev) @
             part ''status='' (ne_Status ev) @
             (if 0 < ne_Attempt ev
              then [if 0 < ne_MaxAttempts ev
                    then ''attempt='' @ FormatInt (ne_Attempt ev) @ ''/'' @ FormatInt (ne_MaxAttempts ev)
                    else ''attempt='' @ FormatInt (ne_Attempt ev)]
              else []) @
             part ''details='' (ne_Details ev) @ commit) sep)"

section \<open>Posting\<close>

record slack_payload =
  sp_Text :: string
  sp_Type :: string
  sp_BatchID :: string
  sp_RunID :: string
  sp_TaskRef :: string
  sp_TaskName :: string
  sp_ParentTask :: string
  sp_Status :: string
  sp_Details :: string
  sp_Attempt :: int
  sp_MaxAttempt :: int
  sp_CommitHash :: string
  sp_Error :: string

record 'w slack =
  sl_webhookURL :: string
  sl_post :: "string \<Rightarrow> ctx \<Rightarrow> slack_payload \<Rightarrow> ('w, go_error + int) act"

definition slack_post :: "'w slack \<Rightarrow> ctx \<Rightarrow> slack_payload \<Rightarrow> ('w, go_error option) act" where
  "slack_post s c payload w =
     (case sl_post s (sl_webhookURL s) c payload w of
        (Inl e, w1) \<Rightarrow> (Some e, w1)
      | (Inr status, w1) \<Rightarrow>
          (if status < 200 \<or> 300 \<le> status then (Some (Errorf (''slack webhook status '' @ FormatInt status)), w1)
           else (None, w1)))"

definition slack_payload_of :: "notify_event \<Rightarrow> slack_payload" where
  "slack_payload_of ev =
     \<lparr>sp_Text = textForEvent ev, sp_Type = ne_Type ev, sp_BatchID = ne_BatchID ev, sp_RunID = ne_RunID ev,
      sp_TaskRef = ne_TaskRef ev, sp_TaskName = TrimSpace (ne_TaskName ev), sp_ParentTask = ne_ParentTaskRef ev,
      sp_Status = ne_Status ev, sp_Details = ne_Details ev, sp_Attempt = ne_Attempt ev,
      sp_MaxAttempt = ne_MaxAttempts ev, sp_CommitHash = TrimSpace (ne_CommitHash ev), sp_Error = []\<rparr>"

definition slack_NotifyEvent :: "'w slack \<Rightarrow> ctx \<Rightarrow> notify_event \<Rightarrow> ('w, go_error option) act" where
  "slack_NotifyEvent s c ev = slack_post s c (slack_payload_of ev)"

definition blank_event :: notify_event where
  "blank_event =
     \<lparr>ne_Type = [], ne_BatchID = [], ne_RunID = [], ne_TaskRef = [], ne_TaskName = [], ne_ParentTaskRef = [],
      ne_Status = [], ne_Details = [], ne_Attempt = 0, ne_MaxAttempts = 0, ne_CommitHash = []\<rparr>"

definition slack_NotifyTaskFinished ::
    "'w slack \<Rightarrow> ctx \<Rightarrow> string \<Rightarrow> string \<Rightarrow> string \<Rightarrow> string \<Rightarrow> string \<Rightarrow> string \<Rightarrow> ('w, go_error option) act" where
  "slack_NotifyTaskFinished s c batchID runID taskRef taskName status commitHash =
     slack_NotifyEvent s c (blank_event\<lparr>ne_Type := ''task_finished'', ne_BatchID := batchID, ne_RunID := runID,
       ne_TaskRef := taskRef, ne_TaskName := taskName, ne_Status := status, ne_CommitHash := commitHash\<rparr>)"

definition slack_NotifyBatchIdle :: "'w slack \<Rightarrow> ctx \<Rightarrow> string \<Rightarrow> ('w, go_error option) act" where
  "slack_NotifyBatchIdle s c batchID =
     slack_NotifyEvent s c (blank_event\<lparr>ne_Type := ''batch_idle'', ne_BatchID := batchID, ne_Status := ''idle''\<rparr>)"

definition slack_NotifyError ::
    "'w slack \<Rightarrow> ctx \<Rightarrow> string \<Rightarrow> string \<Rightarrow> string \<Rightarrow> go_error \<Rightarrow> ('w, go_error option) act" where
  "slack_NotifyError s c batchID runID taskRef err =
     slack_NotifyEvent s c (blank_event\<lparr>ne_Type := ''error'', ne_BatchID := batchID, ne_RunID := runID,
       ne_TaskRef := taskRef, ne_Status := ''error'', ne_Details := error_text err\<rparr>)"

definition slack_notifier :: "'w slack \<Rightarrow> 'w notifier" where
  "slack_notifier s =
     \<lparr>NotifyEvent = slack_NotifyEvent s, NotifyTaskFinished = slack_NotifyTaskFinished s,
      NotifyBatchIdle = slack_NotifyBatchIdle s, NotifyError = slack_NotifyError s\<rparr>"

text \<open>Without a webhook the notifier does nothing.\<close>

definition NewSlack :: "(string \<Rightarrow> ctx \<Rightarrow> slack_payload \<Rightarrow> ('w, go_error + int) act) \<Rightarrow> config option \<Rightarrow> go_error + 'w notifier" where
  "NewSlack http cfg =
     (case cfg of
        None \<Rightarrow> Inl (Errorf ''config is required'')
      | Some get \<Rightarrow>
          (let url = (case get SlackWebhookKey of Inl e \<Rightarrow> [] | Inr v \<Rightarrow> TrimSpace v)
           in if url = [] then Inr noop_notifier else Inr (slack_notifier \<lparr>sl_webhookURL = url, sl_post = http\<rparr>)))"

section \<open>What a message says\<close>

lemma Join_Cons: "Join (x # xs) sep = x @ (if xs = [] then [] else sep @ Join xs sep)"
  by (cases xs) auto

lemma text_other:
  assumes "ne_Type ev \<notin> {''task_received'', ''task_started'', ''attempt_started'', ''task_finished'', ''batch_idle''} \<union> set verification_types"
    and "ne_Type ev \<noteq> []" and "ne_BatchID ev \<noteq> []"
  shows "prefix (''['' @ ne_Type ev @ ''] | batch='' @ ne_BatchID ev) (textForEvent ev)"
  using assms by (simp add: textForEvent_def part_def Let_def Join_Cons)

lemma text_verification:
  assumes "ne_Type ev \<in> set verification_types"
  shows "prefix (''['' @ ne_Type ev @ ''] batch='' @ ne_BatchID ev) (textForEvent ev)"
proof -
  have "ne_Type ev \<notin> {''task_received'', ''task_started'', ''attempt_started'', ''task_finished'', ''batch_idle''}"
    using assms by (auto simp: verification_types_def)
  with assms show ?thesis by (simp add: textForEvent_def Let_def Join_Cons)
qed

lemma text_known:
  assumes "ne_Type ev \<in> {''task_received'', ''task_started'', ''attempt_started'', ''task_finished'', ''batch_idle''}"
  shows "prefix (''['' @ ne_Type ev @ ''] batch='' @ ne_BatchID ev) (textForEvent ev)"
proof -
  from assms consider "ne_Type ev = ''task_received''" | "ne_Type ev = ''task_started''" | "ne_Type ev = ''attempt_started''"
    | "ne_Type ev = ''task_finished''" | "ne_Type ev = ''batch_idle''" by blast
  then show ?thesis
    by cases (simp_all add: textForEvent_def Let_def Join_Cons)
qed

text \<open>
  What a Slack message says.  A notification reports success exactly when the webhook took the
  payload with a status of 200 to 299; it is posted once, under its own type and batch, and its text
  begins with both.
\<close>

theorem slack_posts:
  assumes "slack_NotifyEvent s c ev w = (r, w')" and "ne_Type ev \<noteq> []" and "ne_BatchID ev \<noteq> []"
  shows "\<exists>p q. sl_post s (sl_webhookURL s) c p w = (q, w') \<and>
    (r = None \<longleftrightarrow> (\<exists>status. q = Inr status \<and> 200 \<le> status \<and> status < 300)) \<and>
    sp_Type p = ne_Type ev \<and> sp_BatchID p = ne_BatchID ev \<and>
    (prefix (''['' @ ne_Type ev @ ''] batch='' @ ne_BatchID ev) (sp_Text p) \<or>
     prefix (''['' @ ne_Type ev @ ''] | batch='' @ ne_BatchID ev) (sp_Text p))"
proof -
  let ?p = "slack_payload_of ev"
  obtain q v where q: "sl_post s (sl_webhookURL s) c ?p w = (q, v)" by fastforce
  with assms(1) have v: "v = w'" and r: "r = None \<longleftrightarrow> (\<exists>status. q = Inr status \<and> 200 \<le> status \<and> status < 300)"
    by (auto simp: slack_NotifyEvent_def slack_post_def split: sum.splits if_splits)
  have "prefix (''['' @ ne_Type ev @ ''] batch='' @ ne_BatchID ev) (textForEvent ev) \<or>
     prefix (''['' @ ne_Type ev @ ''] | batch='' @ ne_BatchID ev) (textForEvent ev)"
    using text_known [of ev] text_verification [of ev] text_other [OF _ assms(2,3)] by blast
  with q v r show ?thesis
    by (intro exI [of _ ?p] exI [of _ q]) (simp only: slack_payload_of_def slack_payload.simps simp_thms)
qed

text \<open>A webhook that takes everything and keeps it.\<close>

definition demo_slack :: "slack_payload list slack" where
  "demo_slack = \<lparr>sl_webhookURL = ''https://hooks'', sl_post = (\<lambda>url c p w. (Inr 200, w @ [p]))\<rparr>"

definition demo_notice :: notify_event where
  "demo_notice = blank_event\<lparr>ne_Type := ''attempt_started'', ne_BatchID := ''batch-1'', ne_TaskRef := ''yr-1'', ne_Attempt := 2\<rparr>"

theorem slack_posts_witness:
  "\<exists>p. slack_NotifyEvent demo_slack (CtxBase 0) demo_notice [] = (None, [p]) \<and> sp_BatchID p = ''batch-1'' \<and>
     sp_Text p = ''[attempt_started] batch=batch-1 | task=yr-1 | attempt=2''"
proof -
  obtain r w' where n: "slack_NotifyEvent demo_slack (CtxBase 0) demo_notice [] = (r, w')" by fastforce
  have e: "ne_Type demo_notice \<noteq> []" "ne_BatchID demo_notice \<noteq> []" "ne_BatchID demo_notice = ''batch-1''"
    by (simp_all add: demo_notice_def)
  from slack_posts [OF n e(1,2)] e(3) have "r = None \<and> (\<exists>p. w' = [p] \<and> sp_BatchID p = ''batch-1'')"
    by (auto simp: demo_slack_def)
  moreover have "map sp_Text (snd (slack_NotifyEvent demo_slack (CtxBase 0) demo_notice [])) =
      [''[attempt_started] batch=batch-1 | task=yr-1 | attempt=2'']"
    by code_simp
  ultimately show ?thesis using n by auto
qed

end
