(* ===== verification/Beads.thy ===== *)
theory Beads
  imports Task_Runner
begin

text \<open>
  The Beads tracker, internal/tracker/beads.go: comments and titles of issues through the \<^verbatim>\<open>bd\<close> command.
  The file system, the command, the JSON decoder and the parser of times are fields of \<open>beads\<close>, acting
  on a world; logging is left out.
\<close>

section \<open>The interface\<close>

text \<open>
  The two shapes the output is decoded into.  A comment list that the JSON does not have is a nil slice,
  \<^const>\<open>None\<close> here.
\<close>

record bd_comment =
  bc_ID :: string
  bc_Author :: string
  bc_Text :: string
  bc_CreatedAt :: string
  bc_UpdatedAt :: string

record bd_issue =
  bi_ID :: string
  bi_Comments :: "bd_comment list option"

record bd_title =
  bt_ID :: string
  bt_Title :: string

record 'w beads =
  bd_timeout :: int
  bd_run :: "ctx \<Rightarrow> string \<Rightarrow> string list \<Rightarrow> ('w, go_error + string) act"
  bd_ctx_err :: "ctx \<Rightarrow> 'w \<Rightarrow> go_error option"
  bd_Abs :: "string \<Rightarrow> ('w, go_error + string) act"
  bd_IsDir :: "string \<Rightarrow> ('w, go_error + bool) act"
  bd_CreateTemp :: "('w, go_error + string) act"
  bd_WriteString :: "string \<Rightarrow> string \<Rightarrow> ('w, go_error option) act"
  bd_CloseFile :: "string \<Rightarrow> ('w, go_error option) act"
  bd_Remove :: "string \<Rightarrow> 'w \<Rightarrow> 'w"
  bd_issues :: "string \<Rightarrow> go_error + bd_issue list"
  bd_titles :: "string \<Rightarrow> go_error + bd_title list"
  bd_time :: "string \<Rightarrow> go_error + go_time"

definition defaultBeadsTimeout :: int where
  "defaultBeadsTimeout = 5 * 10 ^ 9"

section \<open>Operations\<close>

definition normalizeRepoPath :: "'w beads \<Rightarrow> string \<Rightarrow> ('w, go_error + string) act" where
  "normalizeRepoPath b repoPath w =
     (let rp = TrimSpace repoPath
      in if rp = [] then (Inl (Errorf ''repo path is required''), w)
         else case bd_Abs b rp w of
             (Inl e, w1) \<Rightarrow> (Inl (Wrapf ''repo path abs'' e), w1)
           | (Inr absPath, w1) \<Rightarrow>
               (case bd_IsDir b absPath w1 of
                  (Inl e, w2) \<Rightarrow> (Inl (Wrapf ''repo path'' e), w2)
                | (Inr d, w2) \<Rightarrow>
                    (if \<not> d then (Inl (Errorf (''repo path is not a directory: '' @ absPath)), w2) else (Inr absPath, w2))))"

text \<open>What the three operations begin with: the reference, the directory and the context of the call.\<close>

definition with_repo ::
    "'w beads \<Rightarrow> ctx \<Rightarrow> string \<Rightarrow> string \<Rightarrow> (ctx \<Rightarrow> string \<Rightarrow> string \<Rightarrow> ('w, go_error + 'a) act) \<Rightarrow> ('w, go_error + 'a) act" where
  "with_repo b c repoPath ref k w =
     (let ref' = TrimSpace ref
      in if ref' = [] then (Inl (Errorf ''ref is required''), w)
         else case normalizeRepoPath b repoPath w of
             (Inl e, w1) \<Rightarrow> (Inl e, w1)
           | (Inr rp, w1) \<Rightarrow>
               (let c' = CtxWithTimeout (bd_timeout b) c
                in case bd_ctx_err b c' w1 of Some e \<Rightarrow> (Inl e, w1) | None \<Rightarrow> k c' rp ref' w1))"

text \<open>A command that failed: the error of the context if it is done, else the wrapped error.\<close>

definition run_bd ::
    "'w beads \<Rightarrow> ctx \<Rightarrow> string \<Rightarrow> string list \<Rightarrow> string \<Rightarrow> ('w, go_error + string) act" where
  "run_bd b c rp args what w =
     (case bd_run b c rp args w of
        (Inl e, w1) \<Rightarrow> (Inl (case bd_ctx_err b c w1 of Some ce \<Rightarrow> ce | None \<Rightarrow> Wrapf what e), w1)
      | (Inr out, w1) \<Rightarrow> (Inr out, w1))"

definition beads_AddComment :: "'w beads \<Rightarrow> ctx \<Rightarrow> string \<Rightarrow> string \<Rightarrow> string \<Rightarrow> ('w, go_error option) act" where
  "beads_AddComment b c repoPath ref txt w =
     (let add = (\<lambda>c' rp r args w'. run_bd b c' rp ([''bd'', ''comments'', ''add'', r] @ args) (''bd comments add '' @ r) w');
          call = (\<lambda>c' rp r w1.
            if CHR 0x0A \<in> set txt \<or> CHR 0x0D \<in> set txt then
              (case bd_CreateTemp b w1 of
                 (Inl e, w2) \<Rightarrow> (Inl (Wrapf ''create temp file'' e), w2)
               | (Inr name, w2) \<Rightarrow>
                   (case bd_WriteString b name txt w2 of
                      (Some e, w3) \<Rightarrow>
                        (Inl (Wrapf ''write temp file'' e), bd_Remove b name (snd (bd_CloseFile b name w3)))
                    | (None, w3) \<Rightarrow>
                        (case bd_CloseFile b name w3 of
                           (Some e, w4) \<Rightarrow> (Inl (Wrapf ''close temp file'' e), bd_Remove b name w4)
                         | (None, w4) \<Rightarrow>
                             (case add c' rp r [''-f'', name] w4 of (res, w5) \<Rightarrow> (res, bd_Remove b name w5)))))
            else add c' rp r [txt] w1)
      in case with_repo b c repoPath ref call w of
           (Inl e, w') \<Rightarrow> (Some e, w')
         | (Inr out, w') \<Rightarrow> (None, w'))"

text \<open>The comments of the issue with the reference; if they are nil, those of the first issue.\<close>

definition pick_comments :: "string \<Rightarrow> bd_issue list \<Rightarrow> bd_comment list" where
  "pick_comments ref issues =
     (case (case List.find (\<lambda>i. bi_ID i = ref) issues of None \<Rightarrow> None | Some i \<Rightarrow> bi_Comments i) of
        Some cs \<Rightarrow> cs
      | None \<Rightarrow>
          (case issues of [] \<Rightarrow> [] | i # is \<Rightarrow> (case bi_Comments i of Some cs \<Rightarrow> cs | None \<Rightarrow> [])))"

definition parse_stamp :: "'w beads \<Rightarrow> string \<Rightarrow> string \<Rightarrow> string \<Rightarrow> go_error + go_time" where
  "parse_stamp b field ref s =
     (if s = [] then Inr 0
      else case bd_time b s of Inl e \<Rightarrow> Inl (Wrapf (''parse '' @ field @ '' for '' @ ref) e) | Inr t \<Rightarrow> Inr t)"

definition convert_comment :: "'w beads \<Rightarrow> string \<Rightarrow> bd_comment \<Rightarrow> go_error + comment" where
  "convert_comment b ref c =
     (case parse_stamp b ''created_at'' ref (bc_CreatedAt c) of
        Inl e \<Rightarrow> Inl e
      | Inr created \<Rightarrow>
          (case parse_stamp b ''updated_at'' ref (bc_UpdatedAt c) of
             Inl e \<Rightarrow> Inl e
           | Inr updated \<Rightarrow>
               Inr \<lparr>cm_ID = bc_ID c, cm_Author = bc_Author c, cm_Text = bc_Text c,
                 cm_CreatedAt = created, cm_UpdatedAt = updated\<rparr>))"

fun convert_comments :: "'w beads \<Rightarrow> string \<Rightarrow> bd_comment list \<Rightarrow> go_error + comment list" where
  "convert_comments b ref [] = Inr []"
| "convert_comments b ref (c # cs) =
     (case convert_comment b ref c of
        Inl e \<Rightarrow> Inl e
      | Inr x \<Rightarrow> (case convert_comments b ref cs of Inl e \<Rightarrow> Inl e | Inr xs \<Rightarrow> Inr (x # xs)))"

definition beads_FetchComments :: "'w beads \<Rightarrow> ctx \<Rightarrow> string \<Rightarrow> string \<Rightarrow> ('w, comment list) reader" where
  "beads_FetchComments b c repoPath ref =
     with_repo b c repoPath ref (\<lambda>c' rp r w1.
       case run_bd b c' rp [''bd'', ''view'', r, ''--json''] (''bd view '' @ r) w1 of
         (Inl e, w2) \<Rightarrow> (Inl e, w2)
       | (Inr output, w2) \<Rightarrow>
           (case bd_issues b output of
              Inl e \<Rightarrow> (Inl (Wrapf (''parse bd view '' @ r) e), w2)
            | Inr issues \<Rightarrow>
                (if issues = [] then (Inr [], w2) else (convert_comments b r (pick_comments r issues), w2))))"

definition pick_title :: "string \<Rightarrow> bd_title list \<Rightarrow> string" where
  "pick_title ref issues =
     (case issues of
        [] \<Rightarrow> []
      | i # is \<Rightarrow>
          (case List.find (\<lambda>i. bt_ID i = ref) issues of
             Some j \<Rightarrow> TrimSpace (bt_Title j)
           | None \<Rightarrow> TrimSpace (bt_Title i)))"

definition beads_GetTitle :: "'w beads \<Rightarrow> ctx \<Rightarrow> string \<Rightarrow> string \<Rightarrow> ('w, string) reader" where
  "beads_GetTitle b c repoPath ref =
     with_repo b c repoPath ref (\<lambda>c' rp r w1.
       case run_bd b c' rp [''bd'', ''view'', r, ''--json''] (''bd view '' @ r) w1 of
         (Inl e, w2) \<Rightarrow> (Inl e, w2)
       | (Inr output, w2) \<Rightarrow>
           (case bd_titles b output of
              Inl e \<Rightarrow> (Inl (Wrapf (''parse bd view '' @ r) e), w2)
            | Inr issues \<Rightarrow> (Inr (pick_title r issues), w2)))"

definition beads_tracker :: "'w beads \<Rightarrow> 'w tracker" where
  "beads_tracker b =
     \<lparr>AddComment = beads_AddComment b, FetchComments = beads_FetchComments b, GetTitle = beads_GetTitle b\<rparr>"

section \<open>Which issue is read\<close>

lemma with_repo_ok:
  assumes "with_repo b c repoPath ref k w = (Inr x, w')"
  shows "\<exists>rp w1. normalizeRepoPath b repoPath w = (Inr rp, w1) \<and> TrimSpace ref \<noteq> [] \<and>
    k (CtxWithTimeout (bd_timeout b) c) rp (TrimSpace ref) w1 = (Inr x, w')"
  using assms by (auto simp: with_repo_def Let_def split: if_splits prod.splits sum.splits option.splits)

lemma run_bd_ok: "run_bd b c rp args what w = (Inr out, w') \<Longrightarrow> bd_run b c rp args w = (Inr out, w')"
  by (auto simp: run_bd_def split: prod.splits sum.splits)

lemma convert_comments_texts:
  "convert_comments b ref cs = Inr xs \<Longrightarrow>
     map cm_Text xs = map bc_Text cs \<and> map cm_ID xs = map bc_ID cs \<and> map cm_Author xs = map bc_Author cs"
  by (induction b ref cs arbitrary: xs rule: convert_comments.induct)
    (auto simp: convert_comment_def split: sum.splits)

text \<open>
  C40: Whose comments are fetched.  A fetch that succeeds ran \<^verbatim>\<open>bd view\<close> on the trimmed reference, in the
  directory of the repository and under the timeout, and returns, in order, the comments of the first
  issue with that reference if the output has a comment list for it.  If it has none, or no such
  issue, the comments are those of the first issue of the output, whichever that is.
\<close>

theorem fetched_comments:
  assumes "beads_FetchComments b c repoPath ref w = (Inr cms, w')"
  shows "\<exists>rp w1 out issues.
    normalizeRepoPath b repoPath w = (Inr rp, w1) \<and>
    bd_run b (CtxWithTimeout (bd_timeout b) c) rp [''bd'', ''view'', TrimSpace ref, ''--json''] w1 = (Inr out, w') \<and>
    bd_issues b out = Inr issues \<and>
    (\<forall>i cs. List.find (\<lambda>i. bi_ID i = TrimSpace ref) issues = Some i \<longrightarrow> bi_Comments i = Some cs \<longrightarrow>
       map cm_Text cms = map bc_Text cs) \<and>
    ((\<forall>i. List.find (\<lambda>i. bi_ID i = TrimSpace ref) issues = Some i \<longrightarrow> bi_Comments i = None) \<longrightarrow>
       map cm_Text cms = (case issues of [] \<Rightarrow> [] | j # js \<Rightarrow> map bc_Text (case bi_Comments j of Some cs \<Rightarrow> cs | None \<Rightarrow> [])))"
proof -
  let ?r = "TrimSpace ref" and ?c = "CtxWithTimeout (bd_timeout b) c"
  from with_repo_ok [OF assms [unfolded beads_FetchComments_def]] obtain rp w1 where
    n: "normalizeRepoPath b repoPath w = (Inr rp, w1)"
    and k: "(case run_bd b ?c rp [''bd'', ''view'', ?r, ''--json''] (''bd view '' @ ?r) w1 of
         (Inl e, w2) \<Rightarrow> (Inl e, w2)
       | (Inr output, w2) \<Rightarrow>
           (case bd_issues b output of
              Inl e \<Rightarrow> (Inl (Wrapf (''parse bd view '' @ ?r) e), w2)
            | Inr issues \<Rightarrow>
                (if issues = [] then (Inr [], w2) else (convert_comments b ?r (pick_comments ?r issues), w2)))) = (Inr cms, w')"
    by blast
  obtain q w2 where r: "run_bd b ?c rp [''bd'', ''view'', ?r, ''--json''] (''bd view '' @ ?r) w1 = (q, w2)" by fastforce
  obtain out where q: "q = Inr out" using k [unfolded r] by (cases q) auto
  obtain issues where i: "bd_issues b out = Inr issues" using k [unfolded r q] by (cases "bd_issues b out") auto
  have c: "w2 = w'" "if issues = [] then cms = [] else convert_comments b ?r (pick_comments ?r issues) = Inr cms"
    using k [unfolded r q] i by (auto split: if_splits)
  have t: "map cm_Text cms = map bc_Text (pick_comments ?r issues)"
    using c(2) convert_comments_texts [of b ?r _ cms] by (auto simp: pick_comments_def split: if_splits)
  show ?thesis
    using n run_bd_ok [OF r [unfolded q c(1)]] i t
    by (intro exI [of _ rp] exI [of _ w1] exI [of _ out] exI [of _ issues])
      (auto simp: pick_comments_def split: option.split list.split)
qed

text \<open>A command that reports two issues, the first with a comment and the second without.\<close>

definition demo_beads :: "nat beads" where
  "demo_beads =
     \<lparr>bd_timeout = defaultBeadsTimeout, bd_run = (\<lambda>c d args w. (Inr ''[]'', w)), bd_ctx_err = (\<lambda>c w. None),
      bd_Abs = (\<lambda>p w. (Inr p, w)), bd_IsDir = (\<lambda>p w. (Inr True, w)), bd_CreateTemp = (\<lambda>w. (Inr ''t'', w)),
      bd_WriteString = (\<lambda>f t w. (None, w)), bd_CloseFile = (\<lambda>f w. (None, w)), bd_Remove = (\<lambda>f w. w),
      bd_issues = (\<lambda>out. Inr
        [\<lparr>bi_ID = ''yr-1'', bi_Comments = Some
            [\<lparr>bc_ID = ''1'', bc_Author = ''a'', bc_Text = ''about yr-1'', bc_CreatedAt = [], bc_UpdatedAt = []\<rparr>]\<rparr>,
         \<lparr>bi_ID = ''yr-2'', bi_Comments = None\<rparr>]),
      bd_titles = (\<lambda>out. Inr []), bd_time = (\<lambda>s. Inr 0)\<rparr>"

theorem fetched_comments_witness:
  "\<exists>cms. beads_FetchComments demo_beads (CtxBase 0) ''/r'' '' yr-2 '' 0 = (Inr cms, 0) \<and> map cm_Text cms = [''about yr-1'']"
proof -
  let ?f = "beads_FetchComments demo_beads (CtxBase 0) ''/r'' '' yr-2 '' 0"
  have t: "TrimSpace '' yr-2 '' = ''yr-2''" by code_simp
  have "map_option (map cm_Text) (case fst ?f of Inr cms \<Rightarrow> Some cms | Inl e \<Rightarrow> None) = Some [''about yr-1'']" "snd ?f = 0"
    by code_simp+
  then obtain cms where f: "?f = (Inr cms, 0)" by (cases "fst ?f") (auto simp: prod_eq_iff)
  from fetched_comments [OF f] f show ?thesis by (auto simp: demo_beads_def t)
qed

end
