(* ===== verification/Event_Bus.thy ===== *)
theory Event_Bus
  imports Models
begin

text \<open>
  The in-memory event bus of internal/bus: per session a set of subscribers, each with a bounded
  channel of events.  A channel operation inside a \<^verbatim>\<open>select\<close> may have several outcomes or block, so an
  operation that sends returns the list of its possible outcomes, empty when it can only wait.
  Between two channel operations of one publisher other goroutines may act on the channel; what
  they do is an argument (\<open>env\<close>).  A send on a closed channel panics; the bus recovers and reports
  \<^const>\<open>ErrSubscriptionClosed\<close>.
\<close>

section \<open>Configuration\<close>

datatype slow_policy =
    SlowConsumerPolicyBlock
  | SlowConsumerPolicyDropLatest
  | SlowConsumerPolicyDropOldest
  | SlowConsumerPolicyEmpty
  | SlowConsumerPolicyOther string

datatype cap_policy =
    CapExceedPolicyError
  | CapExceedPolicyDrop
  | CapExceedPolicyEmpty
  | CapExceedPolicyOther string

record bus_config =
  bc_BufferSize :: int
  bc_SlowConsumerPolicy :: slow_policy
  bc_CapExceedPolicy :: cap_policy
  bc_MaxSessions :: int
  bc_MaxSubscribersPerSession :: int
  bc_IdleTimeout :: int

definition defaultBufferSize :: int where
  "defaultBufferSize = 64"

definition normalizeConfig :: "bus_config \<Rightarrow> bus_config" where
  "normalizeConfig cfg =
     (let c1 = (if bc_BufferSize cfg \<le> 0 then cfg\<lparr>bc_BufferSize := defaultBufferSize\<rparr> else cfg);
          c2 = (if bc_SlowConsumerPolicy c1 = SlowConsumerPolicyEmpty
                then c1\<lparr>bc_SlowConsumerPolicy := SlowConsumerPolicyBlock\<rparr> else c1)
      in if bc_CapExceedPolicy c2 = CapExceedPolicyEmpty
         then c2\<lparr>bc_CapExceedPolicy := CapExceedPolicyError\<rparr> else c2)"

section \<open>Subscribers\<close>

text \<open>
  The buffered events, whether the events channel is closed, whether \<^verbatim>\<open>closeOnce\<close> has run (and so
  \<^verbatim>\<open>done\<close> is closed), the capacity, the idle timeout, and whether the idle timer has a reset waiting.
\<close>

record subscriber =
  sub_events :: "session_event list"
  sub_events_closed :: bool
  sub_done :: bool
  sub_cap :: nat
  sub_idleTimeout :: int
  sub_idleReset :: bool

definition newSubscriber :: "int \<Rightarrow> int \<Rightarrow> subscriber" where
  "newSubscriber buffer idle =
     \<lparr>sub_events = [], sub_events_closed = False, sub_done = False, sub_cap = nat buffer,
      sub_idleTimeout = (if 0 < idle then idle else 0), sub_idleReset = False\<rparr>"

definition touch :: "subscriber \<Rightarrow> subscriber" where
  "touch s = (if sub_idleTimeout s \<le> 0 then s else s\<lparr>sub_idleReset := True\<rparr>)"

definition can_send :: "subscriber \<Rightarrow> bool" where
  "can_send s \<longleftrightarrow> \<not> sub_events_closed s \<and> length (sub_events s) < sub_cap s"

definition push :: "session_event \<Rightarrow> subscriber \<Rightarrow> subscriber" where
  "push e s = s\<lparr>sub_events := sub_events s @ [e]\<rparr>"

definition pop :: "subscriber \<Rightarrow> subscriber" where
  "pop s = s\<lparr>sub_events := drop 1 (sub_events s)\<rparr>"

type_synonym 's outcomes = "(go_error option \<times> 's) list"

definition panics :: "subscriber \<Rightarrow> subscriber outcomes" where
  "panics s = (if sub_events_closed s then [(Some ErrSubscriptionClosed, s)] else [])"

definition ctx_done :: "go_error option \<Rightarrow> subscriber \<Rightarrow> subscriber outcomes" where
  "ctx_done ce s = (case ce of None \<Rightarrow> [] | Some e \<Rightarrow> [(Some e, s)])"

text \<open>\<open>ce\<close> is the error of the context, if it is done.\<close>

definition handleBlocking :: "go_error option \<Rightarrow> session_event \<Rightarrow> subscriber \<Rightarrow> subscriber outcomes" where
  "handleBlocking ce e s =
     (if can_send s then [(None, touch (push e s))] else []) @ panics s @ ctx_done ce s"

definition handleDropLatest :: "session_event \<Rightarrow> subscriber \<Rightarrow> subscriber outcomes" where
  "handleDropLatest e s =
     (if can_send s then [(None, touch (push e s))]
      else if sub_events_closed s then panics s
      else [(Some ErrSlowConsumer, s)])"

text \<open>The three selects of \<^verbatim>\<open>handleDropOldest\<close>; the first success does not touch the idle timer.\<close>

definition handleDropOldest ::
    "(subscriber \<Rightarrow> subscriber) \<Rightarrow> (subscriber \<Rightarrow> subscriber) \<Rightarrow> go_error option \<Rightarrow> session_event \<Rightarrow>
       subscriber \<Rightarrow> subscriber outcomes" where
  "handleDropOldest env1 env2 ce e s =
     (if can_send s then [(None, push e s)]
      else if sub_events_closed s then panics s
      else
        let s2 = pop (env1 s);
            s3 = env2 s2
        in (if can_send s3 then [(Some ErrSlowConsumer, touch (push e s3))] else []) @
           panics s3 @ ctx_done ce s3)"

definition publishToSubscriber ::
    "bus_config \<Rightarrow> (subscriber \<Rightarrow> subscriber) \<Rightarrow> (subscriber \<Rightarrow> subscriber) \<Rightarrow> go_error option \<Rightarrow>
       session_event \<Rightarrow> subscriber \<Rightarrow> subscriber outcomes" where
  "publishToSubscriber cfg env1 env2 ce e s =
     (if sub_done s then [(Some ErrSubscriptionClosed, s)]
      else case bc_SlowConsumerPolicy cfg of
          SlowConsumerPolicyDropLatest \<Rightarrow> handleDropLatest e s
        | SlowConsumerPolicyDropOldest \<Rightarrow> handleDropOldest env1 env2 ce e s
        | _ \<Rightarrow> handleBlocking ce e s)"

section \<open>The bus\<close>

text \<open>
  The map of sessions to buckets is an association list with one entry per session; a subscriber is
  a number, its state is in the heap.
\<close>

record event_bus =
  eb_cfg :: bus_config
  eb_subs :: "(string \<times> nat list) list"
  eb_heap :: "nat \<Rightarrow> subscriber"
  eb_next :: nat

definition NewMemoryBus :: "bus_config \<Rightarrow> event_bus" where
  "NewMemoryBus cfg =
     \<lparr>eb_cfg = normalizeConfig cfg, eb_subs = [], eb_heap = (\<lambda>_. newSubscriber 0 0), eb_next = 0\<rparr>"

text \<open>The configuration the service gives its bus, and what it comes to.\<close>

definition default_bus_config :: bus_config where
  "default_bus_config =
     \<lparr>bc_BufferSize = 0, bc_SlowConsumerPolicy = SlowConsumerPolicyEmpty, bc_CapExceedPolicy = CapExceedPolicyEmpty,
      bc_MaxSessions = 0, bc_MaxSubscribersPerSession = 0, bc_IdleTimeout = 0\<rparr>"

lemma default_bus:
  "eb_cfg (NewMemoryBus default_bus_config) =
     default_bus_config\<lparr>bc_BufferSize := 64, bc_SlowConsumerPolicy := SlowConsumerPolicyBlock, bc_CapExceedPolicy := CapExceedPolicyError\<rparr>"
  by (simp add: NewMemoryBus_def normalizeConfig_def default_bus_config_def defaultBufferSize_def Let_def)

definition bucket :: "string \<Rightarrow> event_bus \<Rightarrow> nat list" where
  "bucket sid b = (case map_of (eb_subs b) sid of None \<Rightarrow> [] | Some ids \<Rightarrow> ids)"

fun set_bucket :: "string \<Rightarrow> nat list \<Rightarrow> (string \<times> nat list) list \<Rightarrow> (string \<times> nat list) list" where
  "set_bucket sid ids [] = [(sid, ids)]"
| "set_bucket sid ids ((k, v) # m) = (if k = sid then (sid, ids) # m else (k, v) # set_bucket sid ids m)"

definition handleCapExceeded :: "go_error \<Rightarrow> go_error" where
  "handleCapExceeded capErr = capErr"

definition Subscribe :: "string \<Rightarrow> event_bus \<Rightarrow> (go_error + nat) \<times> event_bus" where
  "Subscribe sid b =
     (let new_session = (map_of (eb_subs b) sid = None); cfg = eb_cfg b
      in if new_session \<and> 0 < bc_MaxSessions cfg \<and> bc_MaxSessions cfg \<le> int (length (eb_subs b))
         then (Inl (handleCapExceeded ErrSessionLimitExceeded), b)
         else
           let ids = bucket sid b;
               b1 = (if new_session then b\<lparr>eb_subs := set_bucket sid [] (eb_subs b)\<rparr> else b)
           in if 0 < bc_MaxSubscribersPerSession cfg \<and> bc_MaxSubscribersPerSession cfg \<le> int (length ids)
              then (Inl (handleCapExceeded ErrSubscriberLimitExceeded), b1)
              else
                let i = eb_next b1
                in (Inr i,
                    b1\<lparr>eb_subs := set_bucket sid (i # ids) (eb_subs b1),
                       eb_heap := (eb_heap b1)(i := newSubscriber (bc_BufferSize cfg) (bc_IdleTimeout cfg)),
                       eb_next := i + 1\<rparr>))"

text \<open>The cleanup of a subscriber of a session, and \<^verbatim>\<open>Close\<close>, which runs it once.\<close>

definition cleanup :: "string \<Rightarrow> nat \<Rightarrow> event_bus \<Rightarrow> event_bus" where
  "cleanup sid i b =
     (let b1 = (case map_of (eb_subs b) sid of
            None \<Rightarrow> b
          | Some ids \<Rightarrow>
              (let ids' = removeAll i ids
               in if ids' = [] then b\<lparr>eb_subs := filter (\<lambda>(k, v). k \<noteq> sid) (eb_subs b)\<rparr>
                  else b\<lparr>eb_subs := set_bucket sid ids' (eb_subs b)\<rparr>))
      in b1\<lparr>eb_heap := (eb_heap b1)(i := (eb_heap b1 i)\<lparr>sub_events_closed := True\<rparr>)\<rparr>)"

definition Close :: "string \<Rightarrow> nat \<Rightarrow> event_bus \<Rightarrow> event_bus" where
  "Close sid i b =
     (if sub_done (eb_heap b i) then b
      else let b1 = cleanup sid i b
           in b1\<lparr>eb_heap := (eb_heap b1)(i := (eb_heap b1 i)\<lparr>sub_done := True\<rparr>)\<rparr>)"

definition first_error :: "go_error option \<Rightarrow> go_error option \<Rightarrow> go_error option" where
  "first_error first r =
     (case r of
        None \<Rightarrow> first
      | Some err \<Rightarrow> (if \<not> err_is err ErrSubscriptionClosed \<and> first = None then Some err else first))"

text \<open>The loop of \<^verbatim>\<open>Publish\<close> over a snapshot of the subscribers, which Go lists in any order: the first
  error that is not a closed subscription.\<close>

fun publish_all ::
    "(subscriber \<Rightarrow> subscriber) \<Rightarrow> (subscriber \<Rightarrow> subscriber) \<Rightarrow> go_error option \<Rightarrow> session_event \<Rightarrow>
       nat list \<Rightarrow> go_error option \<Rightarrow> event_bus \<Rightarrow> event_bus outcomes" where
  "publish_all env1 env2 ce e [] first b = [(first, b)]"
| "publish_all env1 env2 ce e (i # is) first b =
     concat (map (\<lambda>(r, s).
         publish_all env1 env2 ce e is (first_error first r)
           (b\<lparr>eb_heap := (eb_heap b)(i := s)\<rparr>))
       (publishToSubscriber (eb_cfg b) env1 env2 ce e (eb_heap b i)))"

definition Publish ::
    "(subscriber \<Rightarrow> subscriber) \<Rightarrow> (subscriber \<Rightarrow> subscriber) \<Rightarrow> go_error option \<Rightarrow> nat list \<Rightarrow>
       session_event \<Rightarrow> event_bus \<Rightarrow> event_bus outcomes" where
  "Publish env1 env2 ce snapshot e b =
     (case ce of Some err \<Rightarrow> [(Some err, b)] | None \<Rightarrow> publish_all env1 env2 ce e snapshot None b)"

text \<open>The consumer takes the oldest event.\<close>

definition receive :: "nat \<Rightarrow> event_bus \<Rightarrow> event_bus" where
  "receive i b = b\<lparr>eb_heap := (eb_heap b)(i := pop (eb_heap b i))\<rparr>"

section \<open>What a delivery keeps of a subscriber\<close>

definition sub_ok :: "subscriber \<Rightarrow> bool" where
  "sub_ok s \<longleftrightarrow> length (sub_events s) \<le> sub_cap s"

text \<open>A change that keeps the capacity, the closing and the bound of the buffer.\<close>

definition sub_same :: "subscriber \<Rightarrow> subscriber \<Rightarrow> bool" where
  "sub_same s s' \<longleftrightarrow>
     sub_cap s' = sub_cap s \<and> sub_done s' = sub_done s \<and> sub_events_closed s' = sub_events_closed s \<and>
     sub_idleTimeout s' = sub_idleTimeout s \<and> (sub_ok s \<longrightarrow> sub_ok s')"

definition env_ok :: "(subscriber \<Rightarrow> subscriber) \<Rightarrow> bool" where
  "env_ok env \<longleftrightarrow> (\<forall>s. sub_same s (env s))"

lemma sub_same_refl [simp]: "sub_same s s"
  by (simp add: sub_same_def)

lemma sub_same_trans: "sub_same s s' \<Longrightarrow> sub_same s' s'' \<Longrightarrow> sub_same s s''"
  by (simp add: sub_same_def)

lemma sub_same_touch: "sub_same s (touch s)"
  by (simp add: sub_same_def touch_def sub_ok_def)

lemma sub_same_push: "can_send s \<Longrightarrow> sub_same s (push e s)"
  by (simp add: sub_same_def push_def can_send_def sub_ok_def)

lemma sub_same_pop: "sub_same s (pop s)"
  by (auto simp: sub_same_def pop_def sub_ok_def)

lemma touch_simps [simp]: "sub_events (touch s) = sub_events s" "sub_cap (touch s) = sub_cap s"
  by (simp_all add: touch_def)

lemma push_simps [simp]: "sub_events (push e s) = sub_events s @ [e]" "sub_cap (push e s) = sub_cap s"
  by (simp_all add: push_def)

text \<open>
  The contract that the three slow-consumer policies share: an outcome keeps the subscriber's
  shape, one without error has the event as the newest of the buffer, and on a closed channel the
  only outcomes are a closed subscription and the context's error.
\<close>

locale delivery_policy =
  fixes handle :: "go_error option \<Rightarrow> session_event \<Rightarrow> subscriber \<Rightarrow> subscriber outcomes"
  assumes keeps: "(r, s') \<in> set (handle ce e s) \<Longrightarrow> sub_same s s'"
    and delivers: "(None, s') \<in> set (handle ce e s) \<Longrightarrow> sub_events s' \<noteq> [] \<and> last (sub_events s') = e"
    and closed: "(r, s') \<in> set (handle ce e s) \<Longrightarrow> sub_events_closed s \<Longrightarrow>
        s' = s \<and> (r = Some ErrSubscriptionClosed \<or> r = ce \<and> r \<noteq> None)"
begin

text \<open>A buffer never outgrows its capacity, and a closed channel gets nothing.\<close>

lemma buffer_bound: "(r, s') \<in> set (handle ce e s) \<Longrightarrow> sub_ok s \<Longrightarrow> sub_ok s'"
  using keeps by (auto simp: sub_same_def)

lemma closed_no_delivery: "sub_events_closed s \<Longrightarrow> (None, s') \<notin> set (handle ce e s)"
  using closed by blast

end

interpretation blocking: delivery_policy handleBlocking
  by unfold_locales
    (auto simp: handleBlocking_def panics_def ctx_done_def can_send_def split: if_splits option.splits
      intro: sub_same_trans [OF sub_same_push sub_same_touch] simp: can_send_def)

interpretation drop_latest: delivery_policy "\<lambda>ce. handleDropLatest"
  by unfold_locales
    (auto simp: handleDropLatest_def panics_def can_send_def split: if_splits
      intro: sub_same_trans [OF sub_same_push sub_same_touch] simp: can_send_def)

lemma drop_oldest_policy:
  assumes "env_ok env1" and "env_ok env2"
  shows "delivery_policy (handleDropOldest env1 env2)"
proof
  fix r s' ce e s
  let ?s3 = "env2 (pop (env1 s))"
  have s3: "sub_same s ?s3"
    using assms sub_same_pop sub_same_trans unfolding env_ok_def by metis
  assume o: "(r, s') \<in> set (handleDropOldest env1 env2 ce e s)"
  then show "sub_same s s'"
    using s3 sub_same_push [of s e] sub_same_trans [OF s3 sub_same_trans [OF sub_same_push sub_same_touch]]
    by (auto simp: handleDropOldest_def panics_def ctx_done_def Let_def split: if_splits option.splits)
  assume "sub_events_closed s"
  with o show "s' = s \<and> (r = Some ErrSubscriptionClosed \<or> r = ce \<and> r \<noteq> None)"
    by (auto simp: handleDropOldest_def panics_def can_send_def split: if_splits)
next
  fix s' ce e s
  assume "(None, s') \<in> set (handleDropOldest env1 env2 ce e s)"
  then show "sub_events s' \<noteq> [] \<and> last (sub_events s') = e"
    by (auto simp: handleDropOldest_def panics_def ctx_done_def Let_def split: if_splits option.splits)
qed

lemma env_ok_id: "env_ok id"
  by (simp add: env_ok_def)

interpretation drop_oldest: delivery_policy "handleDropOldest id id"
  by (rule drop_oldest_policy [OF env_ok_id env_ok_id])

lemma publishToSubscriber_same:
  assumes "env_ok env1" and "env_ok env2" and "(r, s') \<in> set (publishToSubscriber cfg env1 env2 ce e s)"
  shows "sub_same s s'"
  using assms(3) blocking.keeps drop_latest.keeps delivery_policy.keeps [OF drop_oldest_policy [OF assms(1,2)]]
  by (auto simp: publishToSubscriber_def split: if_splits slow_policy.splits)

section \<open>The invariant of the bus\<close>

text \<open>
  One bucket per session and none empty; a subscriber is in one bucket, once; the subscribers in
  buckets are allocated, open and have the configured capacity; the configured limits hold; no
  buffer is over its capacity.
\<close>

definition bus_ok :: "event_bus \<Rightarrow> bool" where
  "bus_ok b \<longleftrightarrow>
     distinct (map fst (eb_subs b)) \<and> distinct (concat (map snd (eb_subs b))) \<and>
     [] \<notin> snd ` set (eb_subs b) \<and>
     (\<forall>i \<in> set (concat (map snd (eb_subs b))). i < eb_next b \<and> \<not> sub_done (eb_heap b i) \<and>
        \<not> sub_events_closed (eb_heap b i) \<and> sub_cap (eb_heap b i) = nat (bc_BufferSize (eb_cfg b))) \<and>
     (0 < bc_MaxSessions (eb_cfg b) \<longrightarrow> int (length (eb_subs b)) \<le> bc_MaxSessions (eb_cfg b)) \<and>
     (0 < bc_MaxSubscribersPerSession (eb_cfg b) \<longrightarrow>
        (\<forall>ids \<in> snd ` set (eb_subs b). int (length ids) \<le> bc_MaxSubscribersPerSession (eb_cfg b))) \<and>
     (\<forall>i. sub_ok (eb_heap b i))"

lemma set_bucket_new:
  "map_of m sid = None \<Longrightarrow> set_bucket sid ids m = m @ [(sid, ids)]"
  by (induction m) auto

lemma set_bucket_old:
  assumes "map_of m sid = Some old"
  shows "\<exists>xs ys. m = xs @ (sid, old) # ys \<and> sid \<notin> fst ` set xs \<and> set_bucket sid ids m = xs @ (sid, ids) # ys"
  using assms
proof (induction m)
  case Nil
  then show ?case by simp
next
  case (Cons p m)
  obtain k v where p: "p = (k, v)" by fastforce
  show ?case
  proof (cases "k = sid")
    case True
    with Cons.prems p show ?thesis by (intro exI [of _ "[]"] exI [of _ m]) simp
  next
    case False
    with Cons p obtain xs ys where "m = xs @ (sid, old) # ys" "sid \<notin> fst ` set xs"
      "set_bucket sid ids m = xs @ (sid, ids) # ys" by auto
    with False p show ?thesis by (intro exI [of _ "p # xs"] exI [of _ ys]) simp
  qed
qed

lemma set_bucket_twice: "set_bucket sid ids (set_bucket sid ids' m) = set_bucket sid ids m"
  by (induction m) auto

lemma filter_other_keys: "sid \<notin> fst ` set xs \<Longrightarrow> filter (\<lambda>(k, v). k \<noteq> sid) xs = xs"
  by (induction xs) auto

lemma filter_session:
  assumes "distinct (map fst m)" and "m = xs @ (sid, old) # ys"
  shows "filter (\<lambda>(k, v). k \<noteq> sid) m = xs @ ys"
  using assms by (auto simp: filter_other_keys)

text \<open>Changing subscribers without closing them, or anything about closed ones, keeps the invariant.\<close>

lemma bus_ok_heap:
  assumes "bus_ok b" and "\<And>i. sub_same (eb_heap b i) (h i)"
  shows "bus_ok (b\<lparr>eb_heap := h\<rparr>)"
  using assms unfolding bus_ok_def sub_same_def by simp

lemma bus_ok_upd:
  assumes "bus_ok b" and "sub_same (eb_heap b i) s"
  shows "bus_ok (b\<lparr>eb_heap := (eb_heap b)(i := s)\<rparr>)"
  by (rule bus_ok_heap [OF assms(1)]) (simp add: assms(2))

lemma publish_all_ConsE:
  assumes "(r, b') \<in> set (publish_all env1 env2 ce e (i # is) first b)"
  obtains q s where "(q, s) \<in> set (publishToSubscriber (eb_cfg b) env1 env2 ce e (eb_heap b i))"
    and "(r, b') \<in> set (publish_all env1 env2 ce e is (first_error first q) (b\<lparr>eb_heap := (eb_heap b)(i := s)\<rparr>))"
proof -
  have "\<exists>p \<in> set (publishToSubscriber (eb_cfg b) env1 env2 ce e (eb_heap b i)).
      (r, b') \<in> set (publish_all env1 env2 ce e is (first_error first (fst p)) (b\<lparr>eb_heap := (eb_heap b)(i := snd p)\<rparr>))"
    using assms by (simp add: case_prod_beta)
  then show ?thesis using that by (metis prod.collapse)
qed

lemma publish_all_ok:
  assumes "env_ok env1" and "env_ok env2"
  shows "bus_ok b \<Longrightarrow> (r, b') \<in> set (publish_all env1 env2 ce e is first b) \<Longrightarrow> bus_ok b'"
proof (induction "is" arbitrary: first b)
  case Nil
  then show ?case by simp
next
  case (Cons i "is")
  from Cons.prems(2) show ?case
  proof (rule publish_all_ConsE)
    fix q s
    assume q: "(q, s) \<in> set (publishToSubscriber (eb_cfg b) env1 env2 ce e (eb_heap b i))"
      and rest: "(r, b') \<in> set (publish_all env1 env2 ce e is (first_error first q) (b\<lparr>eb_heap := (eb_heap b)(i := s)\<rparr>))"
    show ?thesis
      by (rule Cons.IH [OF bus_ok_upd [OF Cons.prems(1) publishToSubscriber_same [OF assms q]] rest])
  qed
qed

lemma bus_live:
  assumes "bus_ok b" and "j \<in> set (concat (map snd (eb_subs b)))"
  shows "j < eb_next b" and "\<not> sub_done (eb_heap b j)" and "\<not> sub_events_closed (eb_heap b j)"
    and "sub_cap (eb_heap b j) = nat (bc_BufferSize (eb_cfg b))"
  using assms unfolding bus_ok_def by blast+

lemma bucket_live: "i \<in> set (bucket sid b) \<Longrightarrow> i \<in> set (concat (map snd (eb_subs b)))"
  by (cases "map_of (eb_subs b) sid") (force simp: bucket_def dest: map_of_SomeD)+

lemma bus_okI:
  assumes "distinct (map fst m)" and "distinct (concat (map snd m))" and "[] \<notin> snd ` set m"
    and "\<forall>j \<in> set (concat (map snd m)). j < eb_next b \<and> \<not> sub_done (h j) \<and>
        \<not> sub_events_closed (h j) \<and> sub_cap (h j) = nat (bc_BufferSize (eb_cfg b))"
    and "0 < bc_MaxSessions (eb_cfg b) \<longrightarrow> int (length m) \<le> bc_MaxSessions (eb_cfg b)"
    and "0 < bc_MaxSubscribersPerSession (eb_cfg b) \<longrightarrow>
        (\<forall>v \<in> snd ` set m. int (length v) \<le> bc_MaxSubscribersPerSession (eb_cfg b))"
    and "\<forall>j. sub_ok (h j)"
  shows "bus_ok (b\<lparr>eb_subs := m, eb_heap := h\<rparr>)"
  using assms by (simp add: bus_ok_def)

text \<open>Adding a fresh subscriber to the buckets keeps the invariant when the limits allow it.\<close>

lemma bus_ok_add:
  assumes b: "bus_ok b"
    and m: "distinct (map fst m)" "distinct (concat (map snd m))" "[] \<notin> snd ` set m"
    and ids: "set (concat (map snd m)) = insert (eb_next b) (set (concat (map snd (eb_subs b))))"
    and lim: "0 < bc_MaxSessions (eb_cfg b) \<longrightarrow> int (length m) \<le> bc_MaxSessions (eb_cfg b)"
      "0 < bc_MaxSubscribersPerSession (eb_cfg b) \<longrightarrow>
         (\<forall>ids \<in> snd ` set m. int (length ids) \<le> bc_MaxSubscribersPerSession (eb_cfg b))"
  shows "bus_ok (b\<lparr>eb_subs := m,
      eb_heap := (eb_heap b)(eb_next b := newSubscriber (bc_BufferSize (eb_cfg b)) (bc_IdleTimeout (eb_cfg b))),
      eb_next := Suc (eb_next b)\<rparr>)"
proof -
  let ?h = "(eb_heap b)(eb_next b := newSubscriber (bc_BufferSize (eb_cfg b)) (bc_IdleTimeout (eb_cfg b)))"
  have "j < Suc (eb_next b) \<and> \<not> sub_done (?h j) \<and> \<not> sub_events_closed (?h j) \<and>
      sub_cap (?h j) = nat (bc_BufferSize (eb_cfg b))" if "j \<in> set (concat (map snd m))" for j
  proof (cases "j = eb_next b")
    case True
    then show ?thesis by (simp add: newSubscriber_def)
  next
    case False
    with that have "j \<in> set (concat (map snd (eb_subs b)))" by (metis ids insertE)
    from bus_live [OF b this] False show ?thesis by simp
  qed
  moreover have "sub_ok (?h j)" for j
    using b by (simp add: bus_ok_def newSubscriber_def sub_ok_def)
  ultimately show ?thesis using m lim unfolding bus_ok_def by simp
qed

lemma Subscribe_ok:
  assumes b: "bus_ok b"
  shows "bus_ok (snd (Subscribe sid b))"
proof -
  have nx: "eb_next b \<notin> set (concat (map snd (eb_subs b)))" using bus_live(1) [OF b, of "eb_next b"] by auto
  have base: "distinct (map fst (eb_subs b))" "distinct (concat (map snd (eb_subs b)))" "[] \<notin> snd ` set (eb_subs b)"
    using b by (simp_all add: bus_ok_def)
  show ?thesis
  proof (cases "map_of (eb_subs b) sid")
    case None
    let ?m = "eb_subs b @ [(sid, [eb_next b])]"
    have k: "sid \<notin> fst ` set (eb_subs b)" using None by (simp add: map_of_eq_None_iff)
    have sb: "set_bucket sid [eb_next b] (set_bucket sid [] (eb_subs b)) = ?m"
      unfolding set_bucket_twice by (rule set_bucket_new [OF None])
    have m: "distinct (map fst ?m)" "distinct (concat (map snd ?m))" "[] \<notin> snd ` set ?m"
      using base k nx by auto
    show ?thesis
    proof (cases "fst (Subscribe sid b)")
      case (Inl e)
      with None b show ?thesis
        by (auto simp: Subscribe_def Let_def bucket_def split: if_splits)
    next
      case (Inr i)
      with None have lim: "0 < bc_MaxSessions (eb_cfg b) \<longrightarrow> int (length ?m) \<le> bc_MaxSessions (eb_cfg b)"
        by (auto simp: Subscribe_def Let_def split: if_splits)
      have lim2: "0 < bc_MaxSubscribersPerSession (eb_cfg b) \<longrightarrow>
         (\<forall>ids \<in> snd ` set ?m. int (length ids) \<le> bc_MaxSubscribersPerSession (eb_cfg b))"
        using b by (auto simp: bus_ok_def)
      from bus_ok_add [OF b m _ lim lim2] Inr None sb show ?thesis
        by (auto simp: Subscribe_def Let_def bucket_def split: if_splits)
    qed
  next
    case (Some ids)
    from set_bucket_old [OF Some, of "eb_next b # ids"] obtain xs ys where
      e: "eb_subs b = xs @ (sid, ids) # ys" and sb: "set_bucket sid (eb_next b # ids) (eb_subs b) = xs @ (sid, eb_next b # ids) # ys"
      by blast
    let ?m = "xs @ (sid, eb_next b # ids) # ys"
    have m: "distinct (map fst ?m)" "distinct (concat (map snd ?m))" "[] \<notin> snd ` set ?m"
      using base nx unfolding e by auto
    have set: "set (concat (map snd ?m)) = insert (eb_next b) (set (concat (map snd (eb_subs b))))"
      unfolding e by auto
    have lim: "0 < bc_MaxSessions (eb_cfg b) \<longrightarrow> int (length ?m) \<le> bc_MaxSessions (eb_cfg b)"
      using b unfolding bus_ok_def e by simp
    show ?thesis
    proof (cases "fst (Subscribe sid b)")
      case (Inl err)
      with Some b show ?thesis by (auto simp: Subscribe_def Let_def bucket_def split: if_splits)
    next
      case (Inr i)
      with Some have "0 < bc_MaxSubscribersPerSession (eb_cfg b) \<longrightarrow>
          int (length (eb_next b # ids)) \<le> bc_MaxSubscribersPerSession (eb_cfg b)"
        by (auto simp: Subscribe_def Let_def bucket_def split: if_splits)
      then have lim2: "0 < bc_MaxSubscribersPerSession (eb_cfg b) \<longrightarrow>
         (\<forall>ids \<in> snd ` set ?m. int (length ids) \<le> bc_MaxSubscribersPerSession (eb_cfg b))"
        using b unfolding bus_ok_def e by auto
      from bus_ok_add [OF b m set lim lim2] Inr Some sb show ?thesis
        by (auto simp: Subscribe_def Let_def bucket_def split: if_splits)
    qed
  qed
qed

text \<open>A subscriber closes under the session it subscribed to.\<close>

lemma Close_ok:
  assumes b: "bus_ok b" and i: "i \<in> set (bucket sid b)"
  shows "bus_ok (Close sid i b)" and "i \<notin> set (concat (map snd (eb_subs (Close sid i b))))"
proof -
  obtain ids where ids: "map_of (eb_subs b) sid = Some ids" "i \<in> set ids"
    using i by (cases "map_of (eb_subs b) sid") (auto simp: bucket_def)
  from set_bucket_old [OF ids(1), of "removeAll i ids"] obtain xs ys where
    m: "eb_subs b = xs @ (sid, ids) # ys" and sb: "set_bucket sid (removeAll i ids) (eb_subs b) = xs @ (sid, removeAll i ids) # ys"
    by blast
  have d: "distinct (map fst (eb_subs b))" using b by (simp add: bus_ok_def)
  note fl = filter_session [OF d m]
  have D2: "distinct (concat (map snd (xs @ (sid, ids) # ys)))" and ne: "[] \<notin> snd ` set (xs @ (sid, ids) # ys)"
    and mx: "0 < bc_MaxSessions (eb_cfg b) \<longrightarrow> int (length (xs @ (sid, ids) # ys)) \<le> bc_MaxSessions (eb_cfg b)"
    and ms: "0 < bc_MaxSubscribersPerSession (eb_cfg b) \<longrightarrow>
      (\<forall>v \<in> snd ` set (xs @ (sid, ids) # ys). int (length v) \<le> bc_MaxSubscribersPerSession (eb_cfg b))"
    and so: "\<forall>j. sub_ok (eb_heap b j)"
    using b unfolding bus_ok_def m by blast+
  have D1: "distinct (map fst (xs @ (sid, ids) # ys))" using d m by simp
  have lv: "j < eb_next b \<and> \<not> sub_done (eb_heap b j) \<and> \<not> sub_events_closed (eb_heap b j) \<and>
      sub_cap (eb_heap b j) = nat (bc_BufferSize (eb_cfg b))" if "j \<in> set (concat (map snd (xs @ (sid, ids) # ys)))" for j
    using bus_live [OF b, of j] that m by simp
  have nd: "\<not> sub_done (eb_heap b i)" using lv [of i] ids(2) by simp
  have notin: "i \<notin> set (concat (map snd xs)) \<and> i \<notin> set (concat (map snd ys))"
    using D2 ids(2) by auto
  have len: "int (length (removeAll i ids)) \<le> int (length ids)"
    by (simp add: length_removeAll_less_eq)
  show "i \<notin> set (concat (map snd (eb_subs (Close sid i b))))"
    using nd notin ids(1) sb fl by (auto simp: Close_def cleanup_def Let_def)
  let ?h = "(eb_heap b)(i := (eb_heap b i)\<lparr>sub_events_closed := True, sub_done := True\<rparr>)"
  have dc: "distinct (concat (map snd (xs @ ys)))" and dr: "distinct (concat (map snd (xs @ (sid, removeAll i ids) # ys)))"
    using D2 by (auto simp: distinct_removeAll)
  have cl: "Close sid i b =
      b\<lparr>eb_subs := (if removeAll i ids = [] then xs @ ys else xs @ (sid, removeAll i ids) # ys), eb_heap := ?h\<rparr>"
    using nd ids(1) sb fl by (simp add: Close_def cleanup_def Let_def)
  have hj: "?h j = eb_heap b j" if "j \<noteq> i" for j using that by simp
  have live: "j < eb_next b \<and> \<not> sub_done (?h j) \<and> \<not> sub_events_closed (?h j) \<and>
      sub_cap (?h j) = nat (bc_BufferSize (eb_cfg b))"
    if "j \<in> set (concat (map snd (xs @ ys))) \<union> set (removeAll i ids)" for j
  proof -
    have "j \<noteq> i" and "j \<in> set (concat (map snd (xs @ (sid, ids) # ys)))" using that notin by auto
    then show ?thesis using lv [of j] by simp
  qed
  have ok: "\<forall>j. sub_ok (?h j)" using so by (simp add: sub_ok_def)
  have lim: "0 < bc_MaxSessions (eb_cfg b) \<longrightarrow> int (length (xs @ (sid, removeAll i ids) # ys)) \<le> bc_MaxSessions (eb_cfg b)"
    "0 < bc_MaxSessions (eb_cfg b) \<longrightarrow> int (length (xs @ ys)) \<le> bc_MaxSessions (eb_cfg b)"
    using mx by auto
  have sess: "0 < bc_MaxSubscribersPerSession (eb_cfg b) \<longrightarrow>
      (\<forall>v \<in> insert (removeAll i ids) (snd ` set (xs @ ys)). int (length v) \<le> bc_MaxSubscribersPerSession (eb_cfg b))"
    (is "?lim \<longrightarrow> ?all")
  proof
    assume ?lim
    with ms have old: "\<forall>v \<in> insert ids (snd ` set (xs @ ys)). int (length v) \<le> bc_MaxSubscribersPerSession (eb_cfg b)"
      by simp
    then have "int (length (removeAll i ids)) \<le> bc_MaxSubscribersPerSession (eb_cfg b)"
      using order.trans [OF len] by blast
    with old show ?all by blast
  qed
  have keys: "distinct (map fst (xs @ (sid, removeAll i ids) # ys))" "distinct (map fst (xs @ ys))" "[] \<notin> snd ` set (xs @ ys)"
    using D1 ne by auto
  have live2: "\<forall>j \<in> set (concat (map snd (xs @ (sid, removeAll i ids) # ys))).
      j < eb_next b \<and> \<not> sub_done (?h j) \<and> \<not> sub_events_closed (?h j) \<and> sub_cap (?h j) = nat (bc_BufferSize (eb_cfg b))"
  proof (intro ballI)
    fix j
    assume "j \<in> set (concat (map snd (xs @ (sid, removeAll i ids) # ys)))"
    then have "j \<in> set (concat (map snd (xs @ ys))) \<union> set (removeAll i ids)" by auto
    then show "j < eb_next b \<and> \<not> sub_done (?h j) \<and> \<not> sub_events_closed (?h j) \<and>
      sub_cap (?h j) = nat (bc_BufferSize (eb_cfg b))" by (rule live)
  qed
  have live1: "\<forall>j \<in> set (concat (map snd (xs @ ys))).
      j < eb_next b \<and> \<not> sub_done (?h j) \<and> \<not> sub_events_closed (?h j) \<and> sub_cap (?h j) = nat (bc_BufferSize (eb_cfg b))"
    using live by blast
  show "bus_ok (Close sid i b)"
  proof (cases "removeAll i ids = []")
    case True
    have "bus_ok (b\<lparr>eb_subs := xs @ ys, eb_heap := ?h\<rparr>)"
      by (rule bus_okI [OF keys(2) dc keys(3) live1 lim(2) _ ok]) (use sess in blast)
    with True show ?thesis unfolding cl by simp
  next
    case False
    let ?m = "xs @ (sid, removeAll i ids) # ys"
    have "snd ` set ?m \<subseteq> insert (removeAll i ids) (snd ` set (xs @ ys))" by auto
    with sess have s2: "0 < bc_MaxSubscribersPerSession (eb_cfg b) \<longrightarrow>
        (\<forall>v \<in> snd ` set ?m. int (length v) \<le> bc_MaxSubscribersPerSession (eb_cfg b))" by blast
    have k3: "[] \<notin> snd ` set ?m" using keys(3) False by auto
    have "bus_ok (b\<lparr>eb_subs := ?m, eb_heap := ?h\<rparr>)"
      by (rule bus_okI [OF keys(1) dr k3 live2 lim(1) s2 ok])
    with False show ?thesis unfolding cl by simp
  qed
qed

section \<open>The reachable states\<close>

text \<open>
  A subscriber closes explicitly, when its context ends or when its idle timer fires: each calls
  \<^verbatim>\<open>Close\<close>.  A publisher may hold a snapshot that is no longer current, so it sends to any list.
\<close>

inductive bus_step :: "event_bus \<Rightarrow> event_bus \<Rightarrow> bool" where
  bs_subscribe: "bus_step b (snd (Subscribe sid b))"
| bs_close: "i \<in> set (bucket sid b) \<or> sub_done (eb_heap b i) \<Longrightarrow> bus_step b (Close sid i b)"
| bs_publish: "env_ok env1 \<Longrightarrow> env_ok env2 \<Longrightarrow> (r, b') \<in> set (Publish env1 env2 ce snapshot e b) \<Longrightarrow> bus_step b b'"
| bs_receive: "bus_step b (receive i b)"

inductive bus_reachable :: "bus_config \<Rightarrow> event_bus \<Rightarrow> bool" for cfg :: bus_config where
  br_new: "bus_reachable cfg (NewMemoryBus cfg)"
| br_step: "bus_reachable cfg b \<Longrightarrow> bus_step b b' \<Longrightarrow> bus_reachable cfg b'"

inductive_cases bus_stepE: "bus_step b b'"

lemma NewMemoryBus_ok: "bus_ok (NewMemoryBus cfg)"
  by (simp add: bus_ok_def NewMemoryBus_def newSubscriber_def sub_ok_def)

lemma Close_done: "sub_done (eb_heap b i) \<Longrightarrow> Close sid i b = b"
  by (simp add: Close_def)

lemma bus_step_ok: "bus_step b b' \<Longrightarrow> bus_ok b \<Longrightarrow> bus_ok b'"
proof (induction rule: bus_step.induct)
  case (bs_subscribe b sid)
  then show ?case by (rule Subscribe_ok)
next
  case (bs_close i sid b)
  then show ?case using Close_ok(1) Close_done by (cases "sub_done (eb_heap b i)") auto
next
  case (bs_publish env1 env2 r b' ce snapshot e b)
  then show ?case using publish_all_ok [of env1 env2 b r b' ce e snapshot None]
    by (auto simp: Publish_def split: option.splits)
next
  case (bs_receive b i)
  then show ?case unfolding receive_def by (rule bus_ok_upd [OF _ sub_same_pop])
qed

lemma bus_reachable_ok: "bus_reachable cfg b \<Longrightarrow> bus_ok b"
  by (induction rule: bus_reachable.induct) (auto intro: NewMemoryBus_ok bus_step_ok)

lemma bus_step_cfg: "bus_step b b' \<Longrightarrow> eb_cfg b' = eb_cfg b"
proof -
  have pub: "(r, b') \<in> set (publish_all env1 env2 ce e is first b) \<Longrightarrow> eb_cfg b' = eb_cfg b"
    for r b' env1 env2 ce e "is" first b
  proof (induction "is" arbitrary: first b)
    case (Cons i "is")
    from Cons.prems show ?case
      by (rule publish_all_ConsE) (use Cons.IH in fastforce)
  qed simp
  show "bus_step b b' \<Longrightarrow> eb_cfg b' = eb_cfg b"
    by (induction rule: bus_step.induct)
      (auto simp: Subscribe_def Close_def cleanup_def receive_def Publish_def Let_def
        split: option.splits dest: pub)
qed

lemma bus_reachable_cfg: "bus_reachable cfg b \<Longrightarrow> eb_cfg b = normalizeConfig cfg"
  by (induction rule: bus_reachable.induct) (auto simp: NewMemoryBus_def dest: bus_step_cfg)

text \<open>
  C10: The limits of the bus hold in every reachable state: after any sequence of subscriptions,
  deliveries under any policy, receptions and closings, there are at most the configured sessions,
  each with at least one and at most the configured number of open subscribers, no subscriber is
  listed twice, and no buffer holds more than the configured number of events.
\<close>

theorem bus_limits:
  assumes "bus_reachable cfg b"
  shows "(0 < bc_MaxSessions cfg \<longrightarrow> int (length (eb_subs b)) \<le> bc_MaxSessions cfg) \<and>
    distinct (map fst (eb_subs b)) \<and> distinct (concat (map snd (eb_subs b))) \<and>
    (\<forall>(sid, ids) \<in> set (eb_subs b). ids \<noteq> [] \<and>
       (0 < bc_MaxSubscribersPerSession cfg \<longrightarrow> int (length ids) \<le> bc_MaxSubscribersPerSession cfg) \<and>
       (\<forall>i \<in> set ids. \<not> sub_done (eb_heap b i) \<and>
          int (length (sub_events (eb_heap b i))) \<le> (if bc_BufferSize cfg \<le> 0 then 64 else bc_BufferSize cfg)))"
proof -
  have ok: "bus_ok b" by (rule bus_reachable_ok [OF assms])
  have cfg: "bc_MaxSessions (eb_cfg b) = bc_MaxSessions cfg"
    "bc_MaxSubscribersPerSession (eb_cfg b) = bc_MaxSubscribersPerSession cfg"
    "bc_BufferSize (eb_cfg b) = (if bc_BufferSize cfg \<le> 0 then 64 else bc_BufferSize cfg)"
    using bus_reachable_cfg [OF assms] by (auto simp: normalizeConfig_def defaultBufferSize_def Let_def)
  have buf: "int (length (sub_events (eb_heap b i))) \<le> bc_BufferSize (eb_cfg b) \<and> \<not> sub_done (eb_heap b i)"
    if "(sid, ids) \<in> set (eb_subs b)" "i \<in> set ids" for sid ids i
  proof -
    have "i \<in> set (concat (map snd (eb_subs b)))" using that by force
    from bus_live [OF ok this] have "sub_cap (eb_heap b i) = nat (bc_BufferSize (eb_cfg b))" "\<not> sub_done (eb_heap b i)"
      by simp_all
    moreover have "sub_ok (eb_heap b i)" using ok by (simp add: bus_ok_def)
    moreover have "0 < bc_BufferSize (eb_cfg b)" using cfg(3) by simp
    ultimately show ?thesis by (simp add: sub_ok_def)
  qed
  have ne: "ids \<noteq> [] \<and> (0 < bc_MaxSubscribersPerSession cfg \<longrightarrow> int (length ids) \<le> bc_MaxSubscribersPerSession cfg)"
    if "(sid, ids) \<in> set (eb_subs b)" for sid ids
    using ok that cfg(2) unfolding bus_ok_def by force
  have "(0 < bc_MaxSessions cfg \<longrightarrow> int (length (eb_subs b)) \<le> bc_MaxSessions cfg) \<and>
    distinct (map fst (eb_subs b)) \<and> distinct (concat (map snd (eb_subs b)))"
    using ok cfg(1) unfolding bus_ok_def by simp
  moreover have "\<forall>p \<in> set (eb_subs b). case p of (sid, ids) \<Rightarrow> ids \<noteq> [] \<and>
       (0 < bc_MaxSubscribersPerSession cfg \<longrightarrow> int (length ids) \<le> bc_MaxSubscribersPerSession cfg) \<and>
       (\<forall>i \<in> set ids. \<not> sub_done (eb_heap b i) \<and>
          int (length (sub_events (eb_heap b i))) \<le> (if bc_BufferSize cfg \<le> 0 then 64 else bc_BufferSize cfg))"
    using buf ne unfolding cfg(3) by blast
  ultimately show ?thesis by blast
qed

definition demo_bus_cfg :: bus_config where
  "demo_bus_cfg = \<lparr>bc_BufferSize = 2, bc_SlowConsumerPolicy = SlowConsumerPolicyDropOldest,
     bc_CapExceedPolicy = CapExceedPolicyEmpty, bc_MaxSessions = 1, bc_MaxSubscribersPerSession = 0, bc_IdleTimeout = 0\<rparr>"

theorem bus_limits_witness:
  "length (eb_subs (snd (Subscribe ''s'' (NewMemoryBus demo_bus_cfg)))) = 1"
proof -
  have "bus_reachable demo_bus_cfg (snd (Subscribe ''s'' (NewMemoryBus demo_bus_cfg)))"
    by (rule br_step [OF br_new bs_subscribe])
  from bus_limits [OF this] have "length (eb_subs (snd (Subscribe ''s'' (NewMemoryBus demo_bus_cfg)))) \<le> 1"
    by (simp add: demo_bus_cfg_def)
  moreover have "eb_subs (snd (Subscribe ''s'' (NewMemoryBus demo_bus_cfg))) \<noteq> []" by code_simp
  ultimately show ?thesis by (cases "eb_subs (snd (Subscribe ''s'' (NewMemoryBus demo_bus_cfg)))") auto
qed

section \<open>What a publication delivers\<close>

definition full :: "subscriber \<Rightarrow> bool" where
  "full s \<longleftrightarrow> sub_cap s \<le> length (sub_events s)"

definition open_sub :: "subscriber \<Rightarrow> bool" where
  "open_sub s \<longleftrightarrow> \<not> sub_done s \<and> \<not> sub_events_closed s \<and> 0 < sub_cap s \<and> sub_ok s"

text \<open>The buffer after a delivery, by policy: a publisher that blocks waits for room, so there is some.\<close>

fun delivered :: "slow_policy \<Rightarrow> session_event \<Rightarrow> subscriber \<Rightarrow> session_event list" where
  "delivered SlowConsumerPolicyDropLatest e s = (if full s then sub_events s else sub_events s @ [e])"
| "delivered SlowConsumerPolicyDropOldest e s = (if full s then tl (sub_events s) @ [e] else sub_events s @ [e])"
| "delivered p e s = sub_events s @ [e]"

definition drops :: "slow_policy \<Rightarrow> bool" where
  "drops p \<longleftrightarrow> p = SlowConsumerPolicyDropLatest \<or> p = SlowConsumerPolicyDropOldest"

lemma publish_one:
  assumes "open_sub s" and "(r, s') \<in> set (publishToSubscriber cfg id id None e s)"
  shows "sub_events s' = delivered (bc_SlowConsumerPolicy cfg) e s"
    and "r = (if drops (bc_SlowConsumerPolicy cfg) \<and> full s then Some ErrSlowConsumer else None)"
    and "\<not> drops (bc_SlowConsumerPolicy cfg) \<Longrightarrow> \<not> full s"
  using assms
  by (cases "bc_SlowConsumerPolicy cfg";
      auto simp: publishToSubscriber_def handleBlocking_def handleDropLatest_def handleDropOldest_def
        panics_def ctx_done_def can_send_def open_sub_def full_def drops_def pop_def drop_Suc sub_ok_def
        Let_def touch_def push_def split: if_splits)+

lemma publish_all_delivers:
  assumes "(r, b') \<in> set (publish_all id id None e is first b)" and "distinct is"
    and "\<forall>i \<in> set is. open_sub (eb_heap b i)"
  shows "(\<forall>i. sub_events (eb_heap b' i) =
        (if i \<in> set is then delivered (bc_SlowConsumerPolicy (eb_cfg b)) e (eb_heap b i) else sub_events (eb_heap b i))) \<and>
    r = (if first = None \<and> drops (bc_SlowConsumerPolicy (eb_cfg b)) \<and> (\<exists>i \<in> set is. full (eb_heap b i))
         then Some ErrSlowConsumer else first) \<and> eb_subs b' = eb_subs b"
  using assms
proof (induction "is" arbitrary: first b)
  case Nil
  then show ?case by simp
next
  case (Cons i "is")
  let ?p = "bc_SlowConsumerPolicy (eb_cfg b)"
  from publish_all_ConsE [OF Cons.prems(1)] obtain q s where
    p: "(q, s) \<in> set (publishToSubscriber (eb_cfg b) id id None e (eb_heap b i))"
    and rest: "(r, b') \<in> set (publish_all id id None e is (first_error first q) (b\<lparr>eb_heap := (eb_heap b)(i := s)\<rparr>))"
    by metis
  have op: "open_sub (eb_heap b i)" and i: "i \<notin> set is" "distinct is" using Cons.prems(2,3) by auto
  note one = publish_one [OF op p]
  let ?b = "b\<lparr>eb_heap := (eb_heap b)(i := s)\<rparr>"
  have "\<forall>j \<in> set is. open_sub (eb_heap ?b j)" using Cons.prems(3) i by auto
  note ih = Cons.IH [OF rest i(2) this]
  have others: "eb_heap ?b j = eb_heap b j" if "j \<in> set is" for j using that i by auto
  have ev: "sub_events (eb_heap b' j) = (if j \<in> set (i # is) then delivered ?p e (eb_heap b j) else sub_events (eb_heap b j))" for j
    using ih one(1) i by (cases "j = i") auto
  have "r = (if first = None \<and> drops ?p \<and> (\<exists>j \<in> set (i # is). full (eb_heap b j)) then Some ErrSlowConsumer else first)"
    using ih one(2) others by (cases first) (auto simp: first_error_def)
  with ev ih show ?case by auto
qed

text \<open>
  C9: What a publication does to the subscribers of its session, when nobody interferes and the
  context is live.  Each gets the event as its newest, in order behind what it has; under drop_latest
  a full subscriber keeps its buffer, under drop_oldest it loses its oldest event.  Nobody else gets
  anything, and the result is the slow-consumer error exactly when something was dropped.
\<close>

theorem Publish_delivers:
  assumes "bus_reachable cfg b" and "distinct snapshot" and "set snapshot = set (bucket sid b)"
    and "(r, b') \<in> set (Publish id id None snapshot e b)"
  shows "(\<forall>i \<in> set (bucket sid b). sub_events (eb_heap b' i) = delivered (bc_SlowConsumerPolicy (eb_cfg b)) e (eb_heap b i)) \<and>
    (\<forall>i. i \<notin> set (bucket sid b) \<longrightarrow> sub_events (eb_heap b' i) = sub_events (eb_heap b i)) \<and>
    (r = Some ErrSlowConsumer \<longleftrightarrow>
       drops (bc_SlowConsumerPolicy (eb_cfg b)) \<and> (\<exists>i \<in> set (bucket sid b). full (eb_heap b i))) \<and>
    (r = None \<or> r = Some ErrSlowConsumer)"
proof -
  have ok: "bus_ok b" by (rule bus_reachable_ok [OF assms(1)])
  have cap: "0 < bc_BufferSize (eb_cfg b)"
    using bus_reachable_cfg [OF assms(1)] by (auto simp: normalizeConfig_def defaultBufferSize_def Let_def)
  have "open_sub (eb_heap b i)" if "i \<in> set snapshot" for i
  proof -
    have "i \<in> set (concat (map snd (eb_subs b)))"
      using that bucket_live [of i sid b] assms(3) by simp
    from bus_live [OF ok this] cap ok show ?thesis by (simp add: open_sub_def bus_ok_def)
  qed
  then have "\<forall>i \<in> set snapshot. open_sub (eb_heap b i)" by blast
  moreover have "(r, b') \<in> set (publish_all id id None e snapshot None b)" using assms(4) by (simp add: Publish_def)
  ultimately show ?thesis
    using publish_all_delivers [of r b' e snapshot None b] assms(2,3) by auto
qed

text \<open>A bus with one subscriber whose buffer of two is full.\<close>

definition demo_ev :: "string \<Rightarrow> session_event" where
  "demo_ev t = \<lparr>ev_BatchID = [], ev_RunID = [], ev_SessionID = ''s'', ev_Event = [(''type'', JString t)], ev_IngestedAt = 1\<rparr>"

definition demo_publish :: "session_event \<Rightarrow> event_bus \<Rightarrow> event_bus" where
  "demo_publish e b = snd (hd (Publish id id None [0] e b))"

definition demo_full_bus :: event_bus where
  "demo_full_bus =
     demo_publish (demo_ev ''b'') (demo_publish (demo_ev ''a'') (snd (Subscribe ''s'' (NewMemoryBus demo_bus_cfg))))"

lemma demo_publish_step: "Publish id id None [0] e b \<noteq> [] \<Longrightarrow> bus_step b (demo_publish e b)"
  unfolding demo_publish_def
  by (rule bs_publish [OF env_ok_id env_ok_id, of "fst (hd (Publish id id None [0] e b))" _ None "[0]" e])
    (simp add: hd_in_set)

lemma demo_full_bus_reachable: "bus_reachable demo_bus_cfg demo_full_bus"
  unfolding demo_full_bus_def
  by (intro br_step [OF br_step [OF br_step [OF br_new bs_subscribe] demo_publish_step] demo_publish_step]; code_simp)

theorem Publish_delivers_witness:
  "\<exists>b'. (Some ErrSlowConsumer, b') \<in> set (Publish id id None [0] (demo_ev ''c'') demo_full_bus) \<and>
     sub_events (eb_heap b' 0) = [demo_ev ''b'', demo_ev ''c'']"
proof -
  let ?o = "Publish id id None [0] (demo_ev ''c'') demo_full_bus"
  have ne: "?o \<noteq> []" and r: "fst (hd ?o) = Some ErrSlowConsumer" by code_simp+
  then have o: "(Some ErrSlowConsumer, snd (hd ?o)) \<in> set ?o" by (metis hd_in_set prod.collapse)
  have sn: "distinct [0 :: nat]" "set [0] = set (bucket ''s'' demo_full_bus)"
    "bc_SlowConsumerPolicy (eb_cfg demo_full_bus) = SlowConsumerPolicyDropOldest"
    "delivered SlowConsumerPolicyDropOldest (demo_ev ''c'') (eb_heap demo_full_bus 0) = [demo_ev ''b'', demo_ev ''c'']"
    by code_simp+
  have "0 \<in> set (bucket ''s'' demo_full_bus)" using sn(2) by (metis list.set_intros(1))
  then have "sub_events (eb_heap (snd (hd ?o)) 0) = [demo_ev ''b'', demo_ev ''c'']"
    using Publish_delivers [OF demo_full_bus_reachable sn(1,2) o] unfolding sn(3) sn(4) [symmetric] by blast
  with o show ?thesis by blast
qed

section \<open>Closing\<close>

text \<open>
  C39: Closing is final and idempotent.  After a subscription of a session has been closed, no bucket
  lists it, a publisher that still holds it gets \<^const>\<open>ErrSubscriptionClosed\<close> and delivers nothing, which
  a publication does not report, and closing it again changes nothing.
\<close>

theorem Close_final:
  assumes "bus_reachable cfg b" and "i \<in> set (bucket sid b)"
  shows "(\<forall>sid'. i \<notin> set (bucket sid' (Close sid i b))) \<and>
    Close sid i (Close sid i b) = Close sid i b \<and>
    publishToSubscriber (eb_cfg b) env1 env2 ce e (eb_heap (Close sid i b) i) =
      [(Some ErrSubscriptionClosed, eb_heap (Close sid i b) i)] \<and>
    Publish env1 env2 None [i] e (Close sid i b) = [(None, Close sid i b)]"
proof -
  have ok: "bus_ok b" by (rule bus_reachable_ok [OF assms(1)])
  have nd: "\<not> sub_done (eb_heap b i)" by (rule bus_live(2) [OF ok bucket_live [OF assms(2)]])
  have d: "sub_done (eb_heap (Close sid i b) i)" using nd by (simp add: Close_def Let_def)
  have nb: "\<forall>sid'. i \<notin> set (bucket sid' (Close sid i b))"
    using Close_ok(2) [OF ok assms(2)] bucket_live by blast
  have pub: "publishToSubscriber cfg' env1 env2 ce e (eb_heap (Close sid i b) i) =
      [(Some ErrSubscriptionClosed, eb_heap (Close sid i b) i)]" for cfg' ce
    using d by (simp add: publishToSubscriber_def)
  then have "Publish env1 env2 None [i] e (Close sid i b) = [(None, Close sid i b)]"
    by (simp add: Publish_def first_error_def)
  with nb pub Close_done [OF d, of sid] show ?thesis by simp
qed

theorem Close_final_witness:
  "bucket ''s'' (Close ''s'' 0 demo_full_bus) = [] \<and>
   Publish id id None [0] (demo_ev ''c'') (Close ''s'' 0 demo_full_bus) = [(None, Close ''s'' 0 demo_full_bus)]"
proof -
  have i: "0 \<in> set (bucket ''s'' demo_full_bus)" by code_simp
  have "bucket ''s'' (Close ''s'' 0 demo_full_bus) = []" by code_simp
  with Close_final [OF demo_full_bus_reachable i, of id id None "demo_ev ''c''"] show ?thesis by blast
qed

text \<open>
  Which deliveries keep a subscription alive.  With an idle timeout, a delivery into a buffer with
  room restarts the idle timer under the blocking and the drop_latest policy, but not under
  drop_oldest: there only a delivery that had to drop an event does, so a subscriber that keeps up
  with its events is closed as idle.
\<close>

theorem delivery_restarts_idle_timer:
  assumes "open_sub s" and "\<not> full s" and "0 < sub_idleTimeout s" and "\<not> sub_idleReset s"
    and "(r, s') \<in> set (publishToSubscriber cfg id id None e s)"
  shows "r = None \<and> sub_events s' = sub_events s @ [e] \<and>
    (sub_idleReset s' \<longleftrightarrow> bc_SlowConsumerPolicy cfg \<noteq> SlowConsumerPolicyDropOldest)"
  using assms
  by (cases "bc_SlowConsumerPolicy cfg")
    (auto simp: publishToSubscriber_def handleBlocking_def handleDropLatest_def handleDropOldest_def
      panics_def ctx_done_def can_send_def open_sub_def full_def touch_def push_def split: if_splits)

theorem delivery_restarts_idle_timer_witness:
  "\<exists>s'. (None, s') \<in> set (publishToSubscriber demo_bus_cfg id id None (demo_ev ''a'') (newSubscriber 2 1)) \<and>
     \<not> sub_idleReset s'"
proof -
  have a: "open_sub (newSubscriber 2 1)" "\<not> full (newSubscriber 2 1)" "0 < sub_idleTimeout (newSubscriber 2 1)"
    "\<not> sub_idleReset (newSubscriber 2 1)" by code_simp+
  have "publishToSubscriber demo_bus_cfg id id None (demo_ev ''a'') (newSubscriber 2 1) =
      [(None, push (demo_ev ''a'') (newSubscriber 2 1))]" by code_simp
  then have o: "(None, push (demo_ev ''a'') (newSubscriber 2 1)) \<in>
      set (publishToSubscriber demo_bus_cfg id id None (demo_ev ''a'') (newSubscriber 2 1))" by simp
  from delivery_restarts_idle_timer [OF a o] o show ?thesis by (auto simp: demo_bus_cfg_def)
qed

end
