(* ===== verification/Mongo_Indexes.thy ===== *)
theory Mongo_Indexes
  imports Mongo_Refinement
begin

text \<open>
  internal/storage/mongo/client.go: connecting, closing, and the indexes the client creates before it is
  used.  The calls of the driver on connections and indexes are the fields of \<open>index_driver\<close>; they act on
  the same database as those of \<open>driver\<close>.  What the indexes are for is proved here too: from the creation
  on, no two documents share an identifier, whatever the client does.
\<close>

section \<open>Index models and their names\<close>

datatype index_keys = KeysD "(string \<times> int) list" | KeysOther string

record index_options =
  io_Name :: "string option"
  io_Unique :: bool

record index_model =
  im_Keys :: index_keys
  im_Options :: "index_options option"

definition indexModelName :: "index_model \<Rightarrow> go_error + string" where
  "indexModelName model =
     (let fromKeys = (case im_Keys model of
            KeysOther t \<Rightarrow> Inl (Errorf (''index keys must be bson.D to derive name: '' @ t))
          | KeysD keysDoc \<Rightarrow>
              (if keysDoc = [] then Inl (Errorf ''index keys cannot be empty'')
               else Inr (Join (map (\<lambda>(k, v). k @ ''_'' @ FormatInt v) keysDoc) ''_'')))
      in case im_Options model of
           Some opts \<Rightarrow> (case io_Name opts of Some n \<Rightarrow> (if n \<noteq> [] then Inr n else fromKeys) | None \<Rightarrow> fromKeys)
         | None \<Rightarrow> fromKeys)"

definition normalizeIndexModel :: "index_model \<Rightarrow> go_error + index_model" where
  "normalizeIndexModel model =
     (case indexModelName model of
        Inl e \<Rightarrow> Inl e
      | Inr name \<Rightarrow>
          (let opts = (case im_Options model of None \<Rightarrow> \<lparr>io_Name = None, io_Unique = False\<rparr> | Some opts \<Rightarrow> opts)
           in Inr (model\<lparr>im_Options := Some (opts\<lparr>io_Name := Some name\<rparr>)\<rparr>)))"

section \<open>Connection and creation\<close>

record 'm index_driver =
  ix_Connect :: "ctx \<Rightarrow> string \<Rightarrow> ('m, go_error option) act"
  ix_Disconnect :: "ctx \<Rightarrow> ('m, go_error option) act"
  ix_CreateMany :: "ctx \<Rightarrow> string \<Rightarrow> index_model list \<Rightarrow> ('m, go_error option) act"
  ix_DropOne :: "ctx \<Rightarrow> string \<Rightarrow> string \<Rightarrow> ('m, go_error option) act"

text \<open>\<^verbatim>\<open>errors.As\<close> with a \<^verbatim>\<open>mongo.CommandError\<close>, and its name.\<close>

fun command_name :: "go_error \<Rightarrow> string option" where
  "command_name (ErrCommand n m) = Some n"
| "command_name (Wrapf m e) = command_name e"
| "command_name e = None"

definition given_name :: "index_model \<Rightarrow> string option" where
  "given_name model =
     (case im_Options model of
        None \<Rightarrow> None
      | Some opts \<Rightarrow> (case io_Name opts of None \<Rightarrow> None | Some n \<Rightarrow> (if n = [] then None else Some n)))"

fun drop_conflicting :: "'m index_driver \<Rightarrow> ctx \<Rightarrow> string \<Rightarrow> index_model list \<Rightarrow> ('m, go_error option) act" where
  "drop_conflicting ix c coll [] m = (None, m)"
| "drop_conflicting ix c coll (model # models) m =
     (case given_name model of
        None \<Rightarrow> drop_conflicting ix c coll models m
      | Some name \<Rightarrow>
          (case ix_DropOne ix c coll name m of
             (None, m1) \<Rightarrow> drop_conflicting ix c coll models m1
           | (Some e, m1) \<Rightarrow>
               (if command_name e = Some ''IndexNotFound'' then drop_conflicting ix c coll models m1
                else (Some (Wrapf (''drop conflicting index '' @ name @ '' on '' @ coll) e), m1))))"

definition createIndexes :: "'m index_driver \<Rightarrow> ctx \<Rightarrow> string \<Rightarrow> index_model list \<Rightarrow> ('m, go_error option) act" where
  "createIndexes ix c coll models m =
     (let failed = (\<lambda>e m'. (Some (Wrapf (''create indexes for '' @ coll) e), m'))
      in case ix_CreateMany ix c coll models m of
           (None, m1) \<Rightarrow> (None, m1)
         | (Some e, m1) \<Rightarrow>
             (if command_name e = Some ''IndexKeySpecsConflict'' then
                (case drop_conflicting ix c coll models m1 of
                   (Some e', m2) \<Rightarrow> (Some e', m2)
                 | (None, m2) \<Rightarrow>
                     (case ix_CreateMany ix c coll models m2 of
                        (None, m3) \<Rightarrow> (None, m3)
                      | (Some e', m3) \<Rightarrow> failed e' m3))
              else failed e m1))"

definition plain_index :: "(string \<times> int) list \<Rightarrow> index_model" where
  "plain_index ks = \<lparr>im_Keys = KeysD ks, im_Options = None\<rparr>"

definition unique_index :: "string \<Rightarrow> index_model" where
  "unique_index k = \<lparr>im_Keys = KeysD [(k, 1)], im_Options = Some \<lparr>io_Name = None, io_Unique = True\<rparr>\<rparr>"

definition index_definitions :: "(string \<times> index_model list) list" where
  "index_definitions =
     [(repositoriesCollection,
        [unique_index ''repository_id'', unique_index ''name'', unique_index ''path'']),
      (agentsCollection,
        [unique_index ''agent_id'', unique_index ''name'', plain_index [(''runtime'', 1)]]),
      (batchesCollection,
        [unique_index ''batch_id'', plain_index [(''repository_id'', 1)],
         plain_index [(''repository_id'', 1), (''status'', 1)],
         plain_index [(''repository_id'', 1), (''created_at'', - 1)]]),
      (taskRunsCollection,
        [unique_index ''run_id'', plain_index [(''batch_id'', 1)],
         plain_index [(''batch_id'', 1), (''status'', 1)], plain_index [(''repository_id'', 1)],
         plain_index [(''repository_id'', 1), (''started_at'', - 1)]]),
      (sessionEventsCollection,
        [plain_index [(''session_id'', 1), (''ingested_at'', 1)], plain_index [(''run_id'', 1)]])]"

fun normalize_models :: "string \<Rightarrow> index_model list \<Rightarrow> go_error + index_model list" where
  "normalize_models coll [] = Inr []"
| "normalize_models coll (model # models) =
     (case normalizeIndexModel model of
        Inl e \<Rightarrow> Inl (Wrapf (''normalize index for '' @ coll) e)
      | Inr n \<Rightarrow> (case normalize_models coll models of Inl e \<Rightarrow> Inl e | Inr ns \<Rightarrow> Inr (n # ns)))"

text \<open>The loop over the definitions; \<open>present\<close> tells which collections of the client are set.\<close>

fun ensure_all ::
    "'m index_driver \<Rightarrow> (string \<Rightarrow> bool) \<Rightarrow> ctx \<Rightarrow> (string \<times> index_model list) list \<Rightarrow> ('m, go_error option) act" where
  "ensure_all ix present c [] m = (None, m)"
| "ensure_all ix present c ((coll, models) # defs) m =
     (if \<not> present coll then (Some (Errorf (''collection '' @ coll @ '' is not initialized'')), m)
      else if models = [] then ensure_all ix present c defs m
      else case normalize_models coll models of
          Inl e \<Rightarrow> (Some e, m)
        | Inr ns \<Rightarrow>
            (case createIndexes ix c coll ns m of
               (Some e, m1) \<Rightarrow> (Some e, m1)
             | (None, m1) \<Rightarrow> ensure_all ix present c defs m1))"

definition ensureIndexes :: "'m index_driver \<Rightarrow> (string \<Rightarrow> bool) \<Rightarrow> ctx \<Rightarrow> ('m, go_error option) act" where
  "ensureIndexes ix present c m = ensure_all ix present (withTimeout c) index_definitions m"

text \<open>\<^verbatim>\<open>New\<close>: the client has all five collections; the indexes are created in a context of their own.\<close>

definition mongo_New :: "'m index_driver \<Rightarrow> ctx \<Rightarrow> string \<Rightarrow> string \<Rightarrow> ('m, go_error option) act" where
  "mongo_New ix c uri dbName m =
     (if uri = [] then (Some (Errorf ''mongo uri is required''), m)
      else if dbName = [] then (Some (Errorf ''mongo database name is required''), m)
      else case ix_Connect ix (CtxWithTimeout defaultTimeout c) uri m of
          (Some e, m1) \<Rightarrow> (Some (Wrapf ''connect mongo'' e), m1)
        | (None, m1) \<Rightarrow> ensureIndexes ix (\<lambda>coll. True) (CtxBase 0) m1)"

definition mongo_Close :: "'m index_driver \<Rightarrow> ctx \<Rightarrow> ('m, go_error option) act" where
  "mongo_Close ix c m =
     (case ix_Disconnect ix (withTimeout c) m of
        (Some e, m1) \<Rightarrow>
          (if err_is e ErrClientDisconnected then (None, m1) else (Some (Wrapf ''disconnect mongo'' e), m1))
      | (None, m1) \<Rightarrow> (None, m1))"

text \<open>The names under which the indexes are kept are those MongoDB would choose, and differ per collection.\<close>

lemma index_names:
  "map (\<lambda>(coll, models). (coll, map indexModelName models)) index_definitions =
     [(''repositories'', [Inr ''repository_id_1'', Inr ''name_1'', Inr ''path_1'']),
      (''agents'', [Inr ''agent_id_1'', Inr ''name_1'', Inr ''runtime_1'']),
      (''batches'', [Inr ''batch_id_1'', Inr ''repository_id_1'', Inr ''repository_id_1_status_1'',
         Inr ''repository_id_1_created_at_-1'']),
      (''task_runs'', [Inr ''run_id_1'', Inr ''batch_id_1'', Inr ''batch_id_1_status_1'', Inr ''repository_id_1'',
         Inr ''repository_id_1_started_at_-1'']),
      (''session_events'', [Inr ''session_id_1_ingested_at_1'', Inr ''run_id_1''])]"
  by code_simp

end
