(* ===== verification/Mongo_Unique.thy ===== *)
theory Mongo_Unique
  imports Mongo_Indexes
begin

text \<open>
  What the unique indexes give: once the client has been built, no operation of it makes two documents of a
  collection share an identifier, whatever happens to the writes.  The server enforces an index in
  the single write (\<open>server_ok\<close>); that every operation of the client respects this is proved.
\<close>

section \<open>The server\<close>

definition unique_field :: "index_model \<Rightarrow> string option" where
  "unique_field model =
     (case (im_Keys model, im_Options model) of
        (KeysD [(k, v)], Some opts) \<Rightarrow> (if io_Unique opts then Some k else None)
      | _ \<Rightarrow> None)"

definition unique_fields :: "index_model list \<Rightarrow> string list" where
  "unique_fields models = List.map_filter unique_field models"

text \<open>The fields of each collection that the client's definitions make unique.\<close>

definition unique_keys :: "(string \<times> string) list" where
  "unique_keys = concat (map (\<lambda>(coll, models). map (Pair coll) (unique_fields models)) index_definitions)"

lemma unique_keys_eq:
  "unique_keys =
     [(''repositories'', ''repository_id''), (''repositories'', ''name''), (''repositories'', ''path''),
      (''agents'', ''agent_id''), (''agents'', ''name''), (''batches'', ''batch_id''), (''task_runs'', ''run_id'')]"
  by code_simp

definition distinct_on :: "string \<Rightarrow> doc list \<Rightarrow> bool" where
  "distinct_on fld ds \<longleftrightarrow> distinct (map (\<lambda>d. doc_field d fld) ds)"

text \<open>
  \<open>idx m k\<close> lists the indexes of collection \<open>k\<close>.  Documented behaviour: a write that would give two documents
  the value of a unique field changes nothing; a creation that reports no error has created the indexes,
  which for a unique one needs distinct values; calls on data leave indexes alone and calls on indexes
  leave data and the indexes of other collections alone.
\<close>

definition enforces :: "'m driver \<Rightarrow> ('m \<Rightarrow> string \<Rightarrow> doc list) \<Rightarrow> ('m \<Rightarrow> string \<Rightarrow> index_model list) \<Rightarrow> bool" where
  "enforces drv docs idx \<longleftrightarrow>
     (\<forall>c k d m r m' fld old. InsertOne drv c k d m = (r, m') \<longrightarrow> fld \<in> set (unique_fields (idx m k)) \<longrightarrow>
        old \<in> set (docs m k) \<longrightarrow> doc_field old fld = doc_field (bson_doc d) fld \<longrightarrow> docs m' = docs m) \<and>
     (\<forall>c k f d m r m' fld xs old ys other. UpdateOne drv c k f d m = (r, m') \<longrightarrow>
        fld \<in> set (unique_fields (idx m k)) \<longrightarrow>
        docs m k = xs @ old # ys \<longrightarrow> \<not> list_ex (matches f) xs \<longrightarrow> matches f old \<longrightarrow>
        other \<in> set (xs @ ys) \<longrightarrow> doc_field other fld = doc_field (set_doc old d) fld \<longrightarrow> docs m' = docs m)"

definition keeps_indexes :: "'m driver \<Rightarrow> ('m \<Rightarrow> string \<Rightarrow> index_model list) \<Rightarrow> bool" where
  "keeps_indexes drv idx \<longleftrightarrow>
     (\<forall>m. idx (snd (Now drv m)) = idx m) \<and>
     (\<forall>c k d m. idx (snd (InsertOne drv c k d m)) = idx m) \<and>
     (\<forall>c k f d m. idx (snd (UpdateOne drv c k f d m)) = idx m) \<and>
     (\<forall>c k f m. idx (snd (FindOne drv c k f m)) = idx m) \<and>
     (\<forall>c k f s l m. idx (snd (Find drv c k f s l m)) = idx m) \<and>
     (\<forall>c k f m. idx (snd (DeleteOne drv c k f m)) = idx m) \<and>
     (\<forall>c k f m. idx (snd (CountDocuments drv c k f m)) = idx m) \<and>
     (\<forall>c k f g m. idx (snd (GroupCount drv c k f g m)) = idx m)"

definition indexes_ok ::
    "'m index_driver \<Rightarrow> ('m \<Rightarrow> string \<Rightarrow> doc list) \<Rightarrow> ('m \<Rightarrow> string \<Rightarrow> index_model list) \<Rightarrow> bool" where
  "indexes_ok ix docs idx \<longleftrightarrow>
     (\<forall>c u m r m'. ix_Connect ix c u m = (r, m') \<longrightarrow> docs m' = docs m) \<and>
     (\<forall>c k n m r m'. ix_DropOne ix c k n m = (r, m') \<longrightarrow>
        docs m' = docs m \<and> (\<forall>j. j \<noteq> k \<longrightarrow> idx m' j = idx m j)) \<and>
     (\<forall>c k ms m r m'. ix_CreateMany ix c k ms m = (r, m') \<longrightarrow>
        docs m' = docs m \<and> (\<forall>j. j \<noteq> k \<longrightarrow> idx m' j = idx m j) \<and>
        (r = None \<longrightarrow> set ms \<subseteq> set (idx m' k) \<and> (\<forall>fld \<in> set (unique_fields ms). distinct_on fld (docs m k))))"

section \<open>The indexes are there\<close>

lemma create_many:
  assumes "indexes_ok ix docs idx" and "ix_CreateMany ix c k ms m = (r, m')"
  shows "docs m' = docs m" and "j \<noteq> k \<Longrightarrow> idx m' j = idx m j"
    and "r = None \<Longrightarrow> set ms \<subseteq> set (idx m' k)"
    and "r = None \<Longrightarrow> fld \<in> set (unique_fields ms) \<Longrightarrow> distinct_on fld (docs m k)"
  using assms unfolding indexes_ok_def by blast+

lemma drop_conflicting_frame:
  assumes "indexes_ok ix docs idx"
  shows "drop_conflicting ix c k ms m = (r, m') \<Longrightarrow> docs m' = docs m \<and> (\<forall>j. j \<noteq> k \<longrightarrow> idx m' j = idx m j)"
proof (induction ms arbitrary: m)
  case (Cons model ms)
  have drop: "ix_DropOne ix c k n m = (q, m1) \<Longrightarrow> docs m1 = docs m \<and> (\<forall>j. j \<noteq> k \<longrightarrow> idx m1 j = idx m j)" for n q m1
    using assms unfolding indexes_ok_def by blast
  from Cons show ?case
    by (auto split: option.splits prod.splits if_splits dest!: drop)
qed simp

text \<open>A creation that reports success has created what it was given, dropped or not.\<close>

lemma createIndexes_effect:
  assumes ok: "indexes_ok ix docs idx" and cr: "createIndexes ix c k ms m = (r, m')"
  shows "docs m' = docs m \<and> (\<forall>j. j \<noteq> k \<longrightarrow> idx m' j = idx m j) \<and>
    (r = None \<longrightarrow> set ms \<subseteq> set (idx m' k) \<and> (\<forall>fld \<in> set (unique_fields ms). distinct_on fld (docs m k)))"
proof -
  obtain q m1 where c1: "ix_CreateMany ix c k ms m = (q, m1)" by fastforce
  note f1 = create_many [OF ok c1]
  show ?thesis
  proof (cases q)
    case None
    with cr c1 f1 show ?thesis by (simp add: createIndexes_def Let_def)
  next
    case (Some e)
    obtain dr m2 where d: "drop_conflicting ix c k ms m1 = (dr, m2)" by fastforce
    note f2 = drop_conflicting_frame [OF ok d]
    obtain q3 m3 where c3: "ix_CreateMany ix c k ms m2 = (q3, m3)" by fastforce
    note f3 = create_many [OF ok c3]
    from cr c1 d c3 Some have "r \<noteq> None \<and> m' \<in> {m1, m2, m3} \<or> r = None \<and> q3 = None \<and> m' = m3"
      by (auto simp: createIndexes_def Let_def split: if_splits option.splits)
    with f1 f2 f3 show ?thesis by auto
  qed
qed

definition index_ok :: "('m \<Rightarrow> string \<Rightarrow> doc list) \<Rightarrow> ('m \<Rightarrow> string \<Rightarrow> index_model list) \<Rightarrow> 'm \<Rightarrow>
    string \<times> index_model list \<Rightarrow> bool" where
  "index_ok docs idx m def \<longleftrightarrow>
     (\<exists>ns. normalize_models (fst def) (snd def) = Inr ns \<and> set ns \<subseteq> set (idx m (fst def))) \<and>
     (\<forall>fld \<in> set (unique_fields (snd def)). distinct_on fld (docs m (fst def)))"

lemma unique_field_alt:
  "unique_field model =
     (case im_Options model of
        None \<Rightarrow> None
      | Some opts \<Rightarrow> (if io_Unique opts then (case im_Keys model of KeysD [(k, v)] \<Rightarrow> Some k | _ \<Rightarrow> None) else None))"
  by (cases "im_Options model"; cases "im_Keys model")
    (auto simp: unique_field_def split: list.split)

lemma unique_field_normalized: "normalizeIndexModel model = Inr n \<Longrightarrow> unique_field n = unique_field model"
  by (auto simp: normalizeIndexModel_def unique_field_alt Let_def split: sum.splits option.splits)

lemma unique_fields_normalized: "normalize_models coll ms = Inr ns \<Longrightarrow> unique_fields ns = unique_fields ms"
  by (induction ms arbitrary: ns)
    (auto simp: unique_fields_def map_filter_simps unique_field_normalized split: sum.splits option.split)

lemma ensure_all_effect:
  assumes ok: "indexes_ok ix docs idx"
  shows "ensure_all ix p c defs m = (r, m') \<Longrightarrow> distinct (map fst defs) \<Longrightarrow> (\<forall>def \<in> set defs. snd def \<noteq> []) \<Longrightarrow>
    docs m' = docs m \<and> (\<forall>k. k \<notin> fst ` set defs \<longrightarrow> idx m' k = idx m k) \<and>
    (r = None \<longrightarrow> (\<forall>def \<in> set defs. index_ok docs idx m' def))"
proof (induction defs arbitrary: m)
  case (Cons def defs)
  obtain coll models where def: "def = (coll, models)" by fastforce
  show ?case
  proof (cases "p coll")
    case True
    then have ne: "models \<noteq> []" "p coll" using Cons.prems(3) def by auto
    show ?thesis
    proof (cases "normalize_models coll models")
      case (Inr ns)
      obtain q m1 where q: "createIndexes ix c coll ns m = (q, m1)" by fastforce
      note eff = createIndexes_effect [OF ok q]
      show ?thesis
      proof (cases q)
        case None
        with Cons.prems(1) def ne Inr q have rest: "ensure_all ix p c defs m1 = (r, m')" by simp
        have ih: "docs m' = docs m1 \<and> (\<forall>k. k \<notin> fst ` set defs \<longrightarrow> idx m' k = idx m1 k) \<and>
            (r = None \<longrightarrow> (\<forall>def \<in> set defs. index_ok docs idx m' def))"
          using Cons.IH [OF rest] Cons.prems(2,3) by simp
        moreover have "coll \<notin> fst ` set defs" using Cons.prems(2) def by simp
        ultimately have "index_ok docs idx m' def"
          using eff None Inr def unique_fields_normalized [OF Inr] by (simp add: index_ok_def)
        with ih eff def show ?thesis by auto
      qed (use Cons.prems(1) def ne Inr q eff in auto)
    qed (use Cons.prems(1) def ne in auto)
  qed (use Cons.prems(1) def in auto)
qed simp

definition indexed :: "('m \<Rightarrow> string \<Rightarrow> doc list) \<Rightarrow> ('m \<Rightarrow> string \<Rightarrow> index_model list) \<Rightarrow> 'm \<Rightarrow> bool" where
  "indexed docs idx m \<longleftrightarrow> (\<forall>def \<in> set index_definitions. index_ok docs idx m def)"

lemma mongo_New_indexed:
  assumes "indexes_ok ix docs idx" and "mongo_New ix c uri dbName m = (None, m')"
  shows "indexed docs idx m' \<and> docs m' = docs m"
proof -
  obtain m1 where cn: "ix_Connect ix (CtxWithTimeout defaultTimeout c) uri m = (None, m1)"
    and en: "ensure_all ix (\<lambda>coll. True) (withTimeout (CtxBase 0)) index_definitions m1 = (None, m')"
    using assms(2) by (auto simp: mongo_New_def ensureIndexes_def split: if_splits prod.splits option.splits)
  have "docs m1 = docs m" using assms(1) cn unfolding indexes_ok_def by blast
  moreover have "distinct (map fst index_definitions)" by code_simp
  moreover have "\<forall>def \<in> set index_definitions. snd def \<noteq> []" by (simp add: index_definitions_def)
  ultimately show ?thesis
    using ensure_all_effect [OF assms(1) en] by (auto simp: indexed_def)
qed

section \<open>Writes keep identifiers unique\<close>

text \<open>The collection of a document, and what the client keeps true of the database.\<close>

fun doc_home :: "doc \<Rightarrow> string" where
  "doc_home (DocRepository r) = repositoriesCollection"
| "doc_home (DocAgent a) = agentsCollection"
| "doc_home (DocBatch b) = batchesCollection"
| "doc_home (DocRun r) = taskRunsCollection"
| "doc_home (DocEvent e) = sessionEventsCollection"

definition homed :: "('m \<Rightarrow> string \<Rightarrow> doc list) \<Rightarrow> 'm \<Rightarrow> bool" where
  "homed docs m \<longleftrightarrow> (\<forall>k. \<forall>d \<in> set (docs m k). doc_home d = k)"

definition ids_unique :: "('m \<Rightarrow> string \<Rightarrow> doc list) \<Rightarrow> ('m \<Rightarrow> string \<Rightarrow> index_model list) \<Rightarrow> 'm \<Rightarrow> bool" where
  "ids_unique docs idx m \<longleftrightarrow> homed docs m \<and> indexed docs idx m"

lemma doc_home_set [simp]: "doc_home (bson_doc d) = doc_home d" "doc_home (set_doc old d) = doc_home d"
  by (cases d; simp) (cases old; cases d; simp)

definition store_ok :: "'m driver \<Rightarrow> ('m \<Rightarrow> string \<Rightarrow> doc list) \<Rightarrow> ('m \<Rightarrow> string \<Rightarrow> index_model list) \<Rightarrow> bool" where
  "store_ok drv docs idx \<longleftrightarrow> driver_ok drv docs \<and> enforces drv docs idx \<and> keeps_indexes drv idx"

lemma store_okD: "store_ok drv docs idx \<Longrightarrow> driver_ok drv docs"
  by (simp add: store_ok_def)

lemma replace_first_split:
  "list_ex P zs \<Longrightarrow> \<exists>xs old ys. zs = xs @ old # ys \<and> \<not> list_ex P xs \<and> P old \<and> replace_first P f zs = xs @ f old # ys"
proof (induction zs)
  case (Cons z zs)
  show ?case
  proof (cases "P z")
    case True
    then show ?thesis by (intro exI [of _ "[]"] exI [of _ z] exI [of _ zs]) simp
  next
    case False
    with Cons obtain xs old ys where "zs = xs @ old # ys" "\<not> list_ex P xs" "P old"
      "replace_first P f zs = xs @ f old # ys" by auto
    with False show ?thesis by (intro exI [of _ "z # xs"] exI [of _ old] exI [of _ ys]) simp
  qed
qed simp

lemma delete_first_subseq: "subseq (delete_first P zs) zs"
  by (induction zs) auto

lemma distinct_on_replaced:
  "distinct_on fld (xs @ old # ys) \<Longrightarrow> (\<forall>other \<in> set (xs @ ys). doc_field other fld \<noteq> doc_field new fld) \<Longrightarrow>
     distinct_on fld (xs @ new # ys)"
  by (auto simp: distinct_on_def)

lemma subseq_distinct: "subseq xs ys \<Longrightarrow> distinct ys \<Longrightarrow> set xs \<subseteq> set ys \<and> distinct xs"
  by (induction rule: list_emb.induct) auto

lemma distinct_on_subseq: "subseq ds es \<Longrightarrow> distinct_on fld es \<Longrightarrow> distinct_on fld ds"
  unfolding distinct_on_def using subseq_map subseq_distinct by blast

lemma delete_first_set: "set (delete_first P zs) \<subseteq> set zs"
  by (induction zs) auto

text \<open>A change of one collection that keeps its unique fields distinct keeps everything.\<close>

lemma indexed_fields:
  assumes "indexed docs idx m" and "(k, models) \<in> set index_definitions" and "fld \<in> set (unique_fields models)"
  shows "fld \<in> set (unique_fields (idx m k))" and "distinct_on fld (docs m k)"
proof -
  from assms obtain ns where ns: "normalize_models k models = Inr ns" "set ns \<subseteq> set (idx m k)"
    and d: "distinct_on fld (docs m k)" by (fastforce simp: indexed_def index_ok_def)
  show "distinct_on fld (docs m k)" by (rule d)
  have "set (unique_fields ns) \<subseteq> set (unique_fields (idx m k))"
    using ns(2) by (auto simp: unique_fields_def List.map_filter_def)
  with unique_fields_normalized [OF ns(1)] assms(3) show "fld \<in> set (unique_fields (idx m k))" by auto
qed

lemma ids_unique_changed:
  assumes "ids_unique docs idx m" and "idx m' = idx m" and "docs m' = (docs m)(k := ds)"
    and "\<forall>d \<in> set ds. doc_home d = k"
    and "\<And>fld. fld \<in> set (unique_fields (idx m k)) \<Longrightarrow> distinct_on fld (docs m k) \<Longrightarrow> distinct_on fld ds"
  shows "ids_unique docs idx m'"
proof -
  have "index_ok docs idx m' def" if "def \<in> set index_definitions" for def
    using assms(1-3) assms(5) indexed_fields [of docs idx m "fst def" "snd def"] that
    by (auto simp: index_ok_def ids_unique_def indexed_def)
  then show ?thesis using assms(1,3,4) by (auto simp: ids_unique_def indexed_def homed_def)
qed

lemma ids_unique_same: "ids_unique docs idx m \<Longrightarrow> idx m' = idx m \<Longrightarrow> docs m' = docs m \<Longrightarrow> ids_unique docs idx m'"
  by (simp add: ids_unique_def homed_def indexed_def index_ok_def)

named_theorems keeps_unique \<open>calls that keep the identifiers unique\<close>

lemma now_keeps:
  assumes "store_ok drv docs idx" and "Now drv m = (t, m')" and "ids_unique docs idx m"
  shows "ids_unique docs idx m'"
proof (rule ids_unique_same [OF assms(3)])
  show "idx m' = idx m" using assms(1,2) unfolding store_ok_def keeps_indexes_def by (metis snd_conv)
  show "docs m' = docs m" by (rule driver_now [OF store_okD [OF assms(1)] assms(2)])
qed

lemma insert_keeps:
  assumes ok: "store_ok drv docs idx" and op: "mongo_insert drv c k what u d m = (r, m')" and "doc_home d = k"
    and inv: "ids_unique docs idx m"
  shows "ids_unique docs idx m'"
proof -
  obtain q m1 where q: "InsertOne drv (withTimeout c) k d m = (q, m1)" by fastforce
  with op have m1: "m1 = m'" by (auto simp: mongo_insert_def split: option.splits)
  have idx: "idx m' = idx m" using ok q m1 unfolding store_ok_def keeps_indexes_def by (metis snd_conv)
  from mongo_insert_docs [OF store_okD [OF ok] op]
  have cases: "docs m' = (docs m)(k := docs m k @ [bson_doc d]) \<or> docs m' = docs m" by blast
  show ?thesis
  proof (cases "docs m' = docs m")
    case False
    have "distinct_on fld (docs m k @ [bson_doc d])"
      if "fld \<in> set (unique_fields (idx m k))" "distinct_on fld (docs m k)" for fld
    proof -
      have "\<forall>old \<in> set (docs m k). doc_field old fld \<noteq> doc_field (bson_doc d) fld"
        using ok q m1 False that(1) unfolding store_ok_def enforces_def by blast
      with that(2) show ?thesis by (auto simp: distinct_on_def)
    qed
    moreover have "\<forall>x \<in> set (docs m k @ [bson_doc d]). doc_home x = k"
      using inv assms(3) by (auto simp: ids_unique_def homed_def)
    ultimately show ?thesis using ids_unique_changed [OF inv idx] cases False by blast
  qed (use ids_unique_same [OF inv idx] in simp)
qed

lemma update_keeps:
  assumes ok: "store_ok drv docs idx" and op: "mongo_update drv c k what u f d m = (r, m')" and "doc_home d = k"
    and inv: "ids_unique docs idx m"
  shows "ids_unique docs idx m'"
proof -
  obtain q m1 where q: "UpdateOne drv (withTimeout c) k f d m = (q, m1)" by fastforce
  with op have m1: "m1 = m'" by (auto simp: mongo_update_def split: sum.splits if_splits)
  have idx: "idx m' = idx m" using ok q m1 unfolding store_ok_def keeps_indexes_def by (metis snd_conv)
  let ?new = "replace_first (matches f) (\<lambda>old. set_doc old d) (docs m k)"
  from mongo_update_docs [OF store_okD [OF ok] op]
  have cases: "docs m' = (docs m)(k := ?new) \<or> docs m' = docs m" by blast
  show ?thesis
  proof (cases "docs m' = docs m")
    case False
    then have "list_ex (matches f) (docs m k)" using cases replace_first_none by fastforce
    then obtain xs old ys where sp: "docs m k = xs @ old # ys" "\<not> list_ex (matches f) xs" "matches f old"
      "?new = xs @ set_doc old d # ys" using replace_first_split by blast
    have "distinct_on fld ?new" if "fld \<in> set (unique_fields (idx m k))" "distinct_on fld (docs m k)" for fld
    proof -
      have "\<forall>other \<in> set (xs @ ys). doc_field other fld \<noteq> doc_field (set_doc old d) fld"
        using ok q m1 False that(1) sp(1-3) unfolding store_ok_def enforces_def by blast
      with that(2) sp show ?thesis by (metis distinct_on_replaced)
    qed
    moreover have "\<forall>x \<in> set ?new. doc_home x = k"
      using inv assms(3) sp by (auto simp: ids_unique_def homed_def)
    ultimately show ?thesis using ids_unique_changed [OF inv idx] cases False by blast
  qed (use ids_unique_same [OF inv idx] in simp)
qed

lemma delete_keeps:
  assumes ok: "store_ok drv docs idx" and op: "mongo_delete drv c k what f m = (r, m')" and inv: "ids_unique docs idx m"
  shows "ids_unique docs idx m'"
proof -
  obtain q m1 where q: "DeleteOne drv (withTimeout c) k f m = (q, m1)" by fastforce
  with op have m1: "m1 = m'" by (auto simp: mongo_delete_def split: sum.splits if_splits)
  have idx: "idx m' = idx m" using ok q m1 unfolding store_ok_def keeps_indexes_def by (metis snd_conv)
  have "delete_ok drv docs" using ok by (simp add: store_ok_def driver_ok_def)
  with q m1 have "let done = (docs m)(k := delete_first (matches f) (docs m k))
      in (case q of
            Inr n \<Rightarrow> docs m' = done \<and> (n = 0 \<longleftrightarrow> \<not> list_ex (matches f) (docs m k))
          | Inl e \<Rightarrow> docs m' = docs m \<or> docs m' = done)"
    unfolding delete_ok_def by blast
  then have cases: "docs m' = (docs m)(k := delete_first (matches f) (docs m k)) \<or> docs m' = docs m"
    by (auto simp: Let_def split: sum.splits)
  have "\<forall>x \<in> set (delete_first (matches f) (docs m k)). doc_home x = k"
    using inv delete_first_set by (fastforce simp: ids_unique_def homed_def)
  then show ?thesis
    using cases ids_unique_changed [OF inv idx] ids_unique_same [OF inv idx] distinct_on_subseq [OF delete_first_subseq]
    by blast
qed

section \<open>Every operation of the client\<close>

lemma get_keeps:
  assumes "store_ok drv docs idx" and "mongo_get drv c k what f as m = (r, m')" and "ids_unique docs idx m"
  shows "ids_unique docs idx m'"
proof (rule ids_unique_same [OF assms(3)])
  obtain q m1 where q: "FindOne drv (withTimeout c) k f m = (q, m1)" by fastforce
  with assms(2) have "m1 = m'" by (auto simp: mongo_get_def split: sum.splits)
  then show "idx m' = idx m" using assms(1) q unfolding store_ok_def keeps_indexes_def by (metis snd_conv)
  show "docs m' = docs m" using mongo_get_docs [OF store_okD [OF assms(1)] assms(2)] by blast
qed

lemma list_keeps:
  assumes "store_ok drv docs idx" and "mongo_list drv c k w1 w2 w3 f s l as m = (r, m')" and "ids_unique docs idx m"
  shows "ids_unique docs idx m'"
proof (rule ids_unique_same [OF assms(3)])
  obtain q m1 where q: "Find drv (withTimeout c) k f s l m = (q, m1)" by fastforce
  with assms(2) have "m1 = m'" by (auto simp: mongo_list_def split: sum.splits)
  then show "idx m' = idx m" using assms(1) q unfolding store_ok_def keeps_indexes_def by (metis snd_conv)
  show "docs m' = docs m" by (rule mongo_list_docs [OF store_okD [OF assms(1)] assms(2)])
qed

lemma count_keeps:
  assumes "store_ok drv docs idx" and "CountDocuments drv c k f m = (r, m')" and "ids_unique docs idx m"
  shows "ids_unique docs idx m'"
proof (rule ids_unique_same [OF assms(3)])
  show "idx m' = idx m" using assms(1,2) unfolding store_ok_def keeps_indexes_def by (metis snd_conv)
  show "docs m' = docs m" using assms(1,2) unfolding store_ok_def driver_ok_def count_ok_def by blast
qed

lemma group_keeps:
  assumes "store_ok drv docs idx" and "GroupCount drv c k f g m = (r, m')" and "ids_unique docs idx m"
  shows "ids_unique docs idx m'"
proof (rule ids_unique_same [OF assms(3)])
  show "idx m' = idx m" using assms(1,2) unfolding store_ok_def keeps_indexes_def by (metis snd_conv)
  show "docs m' = docs m" using assms(1,2) unfolding store_ok_def driver_ok_def group_ok_def by blast
qed

lemma backfill_keeps:
  assumes "store_ok drv docs idx" and "backfill_repository drv c r m = (r', m')" and "ids_unique docs idx m"
  shows "ids_unique docs idx m'"
  using assms get_keeps [OF assms(1)]
  by (auto simp: backfill_repository_def mongo_GetBatch_def split: if_splits prod.splits sum.splits)

lemma counts_keeps:
  assumes "store_ok drv docs idx" and "fetchEventCounts drv c is m = (r, m')" and "ids_unique docs idx m"
  shows "ids_unique docs idx m'"
  using assms group_keeps [OF assms(1)] by (auto simp: fetchEventCounts_def split: if_splits prod.splits sum.splits)

lemma summarize_keeps:
  assumes "store_ok drv docs idx" and "summarize drv c runs m = (r, m')" and "ids_unique docs idx m"
  shows "ids_unique docs idx m'"
  using assms counts_keeps [OF assms(1)] by (auto simp: summarize_def split: prod.splits sum.splits)

text \<open>The same facts about the state a call leaves, as conditional rewrite rules.\<close>

lemma snd_keeps: "(\<And>r m'. x = (r, m') \<Longrightarrow> P m') \<Longrightarrow> P (snd x)"
  by (cases x) simp

lemma calls_keep [keeps_unique]:
  assumes "store_ok drv docs idx" and "ids_unique docs idx m"
  shows "ids_unique docs idx (snd (Now drv m))"
    and "doc_home d = k \<Longrightarrow> ids_unique docs idx (snd (mongo_insert drv c k what u d m))"
    and "doc_home d = k \<Longrightarrow> ids_unique docs idx (snd (mongo_update drv c k what u f d m))"
    and "ids_unique docs idx (snd (mongo_delete drv c k what f m))"
    and "ids_unique docs idx (snd (mongo_get drv c k what f as m))"
    and "ids_unique docs idx (snd (mongo_list drv c k w1 w2 w3 f s l as' m))"
    and "ids_unique docs idx (snd (CountDocuments drv c k f m))"
    and "ids_unique docs idx (snd (GroupCount drv c k f g m))"
    and "ids_unique docs idx (snd (backfill_repository drv c r m))"
    and "ids_unique docs idx (snd (fetchEventCounts drv c is m))"
    and "ids_unique docs idx (snd (summarize drv c runs m))"
  by (rule snd_keeps, blast intro: assms now_keeps insert_keeps update_keeps delete_keeps get_keeps list_keeps
      count_keeps group_keeps backfill_keeps counts_keeps summarize_keeps)+

text \<open>One call of an operation of the client, with any arguments and whatever it reports.\<close>

inductive client_call :: "'m driver \<Rightarrow> 'm \<Rightarrow> 'm \<Rightarrow> bool" for drv :: "'m driver" where
  "client_call drv m (snd (mongo_CreateRepository drv c r m))"
| "client_call drv m (snd (mongo_UpdateRepository drv c r m))"
| "client_call drv m (snd (mongo_GetRepository drv c i m))"
| "client_call drv m (snd (mongo_ListRepositories drv c m))"
| "client_call drv m (snd (mongo_DeleteRepository drv c i m))"
| "client_call drv m (snd (mongo_RepositoryHasActiveBatches drv c i m))"
| "client_call drv m (snd (mongo_CreateAgent drv c a m))"
| "client_call drv m (snd (mongo_UpdateAgent drv c a m))"
| "client_call drv m (snd (mongo_GetAgent drv c i m))"
| "client_call drv m (snd (mongo_ListAgents drv c m))"
| "client_call drv m (snd (mongo_DeleteAgent drv c i m))"
| "client_call drv m (snd (mongo_CreateBatch drv c b m))"
| "client_call drv m (snd (mongo_UpdateBatch drv c b m))"
| "client_call drv m (snd (mongo_GetBatch drv c i m))"
| "client_call drv m (snd (mongo_ListBatches drv c n m))"
| "client_call drv m (snd (mongo_ListBatchesByRepository drv c i s n m))"
| "client_call drv m (snd (mongo_CreateTaskRun drv c t m))"
| "client_call drv m (snd (mongo_UpdateTaskRun drv c t m))"
| "client_call drv m (snd (mongo_GetTaskRun drv c i m))"
| "client_call drv m (snd (mongo_ListTaskRuns drv c i m))"
| "client_call drv m (snd (mongo_ListTaskRunsByRepository drv c i m))"
| "client_call drv m (snd (mongo_InsertSessionEvent drv c e m))"
| "client_call drv m (snd (mongo_ListSessionEvents drv c i m))"
| "client_call drv m (snd (mongo_GetBatchProgress drv c i m))"

lemmas client_op_defs =
  mongo_CreateRepository_def mongo_UpdateRepository_def mongo_GetRepository_def mongo_ListRepositories_def
  mongo_DeleteRepository_def mongo_RepositoryHasActiveBatches_def mongo_CreateAgent_def mongo_UpdateAgent_def
  mongo_GetAgent_def mongo_ListAgents_def mongo_DeleteAgent_def mongo_CreateBatch_def mongo_UpdateBatch_def
  mongo_GetBatch_def mongo_ListBatches_def mongo_ListBatchesByRepository_def mongo_CreateTaskRun_def
  mongo_UpdateTaskRun_def mongo_GetTaskRun_def mongo_ListTaskRuns_def mongo_ListTaskRunsByRepository_def
  mongo_InsertSessionEvent_def mongo_ListSessionEvents_def mongo_GetBatchProgress_def

lemma client_call_keeps:
  assumes "client_call drv m m'" and "store_ok drv docs idx" and "ids_unique docs idx m"
  shows "ids_unique docs idx m'"
  using assms
  by (induction rule: client_call.induct)
    (simp_all add: keeps_unique client_op_defs Let_def case_prod_unfold split: sum.split)

text \<open>
  C11: Identifiers stay unique.  When the client could be built over a database whose collections hold only
  documents of their kind, then after any sequence of calls, failed ones included, no two documents of a
  collection have the same value of a field with a unique index: identifiers of repositories, agents,
  batches and runs, names of repositories and agents, paths.  In particular a batch identifier names one
  batch, and the indexes are still there.
\<close>

theorem ids_stay_unique:
  assumes "store_ok drv docs idx" and "indexes_ok ix docs idx" and "homed docs m"
    and "mongo_New ix c uri dbName m = (None, m1)" and "(client_call drv)\<^sup>*\<^sup>* m1 m2"
  shows "(\<forall>(k, fld) \<in> set unique_keys. distinct_on fld (docs m2 k)) \<and> unique_batches docs m2 \<and> indexed docs idx m2"
proof -
  have "ids_unique docs idx m1"
    using mongo_New_indexed [OF assms(2,4)] assms(3) by (simp add: ids_unique_def homed_def)
  with assms(5) have inv: "ids_unique docs idx m2"
    by (induction rule: rtranclp_induct) (auto intro: client_call_keeps [OF _ assms(1)])
  have dist: "distinct_on fld (docs m2 k)" if "(k, fld) \<in> set unique_keys" for k fld
    using that inv indexed_fields(2) [of docs idx m2 k _ fld]
    by (auto simp: unique_keys_def ids_unique_def)
  then have "distinct_on ''batch_id'' (docs m2 batchesCollection)" by (simp add: unique_keys_eq collections)
  moreover have "\<exists>b. d = DocBatch b" if "d \<in> set (docs m2 batchesCollection)" for d
    using inv that by (cases d) (auto simp: ids_unique_def homed_def collections dest!: spec bspec)
  ultimately have "unique_batches docs m2"
    by (fastforce simp: unique_batches_def distinct_on_def distinct_map inj_on_def batch_field_def)
  with dist inv show ?thesis by (auto simp: ids_unique_def)
qed

section \<open>A server with indexes\<close>

text \<open>The list database with indexes; a write that breaks one is refused.\<close>

record indexed_db = list_db +
  db_indexes :: "string \<Rightarrow> index_model list"

definition breaks :: "indexed_db \<Rightarrow> string \<Rightarrow> doc list \<Rightarrow> bool" where
  "breaks m k ds \<longleftrightarrow> \<not> list_all (\<lambda>fld. distinct_on fld ds) (unique_fields (db_indexes m k))"

definition indexed_driver :: "indexed_db driver" where
  "indexed_driver =
     list_driver
       \<lparr>InsertOne := (\<lambda>c k d m.
          if breaks m k (db_docs m k @ [bson_doc d]) then (Some (ErrDuplicateKey ''E11000''), m)
          else InsertOne list_driver c k d m),
        UpdateOne := (\<lambda>c k f d m.
          if breaks m k (replace_first (matches f) (\<lambda>old. set_doc old d) (db_docs m k))
          then (Inl (ErrDuplicateKey ''E11000''), m)
          else UpdateOne list_driver c k f d m)\<rparr>"

definition indexed_admin :: "indexed_db index_driver" where
  "indexed_admin =
     \<lparr>ix_Connect = (\<lambda>c u m. (None, m)), ix_Disconnect = (\<lambda>c m. (None, m)),
      ix_CreateMany = (\<lambda>c k ms m.
        if list_all (\<lambda>fld. distinct_on fld (db_docs m k)) (unique_fields ms)
        then (None, m\<lparr>db_indexes := (db_indexes m)(k := ms @ db_indexes m k)\<rparr>)
        else (Some (ErrCommand ''DuplicateKey'' ''E11000''), m)),
      ix_DropOne = (\<lambda>c k n m.
        (None, m\<lparr>db_indexes := (db_indexes m)(k := filter (\<lambda>i. given_name i \<noteq> Some n) (db_indexes m k))\<rparr>))\<rparr>"

lemma indexed_admin_ok: "indexes_ok indexed_admin db_docs db_indexes"
  by (auto simp: indexes_ok_def indexed_admin_def list_all_iff split: if_splits)

lemma indexed_driver_fields [simp]:
  "Now indexed_driver = Now list_driver" "FindOne indexed_driver = FindOne list_driver"
  "Find indexed_driver = Find list_driver" "DeleteOne indexed_driver = DeleteOne list_driver"
  "CountDocuments indexed_driver = CountDocuments list_driver" "GroupCount indexed_driver = GroupCount list_driver"
  by (simp_all add: indexed_driver_def)

lemma indexed_driver_ok: "driver_ok indexed_driver db_docs"
proof -
  have base: "driver_ok (list_driver :: indexed_db driver) db_docs" by (rule list_driver_ok)
  have "insert_ok indexed_driver db_docs"
    by (auto simp: insert_ok_def indexed_driver_def list_driver_def)
  moreover have "update_ok indexed_driver db_docs"
    by (auto simp: update_ok_def indexed_driver_def list_driver_def)
  ultimately show ?thesis
    using base by (simp add: driver_ok_def now_ok_def find_ok_def delete_ok_def count_ok_def group_ok_def)
qed

lemma indexed_driver_keeps: "keeps_indexes indexed_driver db_indexes"
  by (simp add: keeps_indexes_def indexed_driver_def list_driver_def)

lemma replace_first_at: "\<not> list_ex P xs \<Longrightarrow> P old \<Longrightarrow> replace_first P f (xs @ old # ys) = xs @ f old # ys"
  by (induction xs) auto

lemma breaks_dup:
  assumes "fld \<in> set (unique_fields (db_indexes m k))" and "other \<in> set (xs @ ys)"
    and "doc_field other fld = doc_field new fld"
  shows "breaks m k (xs @ new # ys)"
proof -
  let ?v = "\<lambda>d. doc_field d fld"
  have "?v new \<in> ?v ` set (xs @ ys)" using assms(2,3) by (metis imageI)
  then have "\<not> distinct (map ?v (xs @ new # ys))" by auto
  with assms(1) show ?thesis by (auto simp: breaks_def list_all_iff distinct_on_def)
qed

lemma indexed_driver_enforces: "enforces indexed_driver db_docs db_indexes"
  unfolding enforces_def
proof (intro conjI allI impI)
  fix c k d m r m' fld old
  assume "InsertOne indexed_driver c k d m = (r, m')" "fld \<in> set (unique_fields (db_indexes m k))"
    "old \<in> set (db_docs m k)" "doc_field old fld = doc_field (bson_doc d) fld"
  with breaks_dup [of fld m k old "db_docs m k" "[]" "bson_doc d"] show "db_docs m' = db_docs m"
    by (simp add: indexed_driver_def)
next
  fix c k f d m r m' fld xs old ys other
  assume "UpdateOne indexed_driver c k f d m = (r, m')" "fld \<in> set (unique_fields (db_indexes m k))"
    "db_docs m k = xs @ old # ys" "\<not> list_ex (matches f) xs" "matches f old"
    "other \<in> set (xs @ ys)" "doc_field other fld = doc_field (set_doc old d) fld"
  with breaks_dup [of fld m k other xs ys "set_doc old d"] show "db_docs m' = db_docs m"
    by (simp add: indexed_driver_def replace_first_at)
qed

lemma indexed_store_ok: "store_ok indexed_driver db_docs db_indexes"
  by (simp add: store_ok_def indexed_driver_ok indexed_driver_keeps indexed_driver_enforces)

definition empty_indexed :: indexed_db where
  "empty_indexed = \<lparr>db_docs = (\<lambda>k. []), db_clock = 1, db_indexes = (\<lambda>k. [])\<rparr>"

text \<open>The same batch is created twice: the second creation fails.\<close>

theorem ids_stay_unique_witness:
  "\<exists>m1 m2. mongo_New indexed_admin (CtxBase 0) ''mongodb://db'' ''ralph'' empty_indexed = (None, m1) \<and>
     m2 = snd (mongo_CreateBatch indexed_driver (CtxBase 0) demo_batch
            (snd (mongo_CreateBatch indexed_driver (CtxBase 0) demo_batch m1))) \<and>
     length (db_docs m2 batchesCollection) = 1 \<and> unique_batches db_docs m2"
proof -
  let ?n = "mongo_New indexed_admin (CtxBase 0) ''mongodb://db'' ''ralph'' empty_indexed"
  let ?m1 = "snd ?n"
  let ?m2 = "snd (mongo_CreateBatch indexed_driver (CtxBase 0) demo_batch
            (snd (mongo_CreateBatch indexed_driver (CtxBase 0) demo_batch ?m1)))"
  have "fst ?n = None" by code_simp
  then have n: "?n = (None, ?m1)" by (metis prod.collapse)
  have "(client_call indexed_driver)\<^sup>*\<^sup>* ?m1 ?m2"
    by (meson client_call.intros(12) rtranclp.rtrancl_into_rtrancl rtranclp.rtrancl_refl)
  moreover have "homed db_docs empty_indexed" by (simp add: homed_def empty_indexed_def)
  ultimately have "unique_batches db_docs ?m2"
    using ids_stay_unique [OF indexed_store_ok indexed_admin_ok _ n] by blast
  moreover have "length (db_docs ?m2 batchesCollection) = 1" by code_simp
  ultimately show ?thesis using n by blast
qed

end
