(* ===== verification/Startup.thy ===== *)
theory Startup
  imports Lifecycle Slack Beads Event_Bus Mongo_Unique
begin

text \<open>
  From the command line to a running service and back to the exit code: cmd/main.go, and of
  internal/app/app.go \<^verbatim>\<open>New\<close>, \<^verbatim>\<open>BuildWithOptions\<close>, \<^verbatim>\<open>logConfigValues\<close> and what \<^verbatim>\<open>Run\<close> returns, with the bus
  that the application and the worker share through the package variable of internal/consumer.  Package
  \<^verbatim>\<open>flag\<close> is modelled for the two string flags; loggers are left out.
\<close>

section \<open>The command line\<close>

record cliOptions =
  cli_ConfigPath :: string
  cli_LogLevel :: string

definition flag_set :: "string \<Rightarrow> string \<Rightarrow> cliOptions \<Rightarrow> cliOptions option" where
  "flag_set name v o' =
     (if name = ''config'' then Some (o'\<lparr>cli_ConfigPath := v\<rparr>)
      else if name = ''debug-level'' then Some (o'\<lparr>cli_LogLevel := v\<rparr>)
      else None)"

text \<open>The name of a flag and, after the first equals sign that is not at the front, its value.\<close>

fun split_flag :: "string \<Rightarrow> string \<times> string option" where
  "split_flag [] = ([], None)"
| "split_flag (c # cs) =
     (if c = CHR 0x3D then ([], Some cs) else (case split_flag cs of (n, v) \<Rightarrow> (c # n, v)))"

definition flag_body :: "string \<Rightarrow> string option" where
  "flag_body s =
     (if length s < 2 \<or> hd s \<noteq> CHR 0x2D then None
      else if s ! 1 = CHR 0x2D then Some (drop 2 s) else Some (drop 1 s))"

definition known_flags :: "string list" where
  "known_flags = [''config'', ''debug-level'']"

text \<open>\<^verbatim>\<open>FlagSet.Parse\<close>: flags up to the first other argument or a double dash.\<close>

function parse_flags :: "string list \<Rightarrow> cliOptions \<Rightarrow> go_error + cliOptions" where
  "parse_flags args o' =
     (case args of
        [] \<Rightarrow> Inr o'
      | s # rest \<Rightarrow>
          (case flag_body s of
             None \<Rightarrow> Inr o'
           | Some name \<Rightarrow>
               (if s = ''--'' then Inr o'
                else if name = [] \<or> hd name = CHR 0x2D \<or> hd name = CHR 0x3D then
                  Inl (Errorf (''bad flag syntax: '' @ s))
                else case split_flag name of
                    (n, v) \<Rightarrow>
                      (if n \<notin> set known_flags then
                         (if n = ''help'' \<or> n = ''h'' then Inl (Errorf ''flag: help requested'')
                          else Inl (Errorf (''flag provided but not defined: -'' @ n)))
                       else case v of
                           Some x \<Rightarrow> parse_flags rest (case flag_set n x o' of None \<Rightarrow> o' | Some o2 \<Rightarrow> o2)
                         | None \<Rightarrow>
                             (case rest of
                                [] \<Rightarrow> Inl (Errorf (''flag needs an argument: -'' @ n))
                              | x # rest' \<Rightarrow> parse_flags rest' (case flag_set n x o' of None \<Rightarrow> o' | Some o2 \<Rightarrow> o2))))))"
  by pat_completeness auto
termination
  by (relation "measure (\<lambda>(args, o'). length args)") auto

declare parse_flags.simps [simp del]

definition parseCLIOptions :: "(string \<Rightarrow> string) \<Rightarrow> string list \<Rightarrow> go_error + cliOptions" where
  "parseCLIOptions quote args =
     (case parse_flags args \<lparr>cli_ConfigPath = [], cli_LogLevel = ''info''\<rparr> of
        Inl e \<Rightarrow> Inl e
      | Inr opts \<Rightarrow>
          (let levelText = ToLower (TrimSpace (cli_LogLevel opts))
           in if levelText = [] \<or> levelText = ''info'' then Inr (opts\<lparr>cli_LogLevel := ''info''\<rparr>)
              else if levelText = ''warn'' \<or> levelText = ''debug'' then Inr (opts\<lparr>cli_LogLevel := levelText\<rparr>)
              else Inl (Errorf (''invalid debug-level '' @ quote (cli_LogLevel opts) @
                                '' (allowed: info, warn, debug)''))))"

definition args_of :: "cliOptions \<Rightarrow> string list" where
  "args_of o' = [''--config='' @ cli_ConfigPath o', ''-debug-level'', cli_LogLevel o']"

lemma parse_printed:
  "parse_flags (args_of o') o0 = Inr o'"
proof -
  have 1: "flag_body (''--config='' @ p) = Some (''config='' @ p)" "split_flag (''config='' @ p) = (''config'', Some p)" for p
    by (simp_all add: flag_body_def)
  have 2: "flag_body ''-debug-level'' = Some ''debug-level''" "split_flag ''debug-level'' = (''debug-level'', None)"
    by (simp_all add: flag_body_def)
  have "parse_flags (args_of o') o0 = parse_flags [''-debug-level'', cli_LogLevel o'] (o0\<lparr>cli_ConfigPath := cli_ConfigPath o'\<rparr>)"
    using 1 by (subst parse_flags.simps) (simp add: args_of_def known_flags_def flag_set_def)
  also have "\<dots> = parse_flags [] (o0\<lparr>cli_ConfigPath := cli_ConfigPath o', cli_LogLevel := cli_LogLevel o'\<rparr>)"
    using 2 by (subst parse_flags.simps) (simp add: known_flags_def flag_set_def)
  also have "\<dots> = Inr o'" by (subst parse_flags.simps) simp
  finally show ?thesis .
qed

lemma level_fixed:
  assumes "l \<in> {''info'', ''warn'', ''debug''}"
  shows "ToLower (TrimSpace l) = l"
proof -
  have "ToLower (TrimSpace ''info'') = ''info''" "ToLower (TrimSpace ''warn'') = ''warn''"
    "ToLower (TrimSpace ''debug'') = ''debug''" by code_simp+
  with assms show ?thesis by blast
qed

text \<open>
  Options survive being printed and parsed.  What the parser accepts has one of the three levels that
  the logger knows, and the arguments written from it, one flag with an equals sign and one without,
  are parsed to the same options, whatever the path contains.
\<close>

theorem cli_roundtrip:
  assumes "parseCLIOptions quote args = Inr opts"
  shows "cli_LogLevel opts \<in> {''info'', ''warn'', ''debug''} \<and> parseCLIOptions quote (args_of opts) = Inr opts"
proof -
  have l: "cli_LogLevel opts \<in> {''info'', ''warn'', ''debug''}"
    using assms by (auto simp: parseCLIOptions_def Let_def split: sum.splits if_splits)
  have "opts\<lparr>cli_LogLevel := cli_LogLevel opts\<rparr> = opts" by simp
  with l level_fixed [OF l] show ?thesis
    by (auto simp: parseCLIOptions_def parse_printed Let_def)
qed

theorem cli_roundtrip_witness:
  "\<exists>opts. parseCLIOptions (\<lambda>s. s) [''--debug-level'', '' WARN '', ''-config=a=b'', ''rest''] = Inr opts \<and>
     parseCLIOptions (\<lambda>s. s) (args_of opts) = Inr opts \<and> cli_ConfigPath opts = ''a=b''"
proof -
  have p: "parseCLIOptions (\<lambda>s. s) [''--debug-level'', '' WARN '', ''-config=a=b'', ''rest''] =
      Inr \<lparr>cli_ConfigPath = ''a=b'', cli_LogLevel = ''warn''\<rparr>"
    by code_simp
  from cli_roundtrip [OF p] p show ?thesis by auto
qed

section \<open>Building the service\<close>

text \<open>
  The event buses of the process, and the package variable \<^verbatim>\<open>sessionEventBus\<close>, a reference to one of
  them or nil.
\<close>

record 'm process =
  pr_sessionEventBus :: "nat option"
  pr_buses :: "event_bus list"
  pr_rest :: 'm

definition SessionEventBus :: "'m process \<Rightarrow> nat option" where
  "SessionEventBus p = pr_sessionEventBus p"

definition SetSessionEventBus :: "nat option \<Rightarrow> 'm process \<Rightarrow> 'm process" where
  "SetSessionEventBus b p = p\<lparr>pr_sessionEventBus := b\<rparr>"

text \<open>Both \<^verbatim>\<open>New\<close> and \<^verbatim>\<open>NewWorker\<close> take the bus that is set, and set a new one if there is none.\<close>

definition shared_bus :: "'m process \<Rightarrow> nat \<times> 'm process" where
  "shared_bus p =
     (case SessionEventBus p of
        Some i \<Rightarrow> (i, p)
      | None \<Rightarrow>
          (let i = length (pr_buses p)
           in (i, SetSessionEventBus (Some i) (p\<lparr>pr_buses := pr_buses p @ [NewMemoryBus default_bus_config]\<rparr>))))"

record http_server =
  hsv_Addr :: string
  hsv_ReadHeaderTimeout :: int

text \<open>The scheduler of an application comes with the parts of its worker.\<close>

record 'm wired_worker =
  ww_tracker :: "'m tracker"
  ww_storage :: "'m storage"
  ww_notifier :: "'m notifier"
  ww_codexClient :: "'m copilot_client"
  ww_bus :: nat

record 'm application =
  ap_cfg :: config
  ap_storage :: "'m storage"
  ap_tracker :: "'m tracker"
  ap_notifier :: "'m notifier"
  ap_copilot :: "'m copilot_client"
  ap_scheduler :: "(scheduler \<times> 'm wired_worker) option"
  ap_server :: http_server
  ap_closers :: "(ctx \<Rightarrow> ('m, go_error option) act) list"
  ap_started :: bool
  ap_eventBus :: nat

text \<open>\<open>closer\<close> is the \<^verbatim>\<open>Close\<close> method of the storage, if it has one.\<close>

definition app_New ::
    "config option \<Rightarrow> 'm storage option \<Rightarrow> (ctx \<Rightarrow> ('m, go_error option) act) option \<Rightarrow> 'm tracker option \<Rightarrow>
       'm notifier option \<Rightarrow> 'm copilot_client option \<Rightarrow> ('m process, go_error + 'm application) act" where
  "app_New cfg st closer tr nt cp p =
     (case cfg of
        None \<Rightarrow> (Inl (Errorf ''config is required''), p)
      | Some get \<Rightarrow>
     (case st of
        None \<Rightarrow> (Inl (Errorf ''storage is required''), p)
      | Some st' \<Rightarrow>
     (case tr of
        None \<Rightarrow> (Inl (Errorf ''tracker is required''), p)
      | Some tr' \<Rightarrow>
     (case nt of
        None \<Rightarrow> (Inl (Errorf ''notifier is required''), p)
      | Some nt' \<Rightarrow>
     (case cp of
        None \<Rightarrow> (Inl (Errorf ''copilot client is required''), p)
      | Some cp' \<Rightarrow>
          (case shared_bus p of
             (b, p1) \<Rightarrow>
               (let port = (case get PortKey of Inl e \<Rightarrow> ''8080'' | Inr v \<Rightarrow> (if v = [] then ''8080'' else v))
                in (Inr \<lparr>ap_cfg = get, ap_storage = st', ap_tracker = tr', ap_notifier = nt', ap_copilot = cp',
                         ap_scheduler = None,
                         ap_server = \<lparr>hsv_Addr = '':'' @ port, hsv_ReadHeaderTimeout = 5 * 10 ^ 9\<rparr>,
                         ap_closers = (case closer of None \<Rightarrow> [] | Some cl \<Rightarrow> [cl]),
                         ap_started = False, ap_eventBus = b\<rparr>,
                    p1))))))))"

definition SetScheduler :: "(scheduler \<times> 'm wired_worker) option \<Rightarrow> 'm application \<Rightarrow> 'm application" where
  "SetScheduler s a = a\<lparr>ap_scheduler := s\<rparr>"

text \<open>
  The constructors \<^verbatim>\<open>BuildWithOptions\<close> calls: the driver of the store, \<^verbatim>\<open>exec\<close> for Beads, the client of
  Slack, and a Codex client.
\<close>

record 'm parts =
  pt_index :: "'m index_driver"
  pt_driver :: "'m driver"
  pt_tracker :: "'m tracker"
  pt_slack :: "string \<Rightarrow> ctx \<Rightarrow> slack_payload \<Rightarrow> ('m, go_error + int) act"
  pt_codex :: "'m copilot_client"
  pt_ParseDuration :: "string \<Rightarrow> int option"

definition wire_worker ::
    "'m tracker \<Rightarrow> 'm copilot_client \<Rightarrow> 'm storage \<Rightarrow> 'm notifier \<Rightarrow> ('m process, 'm wired_worker) act" where
  "wire_worker tr cp st nt p =
     (case shared_bus p of
        (b, p1) \<Rightarrow> (\<lparr>ww_tracker = tr, ww_storage = st, ww_notifier = nt, ww_codexClient = cp, ww_bus = b\<rparr>, p1))"

definition BuildWithOptions :: "'m parts \<Rightarrow> ctx \<Rightarrow> config option \<Rightarrow> ('m process, go_error + 'm application) act" where
  "BuildWithOptions pt c cfg p =
     (case cfg of
        None \<Rightarrow> (Inl (Errorf ''config is required''), p)
      | Some get \<Rightarrow>
     (case get MongoURIKey of
        Inl e \<Rightarrow> (Inl (Wrapf ''get mongo uri'' e), p)
      | Inr mongoURI \<Rightarrow>
     (case get MongoDBKey of
        Inl e \<Rightarrow> (Inl (Wrapf ''get mongo db'' e), p)
      | Inr mongoDB \<Rightarrow>
     (case mongo_New (pt_index pt) c mongoURI mongoDB (pr_rest p) of
        (Some e, m) \<Rightarrow> (Inl (Wrapf ''init mongo storage'' e), p\<lparr>pr_rest := m\<rparr>)
      | (None, m) \<Rightarrow>
          (let p1 = p\<lparr>pr_rest := m\<rparr>; st = mongo_storage (pt_driver pt)
           in case NewSlack (pt_slack pt) cfg of
                Inl e \<Rightarrow> (Inl (Wrapf ''init notifier'' e), p1)
              | Inr nt \<Rightarrow>
                  (case app_New cfg (Some st) (Some (mongo_Close (pt_index pt))) (Some (pt_tracker pt)) (Some nt)
                      (Some (pt_codex pt)) p1 of
                     (Inl e, p2) \<Rightarrow> (Inl e, p2)
                   | (Inr application, p2) \<Rightarrow>
                       (case wire_worker (pt_tracker pt) (pt_codex pt) st nt p2 of
                          (worker, p3) \<Rightarrow>
                            (let s = scheduler_New (schedulerOptionsFromConfig (pt_ParseDuration pt) cfg)
                             in (Inr (SetScheduler (Some (s, worker)) application), p3)))))))))"

definition logConfigValues :: "config \<Rightarrow> (string \<times> string) list" where
  "logConfigValues get =
     map (\<lambda>key. (key, case get key of Inl e \<Rightarrow> ''<missing>'' | Inr value \<Rightarrow> value)) LoggableKeys"

lemma NewSlack_some: "\<exists>nt. NewSlack http (Some get) = Inr nt"
  by (simp add: NewSlack_def Let_def)

lemma shared_twice: "shared_bus p = (b, p1) \<Longrightarrow> shared_bus p1 = (b, p1)"
  by (auto simp: shared_bus_def SessionEventBus_def SetSessionEventBus_def Let_def split: option.splits)

lemma shared_bus_result:
  assumes "shared_bus p = (b, p1)"
  shows "b = (case SessionEventBus p of None \<Rightarrow> length (pr_buses p) | Some i \<Rightarrow> i)"
    and "SessionEventBus p1 = Some b" and "pr_rest p1 = pr_rest p"
    and "pr_buses p1 = pr_buses p @ (if SessionEventBus p = None then [NewMemoryBus default_bus_config] else [])"
  using assms by (auto simp: shared_bus_def SessionEventBus_def SetSessionEventBus_def Let_def split: option.splits)

lemma secret_not_loggable: "SlackWebhookKey \<notin> fst ` set (logConfigValues get)"
proof -
  have "fst ` set (logConfigValues get) = set LoggableKeys" by (simp add: logConfigValues_def image_image)
  moreover have "SlackWebhookKey \<notin> set LoggableKeys" by (simp add: LoggableKeys_def config_keys)
  ultimately show ?thesis by simp
qed

lemma build_result:
  assumes "get MongoURIKey = Inr uri" and "get MongoDBKey = Inr db" and "get PortKey = Inr port" and "port \<noteq> []"
    and "mongo_New (pt_index pt) c uri db (pr_rest p) = (None, m)" and "shared_bus (p\<lparr>pr_rest := m\<rparr>) = (b, p2)"
    and "NewSlack (pt_slack pt) (Some get) = Inr nt"
  shows "BuildWithOptions pt c (Some get) p =
    (Inr \<lparr>ap_cfg = get, ap_storage = mongo_storage (pt_driver pt), ap_tracker = pt_tracker pt, ap_notifier = nt,
       ap_copilot = pt_codex pt,
       ap_scheduler = Some (scheduler_New (schedulerOptionsFromConfig (pt_ParseDuration pt) (Some get)),
         \<lparr>ww_tracker = pt_tracker pt, ww_storage = mongo_storage (pt_driver pt), ww_notifier = nt,
          ww_codexClient = pt_codex pt, ww_bus = b\<rparr>),
       ap_server = \<lparr>hsv_Addr = '':'' @ port, hsv_ReadHeaderTimeout = 5 * 10 ^ 9\<rparr>,
       ap_closers = [mongo_Close (pt_index pt)], ap_started = False, ap_eventBus = b\<rparr>, p2)"
  using assms shared_twice [OF assms(6)]
  by (simp add: BuildWithOptions_def app_New_def wire_worker_def SetScheduler_def Let_def)

text \<open>
  C17: A loaded configuration builds the service.  Whatever was loaded, building fails only with the
  error of the store.  The service listens on the configured port; the handlers and the worker
  have the same store, tracker and notifier, and publish and subscribe on the same bus, the one that was
  set before or else a new one; the store is closed at the end; the scheduler does not drain and
  allows an attempt; the webhook address is not among the values logged.
\<close>

theorem loaded_config_builds:
  assumes "LoadWithPath env read unmarshal path = Loaded vs ls"
  shows "\<exists>uri db port. Get vs MongoURIKey = Inr uri \<and> Get vs MongoDBKey = Inr db \<and> Get vs PortKey = Inr port \<and>
    (case mongo_New (pt_index pt) c uri db (pr_rest p) of
       (Some e, m) \<Rightarrow> BuildWithOptions pt c (Some (Get vs)) p = (Inl (Wrapf ''init mongo storage'' e), p\<lparr>pr_rest := m\<rparr>)
     | (None, m) \<Rightarrow>
         \<exists>a p' s w. BuildWithOptions pt c (Some (Get vs)) p = (Inr a, p') \<and> pr_rest p' = m \<and>
           ap_scheduler a = Some (s, w) \<and> hsv_Addr (ap_server a) = '':'' @ port \<and>
           ap_storage a = mongo_storage (pt_driver pt) \<and> ww_storage w = ap_storage a \<and>
           ww_tracker w = ap_tracker a \<and> ww_notifier w = ap_notifier a \<and> ap_closers a = [mongo_Close (pt_index pt)] \<and>
           ww_bus w = ap_eventBus a \<and> SessionEventBus p' = Some (ap_eventBus a) \<and>
           ap_eventBus a = (case SessionEventBus p of None \<Rightarrow> length (pr_buses p) | Some i \<Rightarrow> i) \<and>
           pr_buses p' = pr_buses p @ (if SessionEventBus p = None then [NewMemoryBus default_bus_config] else []) \<and>
           1 \<le> sc_maxRetries s \<and> 0 < sc_interval s \<and> \<not> sc_draining s \<and>
           SlackWebhookKey \<notin> fst ` set (logConfigValues (ap_cfg a)))"
proof -
  have "MongoURIKey \<in> set requiredKeys" "MongoDBKey \<in> set requiredKeys" "PortKey \<in> set requiredKeys"
    by (simp_all add: requiredKeys_def)
  with loaded_complete [OF assms] obtain uri db port where
    u: "Get vs MongoURIKey = Inr uri" and d: "Get vs MongoDBKey = Inr db" and
    po: "Get vs PortKey = Inr port" "TrimSpace port \<noteq> []"
    by meson
  have port: "port \<noteq> []" using po(2) by auto
  obtain r m where n: "mongo_New (pt_index pt) c uri db (pr_rest p) = (r, m)" by fastforce
  show ?thesis
  proof (cases r)
    case (Some e)
    with u d n po show ?thesis by (simp add: BuildWithOptions_def)
  next
    case None
    let ?p1 = "p\<lparr>pr_rest := m\<rparr>"
    obtain nt where nt: "NewSlack (pt_slack pt) (Some (Get vs)) = Inr nt" using NewSlack_some by blast
    obtain b p2 where b: "shared_bus ?p1 = (b, p2)" by fastforce
    let ?s = "scheduler_New (schedulerOptionsFromConfig (pt_ParseDuration pt) (Some (Get vs)))"
    note built = build_result [OF u d po(1) port n [unfolded None] b nt]
    have s: "1 \<le> sc_maxRetries ?s" "0 < sc_interval ?s" "\<not> sc_draining ?s"
      using options_positive [of "pt_ParseDuration pt" "Some (Get vs)"] by (simp_all add: scheduler_New_def)
    have "SessionEventBus ?p1 = SessionEventBus p" by (simp add: SessionEventBus_def)
    with shared_bus_result [OF b] have
      "b = (case SessionEventBus p of None \<Rightarrow> length (pr_buses p) | Some i \<Rightarrow> i)" "SessionEventBus p2 = Some b"
      "pr_rest p2 = m" "pr_buses p2 = pr_buses p @ (if SessionEventBus p = None then [NewMemoryBus default_bus_config] else [])"
      by (simp_all split: option.split)
    with u d n po None built s secret_not_loggable show ?thesis by simp
  qed
qed

definition demo_parts :: "indexed_db parts" where
  "demo_parts =
     \<lparr>pt_index = indexed_admin, pt_driver = indexed_driver,
      pt_tracker = \<lparr>AddComment = (\<lambda>c rp r t w. (None, w)), FetchComments = (\<lambda>c rp r w. (Inr [], w)),
                    GetTitle = (\<lambda>c rp r w. (Inr r, w))\<rparr>,
      pt_slack = (\<lambda>u c m w. (Inr 200, w)),
      pt_codex = \<lparr>StartSession = (\<lambda>c rp pr w. (Inl (Errorf ''no wrapper''), w)), SelectEvent = (\<lambda>c h w. (SelClosed, w)),
                  StopSession = (\<lambda>h w. w)\<rparr>,
      pt_ParseDuration = (\<lambda>v. if v = ''10s'' then Some 10000000000 else None)\<rparr>"

definition demo_process :: "indexed_db process" where
  "demo_process = \<lparr>pr_sessionEventBus = None, pr_buses = [], pr_rest = empty_indexed\<rparr>"

lemma demo_get:
  fixes vs defines "vs \<equiv> effective (demo_vars ''x'') demo_file"
  shows "demo_load ''x'' = Loaded vs (concat (map (override_entry (demo_vars ''x'') demo_file) envOverrideKeys))"
    and "Get vs MongoURIKey = Inr ''mongodb://db''" and "Get vs MongoDBKey = Inr ''ralph''" and "Get vs PortKey = Inr ''9090''"
proof -
  obtain vs' ls where l: "demo_load ''x'' = Loaded vs' ls" using demo_loaded by blast
  with Load_cases [OF demo_json, of "''x''"]
  show "demo_load ''x'' = Loaded vs (concat (map (override_entry (demo_vars ''x'') demo_file) envOverrideKeys))"
    by (auto simp: demo_load_def Let_def vs_def split: if_splits)
  show "Get vs MongoURIKey = Inr ''mongodb://db''" "Get vs MongoDBKey = Inr ''ralph''" "Get vs PortKey = Inr ''9090''"
    using Get_effective [OF meta_eq_to_obj_eq [OF vs_def]]
    by (simp_all add: effective_def configured_def demo_vars_values demo_file_values envOverrideKeys_def)
qed

lemma demo_new:
  "\<exists>m. mongo_New indexed_admin (CtxBase 0) ''mongodb://db'' ''ralph'' empty_indexed = (None, m)"
proof -
  have "fst (mongo_New indexed_admin (CtxBase 0) ''mongodb://db'' ''ralph'' empty_indexed) = None" by code_simp
  then show ?thesis by (metis prod.collapse)
qed

theorem loaded_config_builds_witness:
  "\<exists>vs ls a p'. demo_load ''x'' = Loaded vs ls \<and>
     BuildWithOptions demo_parts (CtxBase 0) (Some (Get vs)) demo_process = (Inr a, p') \<and>
     hsv_Addr (ap_server a) = '':9090'' \<and> length (pr_buses p') = 1"
proof -
  obtain m where m: "mongo_New indexed_admin (CtxBase 0) ''mongodb://db'' ''ralph'' empty_indexed = (None, m)"
    using demo_new by blast
  have d: "pt_index demo_parts = indexed_admin" "pr_rest demo_process = empty_indexed" "pr_buses demo_process = []"
    "SessionEventBus demo_process = None"
    by (simp_all add: demo_parts_def demo_process_def SessionEventBus_def)
  from loaded_config_builds [OF demo_get(1) [unfolded demo_load_def], of demo_parts "CtxBase 0" demo_process] demo_get m d
  have "\<exists>a p'. BuildWithOptions demo_parts (CtxBase 0) (Some (Get (effective (demo_vars ''x'') demo_file))) demo_process = (Inr a, p') \<and>
     hsv_Addr (ap_server a) = '':9090'' \<and> length (pr_buses p') = 1"
    by fastforce
  with demo_get(1) show ?thesis by blast
qed

section \<open>Run and its result\<close>

definition ErrServerClosed :: go_error where
  "ErrServerClosed = Errorf ''http: Server closed''"

datatype run_pc = RunSelect | RunShutdown | RunWait | RunReturned "go_error option"

text \<open>
  A run: where \<^verbatim>\<open>Run\<close> is, the channel \<^verbatim>\<open>errCh\<close>, whether the goroutines of the server and of the scheduler
  loop are alive, whether the context is done, and whether the server was shut down.  Two fields are
  there for the proofs: the failure of the server, and whether somebody else asked for the end, a signal or a
  restart.
\<close>

record 'm run_state =
  rn_pc :: run_pc
  rn_errCh :: "go_error list"
  rn_serving :: bool
  rn_looping :: bool
  rn_cancelled :: bool
  rn_shut :: bool
  rn_sched :: "scheduler option"
  rn_world :: 'm
  rn_failed :: "go_error option"
  rn_requested :: bool

text \<open>The guard against a second run, and the state in which the goroutines start.\<close>

definition Run_begin :: "'m application \<Rightarrow> 'm \<Rightarrow> (go_error + 'm run_state) \<times> 'm application" where
  "Run_begin a m =
     (if ap_started a then (Inl (Errorf ''app already running''), a)
      else (Inr \<lparr>rn_pc = RunSelect, rn_errCh = [], rn_serving = True, rn_looping = (ap_scheduler a \<noteq> None),
                 rn_cancelled = False, rn_shut = False, rn_sched = map_option fst (ap_scheduler a), rn_world = m,
                 rn_failed = None, rn_requested = False\<rparr>,
            a\<lparr>ap_started := True\<rparr>))"

text \<open>The goroutine of the server: what \<^verbatim>\<open>ListenAndServe\<close> returned.\<close>

definition serve_done :: "go_error option \<Rightarrow> 'm run_state \<Rightarrow> 'm run_state" where
  "serve_done r s =
     (case r of
        None \<Rightarrow> s\<lparr>rn_serving := False\<rparr>
      | Some e \<Rightarrow>
          (if err_is e ErrServerClosed then s\<lparr>rn_serving := False\<rparr>
           else s\<lparr>rn_serving := False, rn_errCh := rn_errCh s @ [e], rn_failed := Some e\<rparr>))"

fun close_all :: "(ctx \<Rightarrow> ('m, go_error option) act) list \<Rightarrow> ctx \<Rightarrow> 'm \<Rightarrow> 'm" where
  "close_all [] c m = m"
| "close_all (closer # closers) c m = close_all closers c (snd (closer c m))"

text \<open>From the end of the \<^verbatim>\<open>select\<close> to the wait for the goroutines.\<close>

definition run_stop :: "'m application \<Rightarrow> 'm run_state \<Rightarrow> 'm run_state" where
  "run_stop a s =
     s\<lparr>rn_pc := RunWait, rn_sched := map_option (\<lambda>sc. snd (scheduler_Stop sc)) (rn_sched s), rn_shut := True,
       rn_world := close_all (ap_closers a) (CtxWithTimeout (10 * 10 ^ 9) (CtxBase 0)) (rn_world s)\<rparr>"

definition final_error :: "'m run_state \<Rightarrow> go_error option" where
  "final_error s = (case rn_errCh s of [] \<Rightarrow> None | e # es \<Rightarrow> Some e)"

text \<open>
  \<^verbatim>\<open>ListenAndServe\<close> returns an error always, and \<^verbatim>\<open>ErrServerClosed\<close> only after a shutdown.  The scheduler
  and the requests act on the world as they may.
\<close>

inductive run_step :: "'m application \<Rightarrow> 'm run_state \<Rightarrow> 'm run_state \<Rightarrow> bool" for a where
  run_served: "rn_serving s \<Longrightarrow> err_is e ErrServerClosed \<longrightarrow> rn_shut s \<Longrightarrow> run_step a s (serve_done (Some e) s)"
| run_request: "run_step a s (s\<lparr>rn_cancelled := True, rn_requested := True\<rparr>)"
| run_loop_done: "rn_looping s \<Longrightarrow> rn_cancelled s \<Longrightarrow> run_step a s (s\<lparr>rn_looping := False\<rparr>)"
| run_work: "sc = None \<longleftrightarrow> rn_sched s = None \<Longrightarrow> run_step a s (s\<lparr>rn_world := m, rn_sched := sc\<rparr>)"
| run_done: "rn_pc s = RunSelect \<Longrightarrow> rn_cancelled s \<Longrightarrow> run_step a s (s\<lparr>rn_pc := RunShutdown\<rparr>)"
| run_err: "rn_pc s = RunSelect \<Longrightarrow> rn_errCh s = e # es \<Longrightarrow>
     run_step a s (s\<lparr>rn_pc := RunShutdown, rn_errCh := es, rn_cancelled := True\<rparr>)"
| run_shutdown: "rn_pc s = RunShutdown \<Longrightarrow> run_step a s (run_stop a s)"
| run_return: "rn_pc s = RunWait \<Longrightarrow> \<not> rn_serving s \<Longrightarrow> \<not> rn_looping s \<Longrightarrow>
     run_step a s (s\<lparr>rn_pc := RunReturned (final_error s)\<rparr>)"

inductive run_reach :: "'m application \<Rightarrow> 'm \<Rightarrow> 'm run_state \<Rightarrow> bool" for a m where
  run_start: "Run_begin a m = (Inr s, a') \<Longrightarrow> run_reach a m s"
| run_next: "run_reach a m s \<Longrightarrow> run_step a s s' \<Longrightarrow> run_reach a m s'"

text \<open>
  While the server serves it has not failed; its error is in the channel until the \<^verbatim>\<open>select\<close> takes it; a
  run that nobody asked to end has left the \<^verbatim>\<open>select\<close> only with that error.
\<close>

definition run_ok :: "'m run_state \<Rightarrow> bool" where
  "run_ok s \<longleftrightarrow>
     (rn_serving s \<longrightarrow> rn_failed s = None) \<and>
     (\<forall>e. rn_failed s = Some e \<longrightarrow> rn_errCh s \<in> {[], [e]}) \<and> (rn_failed s = None \<longrightarrow> rn_errCh s = []) \<and>
     (\<not> rn_requested s \<longrightarrow> (rn_pc s = RunSelect \<longrightarrow> \<not> rn_cancelled s \<and> \<not> rn_shut s) \<and>
        (rn_pc s \<noteq> RunSelect \<longrightarrow> rn_failed s \<noteq> None \<and> rn_errCh s = [])) \<and>
     (\<forall>r. rn_pc s = RunReturned r \<longrightarrow> \<not> rn_serving s \<and> r \<in> {None, rn_failed s} \<and> (r \<noteq> None \<longrightarrow> rn_requested s))"

lemma run_step_ok: "run_step a s s' \<Longrightarrow> run_ok s \<Longrightarrow> run_ok s'"
proof (induction rule: run_step.induct)
  case (run_served s e)
  then show ?case by (auto simp: run_ok_def serve_done_def)
next
  case (run_err s e es)
  then show ?case by (cases "rn_failed s") (auto simp: run_ok_def)
next
  case (run_return s)
  then show ?case by (cases "rn_failed s") (auto simp: run_ok_def final_error_def)
qed (auto simp: run_ok_def run_stop_def)

lemma run_begin_ok: "Run_begin a m = (Inr s, a') \<Longrightarrow> run_ok s"
  by (auto simp: Run_begin_def run_ok_def split: if_splits)

lemma run_reach_ok: "run_reach a m s \<Longrightarrow> run_ok s"
  by (induction rule: run_reach.induct) (blast dest: run_begin_ok run_step_ok)+

section \<open>The exit code\<close>

text \<open>
  \<^verbatim>\<open>main\<close> with the arguments, the environment and the files as parameters: the levels zap accepts, whether
  the logger can be built, and what \<^verbatim>\<open>Run\<close> of the application returns.  A fatal log line exits with 1, a
  panic with 2.
\<close>

record 'm program =
  pg_quote :: "string \<Rightarrow> string"
  pg_level :: "string \<Rightarrow> bool"
  pg_logger :: bool
  pg_env :: "string \<Rightarrow> string option"
  pg_ReadFile :: "string \<Rightarrow> go_error + string"
  pg_Unmarshal :: "string \<Rightarrow> go_error + (string \<Rightarrow> string option)"
  pg_parts :: "'m parts"

definition exit_code :: "go_error option \<Rightarrow> nat" where
  "exit_code r = (case r of Some e \<Rightarrow> 1 | None \<Rightarrow> 0)"

definition yaralpho_main ::
    "'m program \<Rightarrow> string list \<Rightarrow> 'm process \<Rightarrow> ('m application \<Rightarrow> 'm process \<Rightarrow> go_error option) \<Rightarrow> nat" where
  "yaralpho_main pg args p run =
     (case parseCLIOptions (pg_quote pg) args of
        Inl e \<Rightarrow> 2
      | Inr opts \<Rightarrow>
          (if \<not> pg_level pg (cli_LogLevel opts) then 2
           else if \<not> pg_logger pg then 1
           else case LoadWithPath (pg_env pg) (pg_ReadFile pg) (pg_Unmarshal pg) (cli_ConfigPath opts) of
               LoadPanics ks \<Rightarrow> 2
             | LoadFails e \<Rightarrow> 1
             | Loaded vs ls \<Rightarrow>
                 (case BuildWithOptions (pg_parts pg) (CtxBase 0) (Some (Get vs)) p of
                    (Inl e, p1) \<Rightarrow> 1
                  | (Inr application, p1) \<Rightarrow> exit_code (run application p1))))"

text \<open>
  C30: A server that cannot listen ends the program with success.  Unless somebody asked for the end, \<^verbatim>\<open>Run\<close>
  returns only because the server failed, and then it returns nil, since the \<^verbatim>\<open>select\<close> has taken the
  error from the channel that is read again at the end; so a program that got as far as \<^verbatim>\<open>Run\<close> exits
  with 0.  An error is returned only when it comes after somebody asked for the end, and it is the
  error of the server.
\<close>

theorem failed_server_exits_zero:
  assumes "run_reach a (pr_rest p1) s" and "rn_pc s = RunReturned r"
    and "parseCLIOptions (pg_quote pg) args = Inr opts" and "pg_level pg (cli_LogLevel opts)" and "pg_logger pg"
    and "LoadWithPath (pg_env pg) (pg_ReadFile pg) (pg_Unmarshal pg) (cli_ConfigPath opts) = Loaded vs ls"
    and "BuildWithOptions (pg_parts pg) (CtxBase 0) (Some (Get vs)) p = (Inr a, p1)"
    and "run a p1 = r"
  shows "(\<not> rn_requested s \<longrightarrow> rn_failed s \<noteq> None \<and> r = None \<and> yaralpho_main pg args p run = 0) \<and>
    (\<forall>e. r = Some e \<longrightarrow> rn_requested s \<and> rn_failed s = Some e \<and> yaralpho_main pg args p run = 1)"
proof -
  from run_reach_ok [OF assms(1)] assms(2) have
    "\<not> rn_requested s \<longrightarrow> rn_failed s \<noteq> None \<and> r = None" "\<forall>e. r = Some e \<longrightarrow> rn_requested s \<and> rn_failed s = Some e"
    by (auto simp: run_ok_def)
  moreover have "yaralpho_main pg args p run = exit_code r" using assms(3-8) by (simp add: yaralpho_main_def)
  ultimately show ?thesis by (auto simp: exit_code_def)
qed

text \<open>A run of an application whose port is taken.\<close>

lemma run_port_taken:
  assumes "\<not> ap_started a"
  shows "\<exists>s. run_reach a m s \<and> rn_pc s = RunReturned None \<and> \<not> rn_requested s \<and> rn_failed s \<noteq> None"
proof -
  let ?e = "Errorf ''listen tcp: address already in use''"
  let ?s0 = "\<lparr>rn_pc = RunSelect, rn_errCh = [], rn_serving = True, rn_looping = (ap_scheduler a \<noteq> None),
                 rn_cancelled = False, rn_shut = False, rn_sched = map_option fst (ap_scheduler a), rn_world = m,
                 rn_failed = None, rn_requested = False\<rparr>"
  let ?s1 = "serve_done (Some ?e) ?s0"
  let ?s2 = "?s1\<lparr>rn_pc := RunShutdown, rn_errCh := [], rn_cancelled := True\<rparr>"
  let ?s3 = "run_stop a ?s2"
  let ?s4 = "?s3\<lparr>rn_looping := False\<rparr>"
  let ?s5 = "?s4\<lparr>rn_pc := RunReturned None\<rparr>"
  have ne: "\<not> err_is ?e ErrServerClosed" "?e \<noteq> ErrServerClosed" by (simp_all add: ErrServerClosed_def)
  have s0: "run_reach a m ?s0" using assms by (intro run_start) (simp add: Run_begin_def)
  have s1: "run_reach a m ?s1" by (rule run_next [OF s0], rule run_served) (simp_all add: ne)
  have s2: "run_reach a m ?s2" by (rule run_next [OF s1], rule run_err [where e = ?e]) (simp_all add: serve_done_def ne)
  have s3: "run_reach a m ?s3" by (rule run_next [OF s2 run_shutdown]) simp
  have s4: "run_reach a m ?s4"
  proof (cases "ap_scheduler a")
    case None
    then have "?s4 = ?s3" by (simp add: run_stop_def serve_done_def ne)
    with s3 show ?thesis by simp
  next
    case (Some x)
    then show ?thesis by (intro run_next [OF s3 run_loop_done]) (simp_all add: run_stop_def serve_done_def ne)
  qed
  have "run_step a ?s4 (?s4\<lparr>rn_pc := RunReturned (final_error ?s4)\<rparr>)"
    by (rule run_return) (simp_all add: run_stop_def serve_done_def ne)
  moreover have "final_error ?s4 = None" by (simp add: final_error_def run_stop_def serve_done_def ne)
  ultimately have "run_reach a m ?s5" using run_next [OF s4] by simp
  moreover have "\<not> rn_requested ?s5" "rn_failed ?s5 \<noteq> None" by (simp_all add: run_stop_def serve_done_def ne)
  ultimately show ?thesis by (intro exI [of _ ?s5]) simp
qed

definition demo_program :: "indexed_db program" where
  "demo_program =
     \<lparr>pg_quote = (\<lambda>v. v), pg_level = (\<lambda>l. True), pg_logger = True, pg_env = demo_vars ''x'',
      pg_ReadFile = (\<lambda>f. Inr f), pg_Unmarshal = (\<lambda>d. Inr demo_file), pg_parts = demo_parts\<rparr>"

theorem failed_server_exits_zero_witness:
  "\<exists>a p' s. BuildWithOptions demo_parts (CtxBase 0) (Some (Get (effective (demo_vars ''x'') demo_file))) demo_process = (Inr a, p') \<and>
     run_reach a (pr_rest p') s \<and> rn_failed s \<noteq> None \<and> yaralpho_main demo_program [''-config= ''] demo_process (\<lambda>a p. None) = 0"
proof -
  let ?vs = "effective (demo_vars ''x'') demo_file" and ?opts = "\<lparr>cli_ConfigPath = '' '', cli_LogLevel = ''info''\<rparr>"
  obtain m where m: "mongo_New indexed_admin (CtxBase 0) ''mongodb://db'' ''ralph'' empty_indexed = (None, m)"
    using demo_new by blast
  have d: "pt_index demo_parts = indexed_admin" "pr_rest demo_process = empty_indexed"
    by (simp_all add: demo_parts_def demo_process_def)
  obtain b p' nt where b: "shared_bus (demo_process\<lparr>pr_rest := m\<rparr>) = (b, p')"
    and nt: "NewSlack (pt_slack demo_parts) (Some (Get ?vs)) = Inr nt"
    using NewSlack_some by (metis prod.exhaust)
  obtain a where a: "BuildWithOptions demo_parts (CtxBase 0) (Some (Get ?vs)) demo_process = (Inr a, p')" "\<not> ap_started a"
    using build_result [OF demo_get(2-4) _ _ b nt] m d by fastforce
  obtain s where s: "run_reach a (pr_rest p') s" "rn_pc s = RunReturned None" "\<not> rn_requested s" "rn_failed s \<noteq> None"
    using run_port_taken [OF a(2)] by blast
  have p: "parseCLIOptions (pg_quote demo_program) [''-config= ''] = Inr ?opts" by code_simp
  have l: "LoadWithPath (pg_env demo_program) (pg_ReadFile demo_program) (pg_Unmarshal demo_program) (cli_ConfigPath ?opts) =
      Loaded ?vs (concat (map (override_entry (demo_vars ''x'') demo_file) envOverrideKeys))"
    using demo_get(1) by (simp add: demo_load_def demo_program_def)
  have g: "pg_level demo_program (cli_LogLevel ?opts)" "pg_logger demo_program" "pg_parts demo_program = demo_parts"
    by (simp_all add: demo_program_def)
  from failed_server_exits_zero [OF s(1,2) p g(1,2) l, of demo_process "\<lambda>a p. None"] a(1) g(3) s
  have "yaralpho_main demo_program [''-config= ''] demo_process (\<lambda>a p. None) = 0" by simp
  with a(1) s show ?thesis by blast
qed

end
