(* ===== verification/Live_Feed.thy ===== *)
theory Live_Feed
  imports Live_Events Event_Bus
begin

text \<open>
  From the run that publishes to the client that watches: the event loop of the worker, the store, the
  event bus and one live stream as the processes of one step relation.  The worker inserts an event and then
  publishes it, one send after the other; the handler subscribes, lists what is stored, sends it, and then
  sends what its subscription receives.  The operations are those of \<open>Mongo_Store\<close>, \<open>Event_Bus\<close> and
  \<open>Live_Events\<close>; anybody else may use the bus and the database in between.
\<close>

section \<open>The processes\<close>

text \<open>
  The publisher waits for the next event, has stored one, or is sending it to the rest of a snapshot of the
  subscribers.  The stream is new, has its subscription, the listing, or is in its loop.
\<close>

datatype pub_pc = PubIdle | PubStored session_event | PubSending session_event "nat list"

datatype live_pc =
    LiveNew
  | LiveSubscribed nat
  | LiveListed nat "session_event list"
  | LiveStreaming nat live_state

text \<open>
  The last four fields are observations: the frames sent, the events received, those stored by the
  publisher, and the sorted listing.
\<close>

record 'm feed =
  fd_db :: 'm
  fd_bus :: event_bus
  fd_pub :: pub_pc
  fd_live :: live_pc
  fd_sent :: "envelope list"
  fd_got :: "session_event list"
  fd_published :: "session_event list"
  fd_listed :: "session_event list"

text \<open>The connection: writes succeed, and the select takes from the channel of subscriber \<open>i\<close>.\<close>

definition feed_live :: "(go_time \<Rightarrow> string) \<Rightarrow> (session_event list \<Rightarrow> session_event list) \<Rightarrow> nat \<Rightarrow> 'm feed live" where
  "feed_live fmt srt i =
     \<lparr>lv_format = fmt, lv_parse = (\<lambda>s. None), lv_sort = srt, lv_now = (\<lambda>w. (0, w)), lv_subscribe = None,
      lv_upgrade = (\<lambda>w. (None, w)), lv_write = (\<lambda>f w. (None, w\<lparr>fd_sent := fd_sent w @ [f]\<rparr>)),
      lv_ping = (\<lambda>w. (None, w)), lv_control = (\<lambda>code r w. w),
      lv_select = (\<lambda>w. case sub_events (eb_heap (fd_bus w) i) of
          [] \<Rightarrow> (if sub_events_closed (eb_heap (fd_bus w) i) then LvClosed else LvTick, w)
        | e # es \<Rightarrow> (LvEvent e, w\<lparr>fd_bus := receive i (fd_bus w), fd_got := fd_got w @ [e]\<rparr>)),
      lv_closeSub = (\<lambda>w. w), lv_closeConn = (\<lambda>w. w)\<rparr>"

fun live_sub :: "live_pc \<Rightarrow> nat option" where
  "live_sub LiveNew = None"
| "live_sub (LiveSubscribed i) = Some i"
| "live_sub (LiveListed i evs) = Some i"
| "live_sub (LiveStreaming i st) = Some i"

fun event_of :: "doc \<Rightarrow> session_event option" where
  "event_of (DocEvent e) = Some e"
| "event_of d = None"

definition stored_of :: "('m \<Rightarrow> string \<Rightarrow> doc list) \<Rightarrow> 'm \<Rightarrow> string \<Rightarrow> session_event list" where
  "stored_of docs m sid =
     filter (\<lambda>e. ev_SessionID e = sid) (List.map_filter event_of (docs m sessionEventsCollection))"

text \<open>What others do to the bus leaves the subscription of the stream alone.\<close>

definition keeps_sub :: "string \<Rightarrow> 'm feed \<Rightarrow> event_bus \<Rightarrow> bool" where
  "keeps_sub sid w b \<longleftrightarrow>
     (\<forall>i. live_sub (fd_live w) = Some i \<longrightarrow> eb_heap b i = eb_heap (fd_bus w) i \<and> i \<in> set (bucket sid b))"

inductive feed_step ::
    "'m driver \<Rightarrow> ('m \<Rightarrow> string \<Rightarrow> doc list) \<Rightarrow> (go_time \<Rightarrow> string) \<Rightarrow> (session_event list \<Rightarrow> session_event list) \<Rightarrow>
       string \<Rightarrow> go_time \<Rightarrow> 'm feed \<Rightarrow> 'm feed \<Rightarrow> bool"
  for drv docs fmt srt sid cursor where
  fs_store: "fd_pub w = PubIdle \<Longrightarrow> ev_SessionID e = sid \<Longrightarrow>
     mongo_InsertSessionEvent drv c e (fd_db w) = (None, m) \<Longrightarrow>
     feed_step drv docs fmt srt sid cursor w
       (w\<lparr>fd_db := m, fd_pub := PubStored e, fd_published := fd_published w @ [e]\<rparr>)"
| fs_snapshot: "fd_pub w = PubStored e \<Longrightarrow> distinct js \<Longrightarrow> set js = set (bucket sid (fd_bus w)) \<Longrightarrow>
     feed_step drv docs fmt srt sid cursor w (w\<lparr>fd_pub := PubSending e js\<rparr>)"
| fs_send: "fd_pub w = PubSending e (j # js) \<Longrightarrow>
     (r, s) \<in> set (publishToSubscriber (eb_cfg (fd_bus w)) id id None e (eb_heap (fd_bus w) j)) \<Longrightarrow>
     feed_step drv docs fmt srt sid cursor w
       (w\<lparr>fd_bus := (fd_bus w)\<lparr>eb_heap := (eb_heap (fd_bus w))(j := s)\<rparr>, fd_pub := PubSending e js\<rparr>)"
| fs_sent: "fd_pub w = PubSending e [] \<Longrightarrow> feed_step drv docs fmt srt sid cursor w (w\<lparr>fd_pub := PubIdle\<rparr>)"
| fs_subscribe: "fd_live w = LiveNew \<Longrightarrow> Subscribe sid (fd_bus w) = (Inr i, b) \<Longrightarrow>
     feed_step drv docs fmt srt sid cursor w (w\<lparr>fd_bus := b, fd_live := LiveSubscribed i\<rparr>)"
| fs_list: "fd_live w = LiveSubscribed i \<Longrightarrow> mongo_ListSessionEvents drv c sid (fd_db w) = (Inr evs, m) \<Longrightarrow>
     feed_step drv docs fmt srt sid cursor w
       (w\<lparr>fd_db := m, fd_live := LiveListed i evs, fd_listed := srt evs\<rparr>)"
| fs_backfill: "fd_live w = LiveListed i evs \<Longrightarrow>
     backfill (feed_live fmt srt i) (srt evs) (cursor, {}) w = (Some st, w') \<Longrightarrow>
     feed_step drv docs fmt srt sid cursor w (w'\<lparr>fd_live := LiveStreaming i st\<rparr>)"
| fs_turn: "fd_live w = LiveStreaming i st \<Longrightarrow> live_step (feed_live fmt srt i) st w = (Some st', w') \<Longrightarrow>
     feed_step drv docs fmt srt sid cursor w (w'\<lparr>fd_live := LiveStreaming i st'\<rparr>)"
| fs_other_bus: "bus_step (fd_bus w) b \<Longrightarrow> keeps_sub sid w b \<Longrightarrow>
     feed_step drv docs fmt srt sid cursor w (w\<lparr>fd_bus := b\<rparr>)"
| fs_other_db: "stored_of docs m sid = stored_of docs (fd_db w) sid \<Longrightarrow>
     feed_step drv docs fmt srt sid cursor w (w\<lparr>fd_db := m\<rparr>)"

definition feed_init :: "bus_config \<Rightarrow> 'm \<Rightarrow> 'm feed" where
  "feed_init cfg m =
     \<lparr>fd_db = m, fd_bus = NewMemoryBus cfg, fd_pub = PubIdle, fd_live = LiveNew, fd_sent = [], fd_got = [],
      fd_published = [], fd_listed = []\<rparr>"

definition feed_reach ::
    "'m driver \<Rightarrow> ('m \<Rightarrow> string \<Rightarrow> doc list) \<Rightarrow> (go_time \<Rightarrow> string) \<Rightarrow> (session_event list \<Rightarrow> session_event list) \<Rightarrow>
       string \<Rightarrow> go_time \<Rightarrow> bus_config \<Rightarrow> 'm \<Rightarrow> 'm feed \<Rightarrow> bool" where
  "feed_reach drv docs fmt srt sid cursor cfg m w \<longleftrightarrow>
     (feed_step drv docs fmt srt sid cursor)\<^sup>*\<^sup>* (feed_init cfg m) w"

text \<open>The sends of a publication are those of \<^const>\<open>Publish\<close>, one at a time.\<close>

lemma sends_publish:
  assumes "(r, b') \<in> set (publish_all id id None e js first (fd_bus w))" and "fd_pub w = PubSending e js"
  shows "(feed_step drv docs fmt srt sid cursor)\<^sup>*\<^sup>* w (w\<lparr>fd_bus := b', fd_pub := PubSending e []\<rparr>)"
  using assms
proof (induction js arbitrary: first w)
  case Nil
  then have "w = w\<lparr>fd_bus := b', fd_pub := PubSending e []\<rparr>" by simp
  then show ?case by (metis rtranclp.rtrancl_refl)
next
  case (Cons j js)
  from publish_all_ConsE [OF Cons.prems(1)] obtain q s where
    p: "(q, s) \<in> set (publishToSubscriber (eb_cfg (fd_bus w)) id id None e (eb_heap (fd_bus w) j))" and
    rest: "(r, b') \<in> set (publish_all id id None e js (first_error first q)
       ((fd_bus w)\<lparr>eb_heap := (eb_heap (fd_bus w))(j := s)\<rparr>))"
    by metis
  let ?w = "w\<lparr>fd_bus := (fd_bus w)\<lparr>eb_heap := (eb_heap (fd_bus w))(j := s)\<rparr>, fd_pub := PubSending e js\<rparr>"
  have "(r, b') \<in> set (publish_all id id None e js (first_error first q) (fd_bus ?w))" "fd_pub ?w = PubSending e js"
    using rest by simp_all
  from Cons.IH [OF this]
  have "(feed_step drv docs fmt srt sid cursor)\<^sup>*\<^sup>* ?w (?w\<lparr>fd_bus := b', fd_pub := PubSending e []\<rparr>)" .
  then have rest': "(feed_step drv docs fmt srt sid cursor)\<^sup>*\<^sup>* ?w (w\<lparr>fd_bus := b', fd_pub := PubSending e []\<rparr>)" by simp
  have st: "feed_step drv docs fmt srt sid cursor w ?w" by (rule fs_send [OF Cons.prems(2) p])
  from st rest' show ?case by (rule converse_rtranclp_into_rtranclp)
qed

section \<open>Storing and listing\<close>

text \<open>Documented of a query: a cursor that was read to its end without an error has passed every match.\<close>

definition finds_all :: "'m driver \<Rightarrow> ('m \<Rightarrow> string \<Rightarrow> doc list) \<Rightarrow> bool" where
  "finds_all drv docs \<longleftrightarrow>
     (\<forall>c k f s m cur m' d. Find drv c k f s None m = (Inr cur, m') \<longrightarrow> snd cur = None \<longrightarrow>
        d \<in> set (docs m k) \<longrightarrow> matches f d \<longrightarrow> Inr d \<in> set (fst cur))"

lemma drain_all: "drain what f rows = Inr xs \<Longrightarrow> Inr d \<in> set rows \<Longrightarrow> \<exists>x \<in> set xs. f d = Inr x"
proof (induction rows arbitrary: xs)
  case (Cons r rows)
  then show ?case by (cases r) (auto split: sum.splits)
qed simp

lemma bson_event_simps [simp]:
  "ev_SessionID (bson_event e) = ev_SessionID e" "ev_IngestedAt (bson_event e) = bson_time (ev_IngestedAt e)"
  by (simp_all add: bson_event_def)

lemma session_matches: "matches [(''session_id'', BEq sid)] (DocEvent e) \<longleftrightarrow> ev_SessionID e = sid"
  by (simp add: matches_def cond_holds_def event_field_def)

lemma events_mem: "e \<in> set (List.map_filter event_of ds) \<longleftrightarrow> DocEvent e \<in> set ds"
proof (induction ds)
  case (Cons d ds)
  then show ?case by (cases d) (auto simp: List.map_filter_simps)
qed (simp add: List.map_filter_simps)

lemma stored_mem: "e \<in> set (stored_of docs m sid) \<longleftrightarrow>
    DocEvent e \<in> set (docs m sessionEventsCollection) \<and> ev_SessionID e = sid"
  by (auto simp: stored_of_def events_mem)

lemma insert_stored:
  assumes "driver_ok drv docs" and "mongo_InsertSessionEvent drv c e m = (None, m')" and "ev_SessionID e = sid"
  shows "stored_of docs m' sid = stored_of docs m sid @ [bson_event e]"
proof -
  have "docs m' = (docs m)(sessionEventsCollection := docs m sessionEventsCollection @ [DocEvent (bson_event e)])"
    using mongo_insert_docs [OF assms(1) assms(2) [unfolded mongo_InsertSessionEvent_def]] by simp
  with assms(3) show ?thesis by (simp add: stored_of_def List.map_filter_def)
qed

lemma list_stored:
  assumes "driver_ok drv docs" and "finds_all drv docs" and "mongo_ListSessionEvents drv c sid m = (Inr evs, m')"
  shows "set evs = set (stored_of docs m sid)" and "docs m' = docs m"
proof -
  let ?f = "[(''session_id'', BEq sid)]"
  note l = assms(3) [unfolded mongo_ListSessionEvents_def]
  show "docs m' = docs m" by (rule mongo_list_docs [OF assms(1) l])
  obtain cur where f: "Find drv (withTimeout c) sessionEventsCollection ?f (''ingested_at'', 1) None m = (Inr cur, m')"
    and r: "read_cursor ''session event'' ''session events'' as_event cur = Inr evs"
    using l by (auto simp: mongo_list_def split: prod.splits sum.splits)
  have d: "drain ''session event'' as_event (fst cur) = Inr evs" "snd cur = None"
    using r by (auto simp: read_cursor_def split: sum.splits option.splits)
  have as: "as_event x = Inr e \<longleftrightarrow> x = DocEvent e" for x e by (cases x) auto
  have "DocEvent e \<in> set (docs m sessionEventsCollection) \<and> ev_SessionID e = sid" if "e \<in> set evs" for e
  proof -
    from drain_mem [OF d(1) that] obtain x where "Inr x \<in> set (fst cur)" "x = DocEvent e" using as by metis
    with driver_find_docs [OF assms(1) f] show ?thesis by (auto simp: session_matches)
  qed
  moreover have "e \<in> set evs" if "DocEvent e \<in> set (docs m sessionEventsCollection)" "ev_SessionID e = sid" for e
  proof -
    have "Inr (DocEvent e) \<in> set (fst cur)"
      using assms(2) f d(2) that session_matches unfolding finds_all_def by blast
    from drain_all [OF d(1) this] show ?thesis by auto
  qed
  ultimately show "set evs = set (stored_of docs m sid)" by (intro set_eqI) (metis stored_mem)
qed

section \<open>The invariant\<close>

text \<open>What the publisher still owes subscriber \<open>i\<close>.\<close>

definition due :: "nat \<Rightarrow> pub_pc \<Rightarrow> session_event list" where
  "due i p =
     (case p of PubIdle \<Rightarrow> [] | PubStored e \<Rightarrow> [e] | PubSending e js \<Rightarrow> (if i \<in> set js then [e] else []))"

definition pub_ok :: "'m feed \<Rightarrow> bool" where
  "pub_ok w \<longleftrightarrow>
     (case fd_pub w of
        PubIdle \<Rightarrow> True
      | PubStored e \<Rightarrow> (\<exists>es. fd_published w = es @ [e])
      | PubSending e js \<Rightarrow>
          (\<exists>es. fd_published w = es @ [e]) \<and> distinct js \<and> (\<forall>j \<in> set js. j < eb_next (fd_bus w)))"

definition bus_good :: "event_bus \<Rightarrow> bool" where
  "bus_good b \<longleftrightarrow> bus_ok b \<and> \<not> drops (bc_SlowConsumerPolicy (eb_cfg b)) \<and> 0 < bc_BufferSize (eb_cfg b)"

text \<open>
  The subscription has, received or buffered or owed, what was published from the \<open>k\<close>-th event on; a
  listing has all that was stored when it was made, at least \<open>k\<close> events.
\<close>

definition sub_at :: "string \<Rightarrow> 'm feed \<Rightarrow> nat \<Rightarrow> nat \<Rightarrow> bool" where
  "sub_at sid w i k \<longleftrightarrow>
     i \<in> set (bucket sid (fd_bus w)) \<and> k \<le> length (fd_published w) \<and>
     fd_got w @ sub_events (eb_heap (fd_bus w) i) @ due i (fd_pub w) = drop k (fd_published w)"

definition listed_at :: "'m feed \<Rightarrow> nat \<Rightarrow> nat \<Rightarrow> session_event list \<Rightarrow> bool" where
  "listed_at w k n evs \<longleftrightarrow>
     k \<le> n \<and> n \<le> length (fd_published w) \<and> set evs = bson_event ` set (take n (fd_published w))"

definition live_inv ::
    "(go_time \<Rightarrow> string) \<Rightarrow> (session_event list \<Rightarrow> session_event list) \<Rightarrow> string \<Rightarrow> go_time \<Rightarrow> 'm feed \<Rightarrow> bool" where
  "live_inv fmt srt sid cursor w \<longleftrightarrow>
     (case fd_live w of
        LiveNew \<Rightarrow> fd_got w = [] \<and> frame_events (fd_sent w) = []
      | LiveSubscribed i \<Rightarrow> (\<exists>k. sub_at sid w i k) \<and> fd_got w = [] \<and> frame_events (fd_sent w) = []
      | LiveListed i evs \<Rightarrow>
          (\<exists>k n. sub_at sid w i k \<and> listed_at w k n evs) \<and> fd_listed w = srt evs \<and>
          fd_got w = [] \<and> frame_events (fd_sent w) = []
      | LiveStreaming i st \<Rightarrow>
          (\<exists>k n. sub_at sid w i k \<and> listed_at w k n (fd_listed w)) \<and> fd_listed w \<in> range srt \<and> seen_ok fmt st \<and>
          fst st = cursor_after cursor (fd_listed w @ fd_got w) \<and>
          frame_events (fd_sent w) = fresh_events cursor (fd_listed w @ fd_got w))"

definition feed_inv ::
    "('m \<Rightarrow> string \<Rightarrow> doc list) \<Rightarrow> (go_time \<Rightarrow> string) \<Rightarrow> (session_event list \<Rightarrow> session_event list) \<Rightarrow> string \<Rightarrow> go_time \<Rightarrow>
       'm feed \<Rightarrow> bool" where
  "feed_inv docs fmt srt sid cursor w \<longleftrightarrow>
     stored_of docs (fd_db w) sid = map bson_event (fd_published w) \<and>
     bus_good (fd_bus w) \<and> pub_ok w \<and> live_inv fmt srt sid cursor w"

text \<open>What the invariant of the stream depends on.\<close>

lemma live_inv_mono:
  assumes "live_inv fmt srt sid cursor w"
    and "fd_live w' = fd_live w" "fd_got w' = fd_got w" "fd_sent w' = fd_sent w" "fd_listed w' = fd_listed w"
    and "fd_published w' = fd_published w @ es"
    and "\<And>i k. live_sub (fd_live w) = Some i \<Longrightarrow> sub_at sid w i k \<Longrightarrow> sub_at sid w' i k"
  shows "live_inv fmt srt sid cursor w'"
proof -
  have l: "listed_at w' k n evs" if "listed_at w k n evs" for k n evs
    using that assms(6) by (auto simp: listed_at_def)
  show ?thesis
    using assms(1-5) assms(7) l unfolding live_inv_def by (cases "fd_live w") (auto, blast+)
qed

lemma pub_ok_mono:
  "pub_ok w \<Longrightarrow> fd_pub w' = fd_pub w \<Longrightarrow> fd_published w' = fd_published w \<Longrightarrow>
     eb_next (fd_bus w) \<le> eb_next (fd_bus w') \<Longrightarrow> pub_ok w'"
  by (cases "fd_pub w") (auto simp: pub_ok_def)

text \<open>One send, seen from a subscriber.\<close>

lemma send_step:
  assumes "bus_good b" and "(r, s) \<in> set (publishToSubscriber (eb_cfg b) id id None e (eb_heap b j))"
  shows "bus_good (b\<lparr>eb_heap := (eb_heap b)(j := s)\<rparr>)"
    and "j \<in> set (bucket sid b) \<Longrightarrow> sub_events s = sub_events (eb_heap b j) @ [e]"
proof -
  have ok: "bus_ok b" and nd: "\<not> drops (bc_SlowConsumerPolicy (eb_cfg b))" and buf: "0 < bc_BufferSize (eb_cfg b)"
    using assms(1) by (simp_all add: bus_good_def)
  show "bus_good (b\<lparr>eb_heap := (eb_heap b)(j := s)\<rparr>)"
    using bus_ok_upd [OF ok publishToSubscriber_same [OF env_ok_id env_ok_id assms(2)]] nd buf
    by (simp add: bus_good_def)
  assume "j \<in> set (bucket sid b)"
  from bus_live [OF ok bucket_live [OF this]] have "open_sub (eb_heap b j)"
    using buf ok by (simp add: open_sub_def bus_ok_def)
  from publish_one(1) [OF this assms(2)] nd show "sub_events s = sub_events (eb_heap b j) @ [e]"
    by (cases "bc_SlowConsumerPolicy (eb_cfg b)") (simp_all add: drops_def)
qed

lemma bucket_heap [simp]: "bucket sid (b\<lparr>eb_heap := h\<rparr>) = bucket sid b"
  by (simp add: bucket_def)

lemma publish_all_next: "(r, b') \<in> set (publish_all env1 env2 ce e is first b) \<Longrightarrow> eb_next b' = eb_next b"
proof (induction "is" arbitrary: first b)
  case (Cons i "is")
  from Cons.prems show ?case by (rule publish_all_ConsE) (use Cons.IH in fastforce)
qed simp

lemma bus_step_next: "bus_step b b' \<Longrightarrow> eb_next b \<le> eb_next b'"
  by (induction rule: bus_step.induct)
    (auto simp: Subscribe_def Close_def cleanup_def receive_def Publish_def Let_def split: option.splits
      dest: publish_all_next)

lemma bus_step_good: "bus_step b b' \<Longrightarrow> bus_good b \<Longrightarrow> bus_good b'"
  using bus_step_ok bus_step_cfg by (auto simp: bus_good_def)

lemma subscribed:
  assumes "Subscribe sid b = (Inr i, b')"
  shows "i = eb_next b" "eb_next b' = Suc i" "i \<in> set (bucket sid b')" "sub_events (eb_heap b' i) = []"
proof -
  have "map_of (set_bucket sid ids m) sid = Some ids" for ids m by (induction m) auto
  then show "i = eb_next b" "eb_next b' = Suc i" "i \<in> set (bucket sid b')" "sub_events (eb_heap b' i) = []"
    using assms by (auto simp: Subscribe_def Let_def bucket_def newSubscriber_def split: if_splits)
qed

text \<open>What the handler changes in a turn.\<close>

lemma feed_observed: "conn_observed (feed_live fmt srt i) fd_sent fd_got"
  by (auto simp: conn_observed_def feed_live_def same_obs_def split: list.splits if_splits)

lemma backfill_frame:
  "backfill (feed_live fmt srt i) evs st w = (x, w') \<Longrightarrow> \<exists>fs. w' = w\<lparr>fd_sent := fs\<rparr>"
proof (induction evs arbitrary: st w)
  case Nil
  then show ?case by (cases st) (auto intro: exI [of _ "fd_sent w"])
next
  case (Cons e es)
  obtain c seen where st: "st = (c, seen)" by fastforce
  show ?case
  proof (cases "c < ev_IngestedAt e")
    case True
    obtain f where f: "writeEventEnvelope (feed_live fmt srt i) e w = (None, w\<lparr>fd_sent := fd_sent w @ [f]\<rparr>)"
      by (simp add: writeEventEnvelope_def feed_live_def)
    with Cons.prems True st Cons.IH show ?thesis by fastforce
  next
    case False
    with Cons.prems st Cons.IH show ?thesis by auto
  qed
qed

lemma turn_frame:
  assumes "live_step (feed_live fmt srt i) st w = (Some st', w')"
  shows "\<exists>fs. w' = w\<lparr>fd_sent := fs\<rparr> \<or>
    (\<exists>e es. sub_events (eb_heap (fd_bus w) i) = e # es \<and>
       w' = w\<lparr>fd_sent := fs, fd_bus := receive i (fd_bus w), fd_got := fd_got w @ [e]\<rparr>)"
proof (cases "sub_events (eb_heap (fd_bus w) i)")
  case Nil
  with assms have "w' = w\<lparr>fd_sent := fd_sent w @ [\<lparr>en_Type = ''heartbeat'',
      en_Cursor = (if fst st \<noteq> 0 then fmt (fst st) else []), en_Event = None, en_Error = []\<rparr>]\<rparr>"
    by (auto simp: live_step_def feed_live_def sendHeartbeat_def writeHeartbeatEnvelope_def split: if_splits prod.splits)
  then show ?thesis by blast
next
  case (Cons e es)
  let ?w = "w\<lparr>fd_bus := receive i (fd_bus w), fd_got := fd_got w @ [e]\<rparr>"
  from Cons assms have "w' = ?w \<or> (\<exists>f. w' = ?w\<lparr>fd_sent := fd_sent w @ [f]\<rparr>)"
    by (auto simp: live_step_def feed_live_def writeEventEnvelope_def split: if_splits)
  then have "\<exists>fs. w' = w\<lparr>fd_sent := fs, fd_bus := receive i (fd_bus w), fd_got := fd_got w @ [e]\<rparr>"
  proof
    assume "w' = ?w"
    then show ?thesis by (intro exI [of _ "fd_sent w"]) simp
  next
    assume "\<exists>f. w' = ?w\<lparr>fd_sent := fd_sent w @ [f]\<rparr>"
    then obtain f where "w' = ?w\<lparr>fd_sent := fd_sent w @ [f]\<rparr>" by blast
    then show ?thesis by (intro exI [of _ "fd_sent w @ [f]"]) simp
  qed
  with Cons show ?thesis by blast
qed

lemma feed_step_inv:
  assumes "feed_step drv docs fmt srt sid cursor w w'" and "feed_inv docs fmt srt sid cursor w"
    and drv: "driver_ok drv docs" "finds_all drv docs" and fmt: "format_ok fmt" and srt: "\<And>xs. set (srt xs) = set xs"
  shows "feed_inv docs fmt srt sid cursor w'"
  using assms(1,2)
proof (induction rule: feed_step.induct)
  case (fs_store w e c m)
  from fs_store(4) have st: "stored_of docs (fd_db w) sid = map bson_event (fd_published w)" and b: "bus_good (fd_bus w)"
    and l: "live_inv fmt srt sid cursor w" by (simp_all add: feed_inv_def)
  let ?w = "w\<lparr>fd_db := m, fd_pub := PubStored e, fd_published := fd_published w @ [e]\<rparr>"
  have "live_inv fmt srt sid cursor ?w"
    by (rule live_inv_mono [OF l, where es = "[e]"])
      (use fs_store(1) in \<open>simp_all add: sub_at_def due_def flip: append_assoc\<close>)
  with insert_stored [OF drv(1) fs_store(3,2)] st b show ?case by (simp add: feed_inv_def pub_ok_def)
next
  case (fs_snapshot w e js)
  from fs_snapshot(4) have st: "stored_of docs (fd_db w) sid = map bson_event (fd_published w)" and b: "bus_good (fd_bus w)"
    and l: "live_inv fmt srt sid cursor w" and p: "pub_ok w" by (simp_all add: feed_inv_def)
  let ?w = "w\<lparr>fd_pub := PubSending e js\<rparr>"
  have "live_inv fmt srt sid cursor ?w"
    by (rule live_inv_mono [OF l, where es = "[]"])
      (use fs_snapshot(1,3) in \<open>simp_all add: sub_at_def due_def\<close>)
  moreover have "\<forall>j \<in> set js. j < eb_next (fd_bus w)"
    using bus_live(1) bucket_live b fs_snapshot(3) unfolding bus_good_def by blast
  ultimately show ?case using st b p fs_snapshot(1,2) by (simp add: feed_inv_def pub_ok_def)
next
  case (fs_send w e j js r s)
  from fs_send(3) have st: "stored_of docs (fd_db w) sid = map bson_event (fd_published w)" and b: "bus_good (fd_bus w)"
    and l: "live_inv fmt srt sid cursor w" and p: "pub_ok w" by (simp_all add: feed_inv_def)
  note snd = send_step [OF b fs_send(2)]
  have j: "j \<notin> set js" using p fs_send(1) by (simp add: pub_ok_def)
  let ?w = "w\<lparr>fd_bus := (fd_bus w)\<lparr>eb_heap := (eb_heap (fd_bus w))(j := s)\<rparr>, fd_pub := PubSending e js\<rparr>"
  have "live_inv fmt srt sid cursor ?w"
  proof (rule live_inv_mono [OF l, where es = "[]"])
    fix i k
    assume "sub_at sid w i k"
    with fs_send(1) snd(2) j show "sub_at sid ?w i k" by (cases "i = j") (auto simp: sub_at_def due_def)
  qed simp_all
  with st snd(1) p fs_send(1) show ?case by (simp add: feed_inv_def pub_ok_def)
next
  case (fs_sent w e)
  from fs_sent(2) have l: "live_inv fmt srt sid cursor w" by (simp add: feed_inv_def)
  have "live_inv fmt srt sid cursor (w\<lparr>fd_pub := PubIdle\<rparr>)"
    by (rule live_inv_mono [OF l, where es = "[]"]) (use fs_sent(1) in \<open>simp_all add: sub_at_def due_def\<close>)
  with fs_sent(2) show ?case by (simp add: feed_inv_def pub_ok_def)
next
  case (fs_subscribe w i b)
  from fs_subscribe(3) have st: "stored_of docs (fd_db w) sid = map bson_event (fd_published w)" and g: "bus_good (fd_bus w)"
    and l: "live_inv fmt srt sid cursor w" and p: "pub_ok w" by (simp_all add: feed_inv_def)
  note sub = subscribed [OF fs_subscribe(2)]
  have "bus_step (fd_bus w) b" using bs_subscribe [of "fd_bus w" sid] fs_subscribe(2) by simp
  from bus_step_good [OF this g] have b: "bus_good b" .
  have le: "eb_next (fd_bus w) \<le> eb_next b" using sub by simp
  let ?w = "w\<lparr>fd_bus := b, fd_live := LiveSubscribed i\<rparr>"
  have "sub_at sid ?w i (case fd_pub w of PubStored e \<Rightarrow> length (fd_published w) - 1 | _ \<Rightarrow> length (fd_published w))"
    using l p sub fs_subscribe(1)
    by (cases "fd_pub w") (auto simp: sub_at_def live_inv_def pub_ok_def due_def)
  then have "live_inv fmt srt sid cursor ?w" using l fs_subscribe(1) unfolding live_inv_def by auto
  with st b p le show ?case by (auto simp: feed_inv_def pub_ok_def split: pub_pc.splits)
next
  case (fs_list w i c evs m)
  from fs_list(3) have st: "stored_of docs (fd_db w) sid = map bson_event (fd_published w)" and b: "bus_good (fd_bus w)"
    and l: "live_inv fmt srt sid cursor w" and p: "pub_ok w" by (simp_all add: feed_inv_def)
  note ls = list_stored [OF drv fs_list(2)]
  have m: "stored_of docs m sid = stored_of docs (fd_db w) sid" using ls(2) by (simp add: stored_of_def)
  let ?w = "w\<lparr>fd_db := m, fd_live := LiveListed i evs, fd_listed := srt evs\<rparr>"
  from l fs_list(1) obtain k where k: "sub_at sid w i k" and e: "fd_got w = []" "frame_events (fd_sent w) = []"
    by (auto simp: live_inv_def)
  have "sub_at sid ?w i k" using k by (simp add: sub_at_def)
  moreover have "listed_at ?w k (length (fd_published w)) evs"
    using k ls(1) st by (simp add: listed_at_def sub_at_def)
  ultimately have "live_inv fmt srt sid cursor ?w" using e by (auto simp: live_inv_def)
  with st m b pub_ok_mono [OF p, of ?w] show ?case by (simp add: feed_inv_def)
next
  case (fs_backfill w i evs st' w')
  from fs_backfill(3) have st: "stored_of docs (fd_db w) sid = map bson_event (fd_published w)" and b: "bus_good (fd_bus w)"
    and l: "live_inv fmt srt sid cursor w" and p: "pub_ok w" by (simp_all add: feed_inv_def)
  from backfill_frame [OF fs_backfill(2)] obtain fs where w': "w' = w\<lparr>fd_sent := fs\<rparr>" by blast
  from l fs_backfill(1) obtain k n where k: "sub_at sid w i k" "listed_at w k n evs" and e: "fd_listed w = srt evs"
    "fd_got w = []" "frame_events (fd_sent w) = []"
    by (auto simp: live_inv_def)
  have "seen_ok fmt (cursor, {})" by (simp add: seen_ok_def)
  with backfill_streamed [OF feed_observed _ fs_backfill(2)] obtain out where
    s: "streamed fmt (cursor, {}) (srt evs) out (Some st')" "frame_events fs = out"
    using e w' by (auto simp: feed_live_def)
  let ?w = "w'\<lparr>fd_live := LiveStreaming i st'\<rparr>"
  have "sub_at sid ?w i k" "listed_at ?w k n (srt evs)" using k srt w' by (simp_all add: sub_at_def listed_at_def)
  then have "live_inv fmt srt sid cursor ?w" using s e w' unfolding live_inv_def by (auto simp: streamed_def)
  with st b pub_ok_mono [OF p, of ?w] w' show ?case by (simp add: feed_inv_def)
next
  case (fs_turn w i st0 st' w')
  from fs_turn(3) have st: "stored_of docs (fd_db w) sid = map bson_event (fd_published w)" and b: "bus_good (fd_bus w)"
    and l: "live_inv fmt srt sid cursor w" and p: "pub_ok w" by (simp_all add: feed_inv_def)
  from l fs_turn(1) obtain k n where k: "sub_at sid w i k" "listed_at w k n (fd_listed w)" and
    e: "seen_ok fmt st0" "fst st0 = cursor_after cursor (fd_listed w @ fd_got w)"
    "frame_events (fd_sent w) = fresh_events cursor (fd_listed w @ fd_got w)" "fd_listed w \<in> range srt"
    by (auto simp: live_inv_def)
  have fl: "lv_format (feed_live fmt srt i :: 'a feed live) = fmt" by (simp add: feed_live_def)
  from live_step_streamed [OF feed_observed _ _ fs_turn(2)] fmt e(1) obtain evs out where
    s: "streamed fmt st0 evs out (Some st')" "frame_events (fd_sent w') = frame_events (fd_sent w) @ out"
    "fd_got w' = fd_got w @ evs"
    unfolding fl by blast
  let ?w = "w'\<lparr>fd_live := LiveStreaming i st'\<rparr>"
  from s(1) have t: "out = fresh_events (fst st0) evs" "fst st' = cursor_after (fst st0) evs" "seen_ok fmt st'"
    by (auto simp: streamed_def)
  from turn_frame [OF fs_turn(2)] obtain fs where cs: "w' = w\<lparr>fd_sent := fs\<rparr> \<or>
    (\<exists>e es. sub_events (eb_heap (fd_bus w) i) = e # es \<and>
       w' = w\<lparr>fd_sent := fs, fd_bus := receive i (fd_bus w), fd_got := fd_got w @ [e]\<rparr>)" by blast
  then have "sub_at sid ?w i k" "listed_at ?w k n (fd_listed w')" and same: "fd_listed w' = fd_listed w"
    "fd_db w' = fd_db w" "fd_pub w' = fd_pub w" "fd_published w' = fd_published w" "eb_next (fd_bus w') = eb_next (fd_bus w)"
    using k by (auto simp: sub_at_def listed_at_def receive_def pop_def)
  then have li: "live_inv fmt srt sid cursor ?w"
    using s t e unfolding live_inv_def
    by (auto simp: fresh_append cursor_after_append simp flip: append_assoc)
  have "bus_good (fd_bus w')"
    using cs b bus_step_good [OF bs_receive] by auto
  with st li same pub_ok_mono [OF p, of ?w] show ?case by (simp add: feed_inv_def)
next
  case (fs_other_bus w b)
  from fs_other_bus(3) have g: "bus_good (fd_bus w)" and l: "live_inv fmt srt sid cursor w" by (simp_all add: feed_inv_def)
  have "live_inv fmt srt sid cursor (w\<lparr>fd_bus := b\<rparr>)"
    by (rule live_inv_mono [OF l, where es = "[]"])
      (use fs_other_bus(2) in \<open>simp_all add: sub_at_def keeps_sub_def\<close>)
  with fs_other_bus(3) bus_step_good [OF fs_other_bus(1) g] bus_step_next [OF fs_other_bus(1)]
    pub_ok_mono [of w "w\<lparr>fd_bus := b\<rparr>"]
  show ?case by (simp add: feed_inv_def)
next
  case (fs_other_db m w)
  from fs_other_db(2) have l: "live_inv fmt srt sid cursor w" by (simp add: feed_inv_def)
  have "live_inv fmt srt sid cursor (w\<lparr>fd_db := m\<rparr>)"
    by (rule live_inv_mono [OF l, where es = "[]"]) (simp_all add: sub_at_def)
  with fs_other_db pub_ok_mono [of w "w\<lparr>fd_db := m\<rparr>"] show ?case by (simp add: feed_inv_def)
qed

lemma feed_reach_inv:
  assumes "feed_reach drv docs fmt srt sid cursor cfg m w" and "stored_of docs m sid = []"
    and "driver_ok drv docs" and "finds_all drv docs" and "format_ok fmt" and "\<And>xs. set (srt xs) = set xs"
    and "\<not> drops (bc_SlowConsumerPolicy cfg)"
  shows "feed_inv docs fmt srt sid cursor w"
proof -
  have "bus_good (NewMemoryBus cfg)"
    using assms(7) NewMemoryBus_ok [of cfg]
    by (auto simp: bus_good_def NewMemoryBus_def normalizeConfig_def defaultBufferSize_def drops_def Let_def)
  then have init: "feed_inv docs fmt srt sid cursor (feed_init cfg m)"
    using assms(2) by (simp add: feed_inv_def feed_init_def pub_ok_def live_inv_def)
  have "(feed_step drv docs fmt srt sid cursor)\<^sup>*\<^sup>* (feed_init cfg m) w"
    using assms(1) by (simp add: feed_reach_def)
  then show ?thesis
    by (induction rule: rtranclp_induct) (use init assms(3-6) in \<open>auto intro: feed_step_inv\<close>)
qed

section \<open>Nothing is missed, something may be sent twice\<close>

lemma bson_time_le: "bson_time t \<le> t"
  by (simp add: bson_time_def)

lemma bson_time_mono: "s \<le> t \<Longrightarrow> bson_time s \<le> bson_time t"
proof -
  assume "s \<le> t"
  then have "s div 10 ^ 6 * 10 ^ 6 \<le> t div 10 ^ 6 * 10 ^ 6" by (simp add: zdiv_mono1)
  then show ?thesis by (simp add: bson_time_def minus_mod_eq_div_mult)
qed

lemma fresh_increasing:
  "sorted_wrt (<) (map ev_IngestedAt es) \<Longrightarrow> e \<in> set es \<Longrightarrow> c < ev_IngestedAt e \<Longrightarrow> e \<in> set (fresh_events c es)"
  by (induction c es rule: fresh_events.induct) auto

lemma cursor_after_less: "c < t \<Longrightarrow> \<forall>e \<in> set es. ev_IngestedAt e < t \<Longrightarrow> cursor_after c es < t"
  by (induction c es rule: cursor_after.induct) simp_all


lemma list_driver_finds_all: "finds_all list_driver db_docs"
  by (auto simp: finds_all_def list_driver_def find_docs_def Let_def)

lemma default_policy: "\<not> drops (bc_SlowConsumerPolicy default_bus_config)"
  by (simp add: default_bus_config_def drops_def)

lemma eight_steps:
  "R a b \<Longrightarrow> R b c \<Longrightarrow> R c d \<Longrightarrow> R d e \<Longrightarrow> R e f \<Longrightarrow> R f g \<Longrightarrow> R g h \<Longrightarrow> R h i \<Longrightarrow> R\<^sup>*\<^sup>* a i"
  by (meson rtranclp.rtrancl_refl rtranclp.rtrancl_into_rtrancl)

text \<open>
  The run in which a client subscribes, the event is stored, the client lists and sends it, and only then
  the event is published: the stored time is the published one cut to milliseconds, so neither the
  cursor nor the key recognises the event.
\<close>

lemma feed_twice:
  fixes m :: list_db
  assumes "format_ok fmt" and "srt [bson_event e] = [bson_event e]" and "db_docs m sessionEventsCollection = []"
    and "ev_SessionID e = sid" and "cursor < bson_time (ev_IngestedAt e)" and "bson_time (ev_IngestedAt e) < ev_IngestedAt e"
  shows "\<exists>w st. feed_reach list_driver db_docs fmt srt sid cursor default_bus_config m w \<and> fd_published w = [e] \<and>
    fd_live w = LiveStreaming 0 st \<and> fd_pub w = PubIdle \<and> sub_events (eb_heap (fd_bus w) 0) = [] \<and>
    frame_events (fd_sent w) = [bson_event e, e]"
proof -
  let ?R = "feed_step list_driver db_docs fmt srt sid cursor" and ?lv = "feed_live fmt srt 0 :: list_db feed live"
  let ?w0 = "feed_init default_bus_config m"
  obtain b where b: "Subscribe sid (fd_bus ?w0) = (Inr 0, b)" "bucket sid b = [0]" "eb_heap b 0 = newSubscriber 64 0"
    "bc_SlowConsumerPolicy (eb_cfg b) = SlowConsumerPolicyBlock"
    by (simp add: feed_init_def Subscribe_def NewMemoryBus_def normalizeConfig_def default_bus_config_def
        defaultBufferSize_def bucket_def Let_def)
  let ?w1 = "?w0\<lparr>fd_bus := b, fd_live := LiveSubscribed 0\<rparr>"
  have s1: "?R ?w0 ?w1" by (rule fs_subscribe) (use b in \<open>simp_all add: feed_init_def\<close>)
  obtain m' where m': "mongo_InsertSessionEvent list_driver (CtxBase 0) e m = (None, m')"
    "db_docs m' sessionEventsCollection = [DocEvent (bson_event e)]"
    using assms(3) by (simp add: mongo_InsertSessionEvent_def mongo_insert_def list_driver_def)
  let ?w2 = "?w1\<lparr>fd_db := m', fd_pub := PubStored e, fd_published := [e]\<rparr>"
  have s2: "?R ?w1 ?w2"
    using fs_store [of ?w1 e sid list_driver "CtxBase 0" m'] m' assms(4) by (simp add: feed_init_def)
  have ls: "mongo_ListSessionEvents list_driver (CtxBase 0) sid m' = (Inr [bson_event e], m')"
    using m'(2) assms(4) session_matches [of sid "bson_event e"]
    by (simp add: mongo_ListSessionEvents_def mongo_list_def list_driver_def read_cursor_def find_docs_def Let_def)
  let ?w3 = "?w2\<lparr>fd_live := LiveListed 0 [bson_event e], fd_listed := [bson_event e]\<rparr>"
  have s3: "?R ?w2 ?w3"
    using fs_list [where w = ?w2 and i = 0 and drv = list_driver and c = "CtxBase 0" and sid = sid and
        evs = "[bson_event e]" and m = m' and docs = db_docs and fmt = fmt and srt = srt and cursor = cursor] ls assms(2)
    by (simp add: feed_init_def)
  let ?f = "\<lambda>x. \<lparr>en_Type = ''event'', en_Cursor = fmt (ev_IngestedAt x), en_Event = Some x, en_Error = []\<rparr>"
  let ?st = "(bson_time (ev_IngestedAt e), {eventKey fmt (bson_event e)})"
  let ?w4 = "?w3\<lparr>fd_sent := [?f (bson_event e)], fd_live := LiveStreaming 0 ?st\<rparr>"
  have bf: "backfill ?lv (srt [bson_event e]) (cursor, {}) ?w3 = (Some ?st, ?w3\<lparr>fd_sent := [?f (bson_event e)]\<rparr>)"
    using assms(2,5) by (simp add: writeEventEnvelope_def feed_live_def feed_init_def)
  have s4: "?R ?w3 ?w4" using fs_backfill [OF _ bf] by simp
  let ?w5 = "?w4\<lparr>fd_pub := PubSending e [0]\<rparr>"
  have s5: "?R ?w4 ?w5" by (rule fs_snapshot) (use b(2) in simp_all)
  let ?s = "push e (newSubscriber 64 0)"
  have snd: "(None, ?s) \<in> set (publishToSubscriber (eb_cfg b) id id None e (eb_heap b 0))"
    using b(3,4) by (simp add: publishToSubscriber_def handleBlocking_def can_send_def newSubscriber_def touch_def push_def)
  let ?b = "b\<lparr>eb_heap := (eb_heap b)(0 := ?s)\<rparr>"
  let ?w6 = "?w5\<lparr>fd_bus := ?b, fd_pub := PubSending e []\<rparr>"
  have s6: "?R ?w5 ?w6" using fs_send [of ?w5 e 0 "[]" None ?s] snd by simp
  let ?w7 = "?w6\<lparr>fd_pub := PubIdle\<rparr>"
  have s7: "?R ?w6 ?w7" by (rule fs_sent) simp
  have new: "eventKey fmt e \<noteq> eventKey fmt (bson_event e)"
    using eventKey_time [OF assms(1), of e "bson_event e"] assms(6) by auto
  let ?v = "?w7\<lparr>fd_bus := receive 0 ?b, fd_got := [e], fd_sent := [?f (bson_event e), ?f e]\<rparr>"
  let ?st' = "(ev_IngestedAt e, insert (eventKey fmt e) (snd ?st))"
  have turn: "live_step ?lv ?st ?w7 = (Some ?st', ?v)"
    using new assms(6)
    by (simp add: live_step_def writeEventEnvelope_def feed_live_def feed_init_def newSubscriber_def push_def)
  let ?w8 = "?v\<lparr>fd_live := LiveStreaming 0 ?st'\<rparr>"
  have s8: "?R ?w7 ?w8" by (rule fs_turn [OF _ turn]) simp
  have "?R\<^sup>*\<^sup>* ?w0 ?w8"
    by (rule eight_steps [where R = ?R, OF s1 s2 s3 s4 s5 s6 s7 s8])
  then have "feed_reach list_driver db_docs fmt srt sid cursor default_bus_config m ?w8" by (simp add: feed_reach_def)
  moreover have "sub_events (eb_heap (receive 0 ?b) 0) = []" by (simp add: receive_def pop_def push_def newSubscriber_def)
  ultimately show ?thesis
    by (intro exI [of _ ?w8] exI [of _ ?st']) (simp add: frame_events_def List.map_filter_simps)
qed

text \<open>
  C29: An event can be sent twice.  Every event whose time is not a whole number of milliseconds can reach a
  client twice, as stored and as published: the client came between the storing and the publishing.
\<close>

theorem live_sent_twice:
  fixes m :: list_db
  assumes "format_ok fmt" and "srt [bson_event e] = [bson_event e]" and "db_docs m sessionEventsCollection = []"
    and "ev_SessionID e = sid" and "cursor < bson_time (ev_IngestedAt e)" and "bson_time (ev_IngestedAt e) < ev_IngestedAt e"
  shows "\<exists>w. feed_reach list_driver db_docs fmt srt sid cursor default_bus_config m w \<and> fd_published w = [e] \<and>
    frame_events (fd_sent w) = [bson_event e, e]"
  using feed_twice [of fmt srt e m sid cursor] assms by blast

definition feed_event :: session_event where
  "feed_event =
     \<lparr>ev_BatchID = ''b1'', ev_RunID = ''r1'', ev_SessionID = ''s'', ev_Event = [(''type'', JString ''log'')],
      ev_IngestedAt = 1500000\<rparr>"

lemma feed_event_time: "bson_time 1500000 = 1000000" "ev_IngestedAt feed_event = 1500000"
  "ev_SessionID feed_event = ''s''"
  by (simp_all add: feed_event_def bson_time_def)

theorem live_sent_twice_witness:
  "\<exists>w. feed_reach list_driver db_docs FormatInt (sort_key ev_IngestedAt) ''s'' 0 default_bus_config (demo_db [] []) w \<and>
     fd_published w = [feed_event] \<and> frame_events (fd_sent w) = [bson_event feed_event, feed_event]"
proof -
  have "db_docs (demo_db [] []) sessionEventsCollection = []" by (simp add: demo_db_def collections)
  with live_sent_twice [OF demo_format_ok, of "sort_key ev_IngestedAt" feed_event "demo_db [] []" "''s''" 0]
  have "\<exists>w. feed_reach list_driver db_docs FormatInt (sort_key ev_IngestedAt) ''s'' 0 default_bus_config (demo_db [] []) w \<and>
     fd_published w = [feed_event] \<and> frame_events (fd_sent w) = [bson_event feed_event, feed_event]"
    by (simp add: feed_event_time)
  then show ?thesis by blast
qed


end
