(* ===== verification/Bus_Idle.thy ===== *)
theory Bus_Idle
  imports Event_Bus
begin

text \<open>
  The goroutines behind a subscription, \<^verbatim>\<open>startIdleTimer\<close> and \<^verbatim>\<open>watchContext\<close> of internal/bus/memory_bus.go, in
  time.  Time goes on in units; the timer fires at its deadline and keeps the value until it is taken.  The
  goroutine of the timer may be late; \<open>prompt\<close> says that time does not go on while one of its branches is
  ready.
\<close>

section \<open>The timer goroutine\<close>

text \<open>
  The clock, the deadline of a running timer, whether \<^verbatim>\<open>timer.C\<close> holds a value, whether the two goroutines
  run, whether the context is done, and the subscriber.  The rest are observations: when the timer was set
  last, when it closed the subscription, and when deliveries touched it.
\<close>

record idle_state =
  it_now :: int
  it_deadline :: "int option"
  it_fired :: bool
  it_timing :: bool
  it_watching :: bool
  it_ctxDone :: bool
  it_sub :: subscriber
  it_set :: int
  it_idleClosed :: "int option"
  it_touches :: "int list"

definition startIdleTimer :: "int \<Rightarrow> subscriber \<Rightarrow> idle_state" where
  "startIdleTimer now s =
     \<lparr>it_now = now, it_deadline = (if sub_idleTimeout s \<le> 0 then None else Some (now + sub_idleTimeout s)),
      it_fired = False, it_timing = (0 < sub_idleTimeout s), it_watching = True, it_ctxDone = False,
      it_sub = s, it_set = now, it_idleClosed = None, it_touches = []\<rparr>"

text \<open>\<^verbatim>\<open>Close\<close>, of which the goroutines see that \<^verbatim>\<open>done\<close> is closed.\<close>

definition close_sub :: "subscriber \<Rightarrow> subscriber" where
  "close_sub s = s\<lparr>sub_events_closed := True, sub_done := True\<rparr>"

text \<open>The three branches of the select of the timer goroutine.\<close>

definition on_timer :: "idle_state \<Rightarrow> idle_state" where
  "on_timer s =
     s\<lparr>it_fired := False, it_timing := False, it_sub := close_sub (it_sub s),
       it_idleClosed := (if sub_done (it_sub s) then it_idleClosed s else Some (it_now s))\<rparr>"

definition on_done :: "idle_state \<Rightarrow> idle_state" where
  "on_done s = s\<lparr>it_deadline := None, it_timing := False\<rparr>"

definition on_reset :: "idle_state \<Rightarrow> idle_state" where
  "on_reset s =
     s\<lparr>it_sub := (it_sub s)\<lparr>sub_idleReset := False\<rparr>, it_fired := False,
       it_deadline := Some (it_now s + sub_idleTimeout (it_sub s)), it_set := it_now s\<rparr>"

definition watchContext :: "idle_state \<Rightarrow> idle_state" where
  "watchContext s =
     (if it_ctxDone s then s\<lparr>it_sub := close_sub (it_sub s), it_watching := False\<rparr>
      else if sub_done (it_sub s) then s\<lparr>it_watching := False\<rparr> else s)"

definition idle_ready :: "idle_state \<Rightarrow> bool" where
  "idle_ready s \<longleftrightarrow> it_timing s \<and> (it_fired s \<or> sub_done (it_sub s) \<or> sub_idleReset (it_sub s))"

definition advance :: "idle_state \<Rightarrow> idle_state" where
  "advance s =
     (let s1 = s\<lparr>it_now := it_now s + 1\<rparr>
      in case it_deadline s of
           Some d \<Rightarrow> (if d \<le> it_now s1 then s1\<lparr>it_deadline := None, it_fired := True\<rparr> else s1)
         | None \<Rightarrow> s1)"

inductive idle_step :: "bool \<Rightarrow> idle_state \<Rightarrow> idle_state \<Rightarrow> bool" for prompt where
  it_tick: "\<not> (prompt \<and> idle_ready s) \<Longrightarrow> idle_step prompt s (advance s)"
| it_touch: "idle_step prompt s (s\<lparr>it_sub := touch (it_sub s), it_touches := it_now s # it_touches s\<rparr>)"
| it_fire: "it_timing s \<Longrightarrow> it_fired s \<Longrightarrow> idle_step prompt s (on_timer s)"
| it_stop: "it_timing s \<Longrightarrow> sub_done (it_sub s) \<Longrightarrow> idle_step prompt s (on_done s)"
| it_reset: "it_timing s \<Longrightarrow> sub_idleReset (it_sub s) \<Longrightarrow> idle_step prompt s (on_reset s)"
| it_watch: "it_watching s \<Longrightarrow> idle_step prompt s (watchContext s)"
| it_cancel: "idle_step prompt s (s\<lparr>it_ctxDone := True\<rparr>)"
| it_close: "idle_step prompt s (s\<lparr>it_sub := close_sub (it_sub s)\<rparr>)"

definition idle_reach :: "bool \<Rightarrow> int \<Rightarrow> subscriber \<Rightarrow> idle_state \<Rightarrow> bool" where
  "idle_reach prompt now s0 s \<longleftrightarrow> (idle_step prompt)\<^sup>*\<^sup>* (startIdleTimer now s0) s"

section \<open>When it closes\<close>

text \<open>
  While the goroutine runs its timer is set, or has fired not before the timeout; if it is prompt, it has
  fired just now, and a touch it has not taken yet is of this moment.
\<close>

definition idle_inv :: "bool \<Rightarrow> int \<Rightarrow> idle_state \<Rightarrow> bool" where
  "idle_inv prompt T s \<longleftrightarrow>
     sub_idleTimeout (it_sub s) = T \<and> it_set s \<le> it_now s \<and>
     (it_timing s \<longrightarrow> it_idleClosed s = None \<and>
        (case it_deadline s of
           Some d \<Rightarrow> d = it_set s + T \<and> it_now s < d \<and> \<not> it_fired s
         | None \<Rightarrow> it_fired s \<and> it_set s + T \<le> it_now s \<and> (prompt \<longrightarrow> it_now s = it_set s + T)) \<and>
        (prompt \<longrightarrow> (\<forall>t \<in> set (it_touches s). t \<le> it_set s \<or> t = it_now s \<and> sub_idleReset (it_sub s)))) \<and>
     (\<forall>c. it_idleClosed s = Some c \<longrightarrow> \<not> it_timing s \<and> c \<le> it_now s \<and> it_set s + T \<le> c \<and>
        (prompt \<longrightarrow> c = it_set s + T \<and> (\<forall>t \<in> set (it_touches s). t \<le> it_set s \<or> c \<le> t)))"

lemma close_sub_simps [simp]:
  "sub_idleTimeout (close_sub s) = sub_idleTimeout s" "sub_idleReset (close_sub s) = sub_idleReset s" "sub_done (close_sub s)"
  by (simp_all add: close_sub_def)

lemma touch_timer [simp]:
  "sub_idleTimeout (touch s) = sub_idleTimeout s" "0 < sub_idleTimeout s \<Longrightarrow> sub_idleReset (touch s)"
  by (simp_all add: touch_def)

lemma idle_step_inv: "idle_step prompt s s' \<Longrightarrow> idle_inv prompt T s \<Longrightarrow> 0 < T \<Longrightarrow> idle_inv prompt T s'"
proof (induction rule: idle_step.induct)
  case (it_tick s)
  show ?case
  proof (cases "it_deadline s")
    case None
    with it_tick show ?thesis by (auto simp: idle_inv_def advance_def idle_ready_def Let_def)
  next
    case (Some d)
    with it_tick show ?thesis by (auto simp: idle_inv_def advance_def idle_ready_def Let_def)
  qed
next
  case (it_touch s)
  then show ?case by (auto simp: idle_inv_def split: option.splits)
next
  case (it_fire s)
  then show ?case by (auto simp: idle_inv_def on_timer_def split: option.splits)
next
  case (it_stop s)
  then show ?case by (auto simp: idle_inv_def on_done_def)
next
  case (it_reset s)
  then show ?case by (auto simp: idle_inv_def on_reset_def split: option.splits)
next
  case (it_watch s)
  then show ?case by (auto simp: idle_inv_def watchContext_def split: option.splits)
next
  case (it_cancel s)
  then show ?case by (auto simp: idle_inv_def split: option.splits)
next
  case (it_close s)
  then show ?case by (auto simp: idle_inv_def split: option.splits)
qed

lemma idle_start: "idle_reach prompt now s0 (startIdleTimer now s0)"
  by (simp add: idle_reach_def)

lemma idle_more: "idle_reach prompt now s0 s \<Longrightarrow> idle_step prompt s s' \<Longrightarrow> idle_reach prompt now s0 s'"
  by (simp add: idle_reach_def)

lemma idle_reach_inv:
  assumes "idle_reach prompt now s0 s" and "0 < sub_idleTimeout s0"
  shows "idle_inv prompt (sub_idleTimeout s0) s"
proof -
  have "(idle_step prompt)\<^sup>*\<^sup>* (startIdleTimer now s0) s" using assms(1) by (simp add: idle_reach_def)
  then show ?thesis
  proof (induction rule: rtranclp_induct)
    case base
    with assms(2) show ?case by (simp add: idle_inv_def startIdleTimer_def)
  next
    case (step s s')
    with assms(2) show ?case by (blast intro: idle_step_inv)
  qed
qed

text \<open>
  C31: When a subscription is closed as idle.  It is closed not before the idle timeout has passed since the
  timer was set last.  If the goroutine is prompt, the timer runs at most until then, a subscription is
  closed exactly then, and no delivery has touched it in between: each touch came before, and set the
  timer again, or not before the moment of the closing.
\<close>

theorem idle_close_time:
  assumes "idle_reach prompt now s0 s" and "0 < sub_idleTimeout s0"
  shows "(prompt \<and> it_timing s \<longrightarrow> it_now s \<le> it_set s + sub_idleTimeout s0) \<and>
    (\<forall>c. it_idleClosed s = Some c \<longrightarrow> it_set s + sub_idleTimeout s0 \<le> c \<and>
       (prompt \<longrightarrow> c = it_set s + sub_idleTimeout s0 \<and> (\<forall>t \<in> set (it_touches s). t \<le> it_set s \<or> c \<le> t)))"
  using idle_reach_inv [OF assms] by (auto simp: idle_inv_def split: option.splits)

text \<open>A touch one unit after the start, and a closing three units after it.\<close>

theorem idle_close_time_witness:
  "\<exists>s. idle_reach True 0 (newSubscriber 1 3) s \<and> it_idleClosed s = Some 4 \<and> it_touches s = [1] \<and> it_set s = 1"
proof -
  let ?s0 = "startIdleTimer 0 (newSubscriber 1 3)"
  let ?s1 = "advance ?s0"
  let ?s2 = "?s1\<lparr>it_sub := touch (it_sub ?s1), it_touches := it_now ?s1 # it_touches ?s1\<rparr>"
  let ?s3 = "on_reset ?s2"
  let ?s6 = "advance (advance (advance ?s3))"
  have t: "\<not> (True \<and> idle_ready ?s0)" "\<not> (True \<and> idle_ready ?s3)" "\<not> (True \<and> idle_ready (advance ?s3))"
    "\<not> (True \<and> idle_ready (advance (advance ?s3)))" "it_timing ?s2" "sub_idleReset (it_sub ?s2)"
    "it_timing ?s6" "it_fired ?s6"
    by code_simp+
  have "idle_reach True 0 (newSubscriber 1 3) (on_timer ?s6)"
    by (rule idle_more [OF idle_more [OF idle_more [OF idle_more [OF idle_more [OF idle_more [OF idle_more
      [OF idle_start it_tick [OF t(1)]] it_touch] it_reset [OF t(5,6)]] it_tick [OF t(2)]] it_tick [OF t(3)]]
      it_tick [OF t(4)]] it_fire [OF t(7,8)]])
  moreover from idle_close_time [OF this] have "\<forall>c. it_idleClosed (on_timer ?s6) = Some c \<longrightarrow> c = it_set (on_timer ?s6) + 3"
    by (simp add: newSubscriber_def)
  moreover have "it_idleClosed (on_timer ?s6) \<noteq> None" "it_touches (on_timer ?s6) = [1]" "it_set (on_timer ?s6) = 1"
    by code_simp+
  ultimately show ?thesis by (intro exI [of _ "on_timer ?s6"]) auto
qed

end
