(* ===== verification/Spec2Isabelle.thy ===== *)
theory Spec2Isabelle
  imports Service_Worker Codex_Session GitHub Http_Server Startup Live_Feed Bus_Idle
begin

text \<open>
  \<^bold>\<open>yaralpho\<close>: a service that runs batches of tasks with coding agents.

  \<^bold>\<open>The program.\<close>  A client of the HTTP control plane (src/internal/app) creates repositories, agents and
  batches; a batch is a list of items, each a reference to a task.  The scheduler
  (src/internal/scheduler) wakes up periodically: \<^verbatim>\<open>Tick\<close> takes the first pending item of the first batch
  that may run and an idle agent, stores both as in progress and busy, hands the item to the worker and
  stores the outcome.  The worker (src/internal/consumer) runs the task as a session of an agent
  (src/internal/copilot), stores the events of the session as they come, publishes them on the event
  bus (src/internal/bus), then runs a second session that verifies the work, and repeats both while the
  verification fails and the limit of retries allows.  Everything is kept in MongoDB through the client
  of src/internal/storage/mongo; task titles and comments come from the tracker (src/internal/tracker),
  progress goes to the notifier (src/internal/notify), values come from src/internal/config.

  \<^bold>\<open>Theories and sources.\<close>
  \<^item> \<open>Go_Prelude\<close>: errors, contexts, 64-bit integers, times, and the functions of \<^verbatim>\<open>strings\<close>, \<^verbatim>\<open>strconv\<close>
    and \<^verbatim>\<open>fmt\<close> the sources use.
  \<^item> \<open>Models\<close>: storage/models.go, the documents and statuses; \<open>batch_ok\<close> is what the service keeps true
    of a batch.
  \<^item> \<open>Store_Interface\<close>: storage/interfaces.go as a record of operations, with the locales
    \<^verbatim>\<open>batch_store\<close> and \<^verbatim>\<open>sched_store\<close> for what the clients rely on.
  \<^item> \<open>Mongo_Store\<close>: every operation of storage/mongo over a record of driver calls; \<open>Mongo_Refinement\<close>:
    these operations keep the contract, for every driver that behaves as documented (\<open>driver_ok\<close>);
    \<open>Mongo_Queries\<close>: progress, event counts, active batches; \<open>Mongo_Indexes\<close>: client.go, the connection and
    the indexes; \<open>Mongo_Unique\<close>: what the unique indexes keep.
  \<^item> \<open>Scheduler\<close>: scheduler.go; \<open>Scheduler_Run\<close>: what a tick does to the stored batches and agents.
  \<^item> \<open>Control_Plane\<close>: the HTTP handlers of package app, with the locale \<^verbatim>\<open>control_store\<close>;
    \<open>Live_Events\<close>: run_events_live_handler.go; \<open>Http_Server\<close>: middleware.go, routes.go, ui/static.go, from a
    request to its handler.
  \<^item> \<open>Service\<close>: the scheduler and any number of concurrent batch requests as one step relation over the
    stored batches, its invariants, and the proofs that \<^verbatim>\<open>Tick\<close> and the handlers are sequences of its steps.
  \<^item> \<open>Config\<close>: config.go.
  \<^item> \<open>Task_Runner\<close>: task_helpers.go, execution_task.go, verification_task.go and the interfaces of
    tracker, notifier and session client; \<open>Session_Run\<close>, \<open>Session_Results\<close>: what a session leaves behind,
    with the locale \<^verbatim>\<open>run_store\<close>.
  \<^item> \<open>Worker\<close>: worker.go; \<open>Worker_Run\<close>: what a work item comes to; \<open>Service_Worker\<close>: the worker inside the
    interleaved service.
  \<^item> \<open>Codex\<close>: copilot/codex.go, the goroutine that forwards the output of a wrapper; \<open>Codex_Session\<close>: its
    sessions under the event loop of the worker; \<open>GitHub\<close>: copilot/github.go.
  \<^item> \<open>Event_Bus\<close>: bus.go and memory_bus.go, with the locale \<^verbatim>\<open>delivery_policy\<close> for the three policies;
    \<open>Bus_Idle\<close>: the idle timer of a subscription, in time; \<open>Live_Feed\<close>: the worker that publishes, the bus, the store and
    a live stream as one step relation.
  \<^item> \<open>Lifecycle\<close>: restart_handler.go, scheduler_config.go, and the shutdown and the loop in app.go;
    \<open>Startup\<close>: cmd/main.go, and construction and \<^verbatim>\<open>Run\<close> in app.go.
  \<^item> \<open>Beads\<close>: tracker/beads.go; \<open>Slack\<close>: notify/slack.go.

  \<^bold>\<open>State and operations.\<close>  A struct is a record, a string type with named constants a datatype with a
  constructor for any other string, a map a function or an association list, a slice a list.  An
  operation that touches anything outside its arguments is a function of the world \<open>'w\<close>, which is a type
  variable, and returns its result with the next world; a method that writes through a pointer returns
  the new value.  An error is a value: \<^verbatim>\<open>(T, error)\<close> is a sum and an \<^verbatim>\<open>error\<close> an option.  A loop that need
  not end (\<open>event_loop\<close>, \<open>live_loop\<close>) is a partial function whose value \<^const>\<open>None\<close> means that it does not
  return; the retry loop is a function that terminates because a retry needs an attempt below the
  limit.  No fuel is used anywhere.

  \<^bold>\<open>Interleaving.\<close>  \<open>sv_step\<close> (\<open>Service\<close>) has one step for every read and every write of a stored batch: the
  scheduler picks, claims and completes, the worker reads and changes the status of its copy, requests
  read and write.  \<open>life_step\<close> (\<open>Lifecycle\<close>) has one step for every access to the flags that the loop, the
  restart requests and \<^verbatim>\<open>Run\<close> share, and \<open>run_step\<close> (\<open>Startup\<close>) one for every move of \<^verbatim>\<open>Run\<close> and its goroutines.  The
  bus, a live stream with its publisher (\<open>feed_step\<close>), the idle timer (\<open>idle_step\<close>) and the sessions of the two providers (\<open>codex_move\<close>, \<open>gh_move\<close>) have step relations of their own.  Invariants are proved by rule
  induction, and the code's operations are shown to be sequences of steps, so the invariants hold of the code.

  \<^bold>\<open>Parameters and hypotheses.\<close>  Code that is not in the repository is an argument: the Mongo driver
  (\<open>driver\<close>, \<open>index_driver\<close>), the wrapper process of Codex (\<open>codex\<close>), the SDK of GitHub Copilot (\<open>github\<close>), the
  router (the argument of \<open>serve\<close>), the HTTP client, the JSON decoder, \<^verbatim>\<open>time.ParseDuration\<close>,
  the formats of times, the \<^verbatim>\<open>bd\<close> command.  What is assumed of it is stated in named predicates:
  \<open>driver_ok\<close> (documented results of the driver calls), \<open>indexes_ok\<close> and \<open>enforces\<close> (an index that was created is
  kept, and a write that breaks a unique one fails), \<open>mux_ok\<close> (the router finds a route that matches), \<open>handles\<close> (a
  handler answers through its writer), \<open>finds_all\<close> (a query passes every match),
  \<open>codex_ok\<close> and \<open>undisturbed\<close> (only the provider touches its sessions; the
  context lasts and the store takes the events), \<open>keeps_view\<close> and \<open>worker_keeps\<close> (sessions, tracker and
  notifier do not write to the database), \<open>drains\<close> (a session sends finitely many events), \<open>decodes_nested\<close>
  (nested documents are decoded in the type around them), \<open>unique_batches\<close> and \<open>ids_trimmed\<close> (batch identifiers are
  unique, which \<open>ids_stay_unique\<close> proves of the client, and have no outer white space), \<open>format_ok\<close> and \<open>observed\<close> for the live
  stream.  Each is shown to hold of a concrete instance, on which the properties are applied.

  \<^bold>\<open>What the theorems show.\<close>
  \<^item> The scheduler: a successful tick ran the first pending item and stored its outcome, every failure path
    leaves one of the listed states, a batch is settled after boundedly many attempts, the cap is kept.
  \<^item> The interleaved service: at most one item of a batch in progress, attempts within the cap, done only
    if all items are; the inputs of the items are never changed; with the real worker as well.
  \<^item> The worker: it returns, the number of attempts is bounded, the result is that of the last attempt, the
    batch agrees with the run, the events of a session are stored in order.
  \<^item> The control plane: pause, resume and restart are their transitions, additions, updates and deletions keep
    their guards, listings are capped; the live stream sends what a reference with a cursor sends.
  \<^item> The bus: limits, delivery, closing.  The life of the service: what draining promises.  The
    configuration: precedence, completeness, and that the secret is not logged.
  \<^item> The store: unique identifiers stay unique under every sequence of calls.  The HTTP server: a request is
    answered by the handler of its route, with a request identifier and one log line, panics included.
  \<^item> The providers: the events of a session reach the reader in order, none is lost while the context lasts
    (Codex) or unless the channel is full (GitHub); a run over a wrapper stores its events and returns, so
    \<open>drains\<close> holds of the Codex provider.
  \<^item> The live stream over the bus: a client that has caught up has missed no event, whenever it came; the idle
    timer closes a subscription when the timeout has passed since the last touch it took.
  \<^item> The start: options, the service built from a configuration that was loaded, the exit code.
  \<^item> Defects, each a theorem: a pause during a run is lost, a stale pause strands a batch for ever, a
    verification read back from Mongo is never a failure, a drained service may start a run, events of one
    instant are not all streamed, comments of another issue are taken, one policy of the bus does not restart
    the idle timer, an event can reach a live client twice, a crashed wrapper or a cancelled session can be a run that succeeded, a send to a channel that
    \<^verbatim>\<open>stop\<close> has closed panics, a server that cannot listen ends the program with success.

  \<^bold>\<open>Not modelled.\<close>  Logging and metrics beyond their calls, so neither the scan of a wrapper's stderr nor the
  construction of loggers; the embedded files of the UI and the file server; the adapters around the SDK of
  GitHub Copilot (\<^verbatim>\<open>sdkClient\<close>, \<^verbatim>\<open>sdkSession\<close>), which only pass calls on; the stub \<^verbatim>\<open>Start\<close> of the scheduler; the test
  fakes under src/test.  A panic of the worker is not modelled.  Times are integers, and but for
  the idle timer no property depends on how long an operation takes.

  \<^bold>\<open>Plan.\<close>  All components the source names are modelled.  Left are proofs that join them further: the life of
  the service (\<open>Lifecycle\<close>) with the interleaved documents (\<open>Service\<close>), and the requests of \<open>Http_Server\<close> with both.
\<close>

end
